(* ===== verification/Prelude.thy ===== *)
theory Prelude
  imports Main "HOL-Library.Word" "HOL-Library.Signed_Division"
begin

section \<open>Shared types, C integer conversions and generic lemmas\<close>

text \<open>
  What every component uses: the names of the machine integers, the faults that stand for
  undefined behaviour of the C++ code, the result type of a fallible operation, the
  conversions between C integer types, and the collections of simplification rules that
  the component theories fill.
\<close>

type_synonym u8 = "8 word"
type_synonym u16 = "16 word"
type_synonym u32 = "32 word"
type_synonym u64 = "64 word"

text \<open>Facts about the state fields an operation leaves alone, collected as they are proved.\<close>

named_theorems frame_simps "fields an operation does not change"

text \<open>Evaluation rules of the containers on sorted contents.\<close>

named_theorems smap_simps "meaning of the container operations"

subsection \<open>Faults\<close>

text \<open>
  The source has no exceptions of its own. What can go wrong beyond its error codes is
  undefined behaviour, and the model keeps it as a value: a dereferenced null pointer, an
  access outside a buffer, a call through a null function pointer; and a coroutine that never
  gives control back.
\<close>

datatype fault = Null_Deref | Out_Of_Bounds | Null_Call | No_Return

type_synonym 'a res = "fault + 'a"

fun bind_res :: "'a res \<Rightarrow> ('a \<Rightarrow> 'b res) \<Rightarrow> 'b res" where
  "bind_res (Inl e) f = Inl e"
| "bind_res (Inr x) f = f x"

lemma bind_res_Inr_iff:
  "bind_res r f = Inr y \<longleftrightarrow> (\<exists>x. r = Inr x \<and> f x = Inr y)"
  by (cases r) auto

lemma bind_res_Inl_iff:
  "bind_res r f = Inl e \<longleftrightarrow> r = Inl e \<or> (\<exists>x. r = Inr x \<and> f x = Inl e)"
  by (cases r) auto

lemma bind_res_assoc: "bind_res (bind_res r f) g = bind_res r (\<lambda>x. bind_res (f x) g)"
  by (cases r) auto

subsection \<open>C integer conversions\<close>

text \<open>
  A value converted to \<^verbatim>\<open>int\<close> keeps its low 32 bits, read as two's complement; a signed
  value converted to an unsigned type is taken modulo the width (\<open>word_of_int\<close>).
\<close>

definition to_int :: "u64 \<Rightarrow> int" where
  "to_int w = sint (ucast w :: u32)"

definition u32_to_int :: "u32 \<Rightarrow> int" where
  "u32_to_int w = sint w"

lemma sint_u32_eq:
  "sint (w :: u32) = (int (unat w) + 2 ^ 31) mod 2 ^ 32 - 2 ^ 31"
  using int_word_sint [of "uint w", where 'a = 32] by simp

lemma uint_u32_bounds: "0 \<le> uint (w :: u32) \<and> uint w < 4294967296"
  using uint_bounded [of w] by simp

lemma sint_u32_small:
  assumes "unat (w :: u32) < 2 ^ 31"
  shows "sint w = int (unat w)"
proof -
  have "int (unat w) < int (2 ^ 31)"
    using assms by (simp only: of_nat_less_iff)
  then have "uint w < 2147483648" by simp
  then have "(uint w + 2147483648) mod 4294967296 = uint w + 2147483648"
    using uint_u32_bounds [of w] by (intro mod_pos_pos_trivial) linarith+
  then show ?thesis by (simp add: sint_u32_eq)
qed

lemma sint_u32_large:
  assumes "2 ^ 31 \<le> unat (w :: u32)"
  shows "sint w = int (unat w) - 2 ^ 32"
proof -
  have "int (2 ^ 31) \<le> int (unat w)"
    using assms by (simp only: of_nat_le_iff)
  then have "2147483648 \<le> uint w" by simp
  then have "(uint w - 2147483648) mod 4294967296 = uint w - 2147483648"
    using uint_u32_bounds [of w] by (intro mod_pos_pos_trivial) linarith+
  moreover have "(uint w + 2147483648) mod 4294967296 = (uint w - 2147483648) mod 4294967296"
    using mod_add_self2 [of "uint w - 2147483648" 4294967296] by (simp add: add.commute)
  ultimately show ?thesis by (simp add: sint_u32_eq)
qed

end
