(* ===== verification/ContextSwitch.thy ===== *)
theory ContextSwitch
  imports Prelude
begin

unbundle bit_operations_syntax

section \<open>Coroutine contexts and the switch routine (lib/coroutine)\<close>

text \<open>
  \<^verbatim>\<open>switch.s\<close> is modelled instruction by instruction over a machine with the sixteen
  general registers, byte-addressed memory and the address control goes to next. The code
  has no branch before its last instruction, so the instruction pointer is written by
  \<^verbatim>\<open>ret\<close> and \<^verbatim>\<open>jmp\<close> only; the flags \<^verbatim>\<open>add\<close> sets are never read and are left out.
  \<^verbatim>\<open>stContext\<close> of \<^verbatim>\<open>coroutine.h\<close> is read from memory at its offsets, and
  \<^verbatim>\<open>CreateCoroutine\<close> of \<^verbatim>\<open>coroutine.c\<close> writes one into zeroed memory at the address
  \<^verbatim>\<open>calloc\<close> returns, which is an argument.

  The lemmas run the pushes and the pops of the routine for any list of registers; the
  theorems show that a switch saves the caller's registers in its context, starts the other
  side where it stopped, and that switching back resumes the caller as if the call had
  returned.
\<close>

subsection \<open>Memory\<close>

type_synonym memory = "u64 \<Rightarrow> u8"

text \<open>Little-endian cells of eight bytes.\<close>

definition load64 :: "memory \<Rightarrow> u64 \<Rightarrow> u64" where
  "load64 m a = foldr (\<lambda>i w. push_bit 8 w OR ucast (m (a + i))) [0, 1, 2, 3, 4, 5, 6, 7] 0"

definition store64 :: "memory \<Rightarrow> u64 \<Rightarrow> u64 \<Rightarrow> memory" where
  "store64 m a v = (\<lambda>x. if x - a < 8 then ucast (drop_bit (8 * unat (x - a)) v) else m x)"

lemma byte_split: "push_bit 8 (drop_bit 8 w) OR ucast (ucast w :: u8) = (w :: u64)"
  by (rule bit_word_eqI) (auto simp: bit_or_iff bit_push_bit_iff bit_drop_bit_eq bit_ucast_iff)

lemma drop_bit_split:
  "push_bit 8 (drop_bit (n + 8) w) OR ucast (ucast (drop_bit n w) :: u8) = drop_bit n (w :: u64)"
  using byte_split [of "drop_bit n w"] by (simp add: add.commute)

lemma load_store_same [simp]: "load64 (store64 m a v) a = v"
proof -
  have "drop_bit 64 v = 0" by (rule bit_word_eqI) (simp add: bit_drop_bit_eq)
  then show ?thesis
    using drop_bit_split [of 56 v] drop_bit_split [of 48 v] drop_bit_split [of 40 v]
      drop_bit_split [of 32 v] drop_bit_split [of 24 v] drop_bit_split [of 16 v]
      drop_bit_split [of 8 v] byte_split [of v]
    by (simp add: load64_def store64_def)
qed

lemma uint_minus:
  assumes "w \<noteq> 0"
  shows "uint (- w :: u64) = 2 ^ 64 - uint w"
proof -
  have "uint w \<noteq> 0" using assms by (simp add: uint_0_iff)
  then show ?thesis
    using uint_bounded [of w] zmod_zminus1_eq_if [of "uint w" "2 ^ 64"]
    by (simp add: uint_word_ariths)
qed

text \<open>Two areas, of \<open>n\<close> and \<open>k\<close> bytes, that share no byte.\<close>

definition apart :: "u64 \<Rightarrow> u64 \<Rightarrow> u64 \<Rightarrow> u64 \<Rightarrow> bool" where
  "apart a n b k \<longleftrightarrow> n \<le> b - a \<and> k \<le> a - b"

lemma apartD:
  assumes "apart a n b k" and "y - b < k"
  shows "\<not> y - a < n"
proof (cases "b = a")
  case True
  with assms show ?thesis by (simp add: apart_def)
next
  case False
  let ?p = "b - a" and ?q = "y - b"
  have "uint (- ?p) = 2 ^ 64 - uint ?p"
    using False by (intro uint_minus) simp
  moreover have "uint ?q < uint (- ?p)"
    using assms by (simp add: apart_def word_less_def word_le_def)
  ultimately have "uint ?q + uint ?p < 2 ^ 64" by linarith
  then have "uint (?q + ?p) = uint ?q + uint ?p"
    using uint_add_lem [of ?q ?p] by simp
  then have "uint ?p \<le> uint (?q + ?p)" using uint_nonnegative [of ?q] by linarith
  moreover have "uint n \<le> uint ?p" using assms(1) by (simp add: apart_def word_le_def)
  ultimately show ?thesis by (simp add: word_less_def)
qed

definition same_area :: "memory \<Rightarrow> memory \<Rightarrow> u64 \<Rightarrow> u64 \<Rightarrow> bool" where
  "same_area m m' a n \<longleftrightarrow> (\<forall>x. x - a < n \<longrightarrow> m' x = m x)"

lemma load64_cong:
  assumes "\<And>i. i < 8 \<Longrightarrow> m (a + i) = m' (a + i)"
  shows "load64 m a = load64 m' a"
  using assms assms [of 0] by (simp add: load64_def)

lemma load_store_apart:
  assumes "apart a 8 b 8"
  shows "load64 (store64 m a v) b = load64 m b"
  by (rule load64_cong) (use apartD [OF assms] in \<open>simp add: store64_def\<close>)

text \<open>Consecutive cells from \<open>a\<close> on.\<close>

fun stores :: "memory \<Rightarrow> u64 \<Rightarrow> u64 list \<Rightarrow> memory" where
  "stores m a [] = m"
| "stores m a (v # vs) = store64 (stores m (a + 8) vs) a v"

lemma stores_outside:
  "8 * length vs < 2 ^ 64 \<Longrightarrow> 8 * length vs \<le> unat (x - a) \<Longrightarrow> stores m a vs x = m x"
proof (induction vs arbitrary: a)
  case (Cons v vs)
  have "8 \<le> unat (x - a)" using Cons.prems(2) by simp
  moreover have "unat (x - (a + 8)) = unat (x - a) - 8"
    using unat_sub [of 8 "x - a"] calculation by (simp add: word_le_nat_alt diff_diff_eq)
  ultimately show ?case
    using Cons by (simp add: store64_def word_less_nat_alt)
qed simp

lemma load_stores:
  "8 * length vs < 2 ^ 64 \<Longrightarrow> i < length vs \<Longrightarrow>
   load64 (stores m a vs) (a + 8 * of_nat i) = vs ! i"
proof (induction vs arbitrary: a i)
  case (Cons v vs)
  show ?case
  proof (cases i)
    case (Suc j)
    have u: "uint (8 * of_nat i :: u64) = 8 * int i"
      using Cons.prems by (simp add: uint_word_ariths unsigned_of_nat take_bit_nat_eq_self)
    moreover from this have "8 * of_nat i \<noteq> (0 :: u64)"
      using Suc by (auto simp: uint_0_iff [symmetric])
    ultimately have "apart a 8 (a + 8 * of_nat i) 8"
      using Suc Cons.prems uint_minus [of "8 * of_nat i"] by (simp add: apart_def word_le_def)
    then have "load64 (stores m a (v # vs)) (a + 8 * of_nat i) =
        load64 (stores m (a + 8) vs) (a + 8 + 8 * of_nat j)"
      by (simp add: load_store_apart Suc algebra_simps)
    also have "\<dots> = vs ! j"
      using Cons.IH [of j "a + 8"] Cons.prems Suc by simp
    finally show ?thesis using Suc by simp
  qed simp
qed simp

subsection \<open>The processor\<close>

datatype reg = RAX | RBX | RCX | RDX | RSI | RDI | R8 | R9 | R10 | R11 | R12 | R13 | R14 | R15 | RBP | RSP

record machine =
  regs :: "reg \<Rightarrow> u64"
  mem :: memory
  rip :: u64

text \<open>
  The instruction forms of \<^verbatim>\<open>switch.s\<close>, operands in its order, source first: \<open>Store\<close> and
  \<open>Load\<close> are the \<^verbatim>\<open>mov\<close> to and from memory, \<open>PushMem\<close> is \<^verbatim>\<open>push (reg)\<close>.
\<close>

datatype instr = Mov reg reg | Store reg reg | Load u64 reg reg | Add u64 reg
  | PushMem reg | Push reg | Pop reg | Ret | Jmp reg

fun exec :: "instr \<Rightarrow> machine \<Rightarrow> machine" where
  "exec (Mov a b) s = s\<lparr>regs := (regs s)(b := regs s a)\<rparr>"
| "exec (Store a b) s = s\<lparr>mem := store64 (mem s) (regs s b) (regs s a)\<rparr>"
| "exec (Load d a b) s = s\<lparr>regs := (regs s)(b := load64 (mem s) (regs s a + d))\<rparr>"
| "exec (Add n b) s = s\<lparr>regs := (regs s)(b := regs s b + n)\<rparr>"
| "exec (PushMem a) s =
     s\<lparr>regs := (regs s)(RSP := regs s RSP - 8),
       mem := store64 (mem s) (regs s RSP - 8) (load64 (mem s) (regs s a))\<rparr>"
| "exec (Push a) s =
     s\<lparr>regs := (regs s)(RSP := regs s RSP - 8), mem := store64 (mem s) (regs s RSP - 8) (regs s a)\<rparr>"
| "exec (Pop b) s =
     s\<lparr>regs := (regs s)(RSP := regs s RSP + 8, b := load64 (mem s) (regs s RSP))\<rparr>"
| "exec Ret s =
     s\<lparr>regs := (regs s)(RSP := regs s RSP + 8), rip := load64 (mem s) (regs s RSP)\<rparr>"
| "exec (Jmp a) s = s\<lparr>rip := regs s a\<rparr>"

definition run :: "instr list \<Rightarrow> machine \<Rightarrow> machine" where
  "run is s = fold exec is s"

lemma run_Nil [simp]: "run [] s = s" by (simp add: run_def)
lemma run_Cons [simp]: "run (i # is) s = run is (exec i s)" by (simp add: run_def)
lemma run_append [simp]: "run (is @ js) s = run js (run is s)" by (simp add: run_def)

text \<open>Pushing and popping a list of registers.\<close>

lemma run_pushes:
  assumes "RSP \<notin> set rs"
  shows "run (map Push rs) s =
    s\<lparr>regs := (regs s)(RSP := regs s RSP - 8 * of_nat (length rs)),
      mem := stores (mem s) (regs s RSP - 8 * of_nat (length rs)) (map (regs s) (rev rs))\<rparr>"
  using assms
proof (induction rs rule: rev_induct)
  case (snoc r rs)
  have "r \<noteq> RSP" using snoc.prems by auto
  then show ?case
    using snoc by (simp add: algebra_simps del: fun_upd_apply add: fun_upd_same fun_upd_other)
qed simp

definition popped :: "reg list \<Rightarrow> machine \<Rightarrow> reg \<Rightarrow> u64" where
  "popped rs s = fold (\<lambda>(i, r) f. f(r := load64 (mem s) (regs s RSP + 8 * of_nat i)))
     (enumerate 0 rs) ((regs s)(RSP := regs s RSP + 8 * of_nat (length rs)))"

lemma run_pops:
  assumes "RSP \<notin> set rs"
  shows "run (map Pop rs) s = s\<lparr>regs := popped rs s\<rparr>"
  using assms
proof (induction rs rule: rev_induct)
  case Nil
  then show ?case by (simp add: popped_def)
next
  case (snoc r rs)
  have other: "fold (\<lambda>(i, r) f. f(r := g i)) xs f x = f x" if "x \<notin> snd ` set xs"
    for g :: "nat \<Rightarrow> u64" and xs f and x :: reg
    using that by (induction xs arbitrary: f) (auto split: prod.splits)
  have put: "fold (\<lambda>(i, r) f. f(r := g i)) xs (f(x := v)) = (fold (\<lambda>(i, r) f. f(r := g i)) xs f)(x := v)"
    if "x \<notin> snd ` set xs" for g :: "nat \<Rightarrow> u64" and xs f v and x :: reg
    using that by (induction xs arbitrary: f) (auto simp: fun_upd_twist [of x] split: prod.splits)
  have "RSP \<notin> snd ` set (enumerate 0 rs)" "RSP \<noteq> r"
    using snoc.prems by (auto simp flip: set_map)
  then show ?case
    using snoc.IH snoc.prems
    by (simp add: popped_def enumerate_append_eq put other algebra_simps
        del: fun_upd_apply add: fun_upd_same fun_upd_other)
qed

subsection \<open>The routines\<close>

definition GetStack_code :: "instr list" where
  "GetStack_code = [Store RSP RDI, Store RBP RSI, Ret]"

definition save_code :: "instr list" where
  "save_code =
    [Mov RSP RAX, Mov RDI RSP, Add 136 RSP, PushMem RAX, Add 8 RAX,
     Push RAX, Push RBP, Push R15, Push R14, Push R13, Push R12, Push R11, Push R10, Push R9,
     Push R8, Push RDI, Push RSI, Push RDX, Push RCX, Push RBX, Push RAX]"

definition restore_code :: "instr list" where
  "restore_code =
    [Mov RSI RSP, Pop RAX, Pop RBX, Pop RCX, Pop RDX, Pop RSI, Pop RDI, Pop R8, Pop R9, Pop R10,
     Pop R11, Pop R12, Pop R13, Pop R14, Pop R15, Pop RBP, Load 8 RSP RAX, Pop RSP, Jmp RAX]"

definition SwitchCoroutine_code :: "instr list" where
  "SwitchCoroutine_code = save_code @ restore_code"

definition GetStack :: "machine \<Rightarrow> machine" where
  "GetStack = run GetStack_code"

definition SwitchCoroutine :: "machine \<Rightarrow> machine" where
  "SwitchCoroutine = run SwitchCoroutine_code"

text \<open>The caller's \<^verbatim>\<open>call\<close>: two arguments in registers and the return address pushed.\<close>

definition call_setup :: "u64 \<Rightarrow> u64 \<Rightarrow> u64 \<Rightarrow> machine \<Rightarrow> machine" where
  "call_setup ra x y s =
     s\<lparr>regs := (regs s)(RSP := regs s RSP - 8, RDI := x, RSI := y),
       mem := store64 (mem s) (regs s RSP - 8) ra\<rparr>"

subsection \<open>Contexts\<close>

record stRegister =
  r_rax :: u64
  r_rbx :: u64
  r_rcx :: u64
  r_rdx :: u64
  r_rsi :: u64
  r_rdi :: u64
  r_r8 :: u64
  r_r9 :: u64
  r_r10 :: u64
  r_r11 :: u64
  r_r12 :: u64
  r_r13 :: u64
  r_r14 :: u64
  r_r15 :: u64
  r_rbp :: u64
  r_rsp :: u64
  r_rip :: u64

text \<open>\<^verbatim>\<open>stContext\<close>: the seventeen registers, \<^verbatim>\<open>arg\<close> at offset 136 and \<^verbatim>\<open>stack\<close> at 144.\<close>

definition sizeof_stContext :: u64 where "sizeof_stContext = 152"

definition read_registers :: "memory \<Rightarrow> u64 \<Rightarrow> stRegister" where
  "read_registers m c =
     \<lparr>r_rax = load64 m c, r_rbx = load64 m (c + 8), r_rcx = load64 m (c + 16),
      r_rdx = load64 m (c + 24), r_rsi = load64 m (c + 32), r_rdi = load64 m (c + 40),
      r_r8 = load64 m (c + 48), r_r9 = load64 m (c + 56), r_r10 = load64 m (c + 64),
      r_r11 = load64 m (c + 72), r_r12 = load64 m (c + 80), r_r13 = load64 m (c + 88),
      r_r14 = load64 m (c + 96), r_r15 = load64 m (c + 104), r_rbp = load64 m (c + 112),
      r_rsp = load64 m (c + 120), r_rip = load64 m (c + 128)\<rparr>"

text \<open>What the routine saves of the machine it is called on, and what it makes of a context.\<close>

definition saved_registers :: "machine \<Rightarrow> stRegister" where
  "saved_registers s =
     \<lparr>r_rax = regs s RSP + 8, r_rbx = regs s RBX, r_rcx = regs s RCX, r_rdx = regs s RDX,
      r_rsi = regs s RSI, r_rdi = regs s RDI, r_r8 = regs s R8, r_r9 = regs s R9,
      r_r10 = regs s R10, r_r11 = regs s R11, r_r12 = regs s R12, r_r13 = regs s R13,
      r_r14 = regs s R14, r_r15 = regs s R15, r_rbp = regs s RBP, r_rsp = regs s RSP + 8,
      r_rip = load64 (mem s) (regs s RSP)\<rparr>"

definition restored :: "stRegister \<Rightarrow> reg \<Rightarrow> u64" where
  "restored c r = (case r of
      RAX \<Rightarrow> r_rip c | RBX \<Rightarrow> r_rbx c | RCX \<Rightarrow> r_rcx c | RDX \<Rightarrow> r_rdx c | RSI \<Rightarrow> r_rsi c
    | RDI \<Rightarrow> r_rdi c | R8 \<Rightarrow> r_r8 c | R9 \<Rightarrow> r_r9 c | R10 \<Rightarrow> r_r10 c | R11 \<Rightarrow> r_r11 c
    | R12 \<Rightarrow> r_r12 c | R13 \<Rightarrow> r_r13 c | R14 \<Rightarrow> r_r14 c | R15 \<Rightarrow> r_r15 c | RBP \<Rightarrow> r_rbp c
    | RSP \<Rightarrow> r_rsp c)"

definition context_words :: "machine \<Rightarrow> u64 list" where
  "context_words s =
     (regs s RSP + 8) # map (regs s) [RBX, RCX, RDX, RSI, RDI, R8, R9, R10, R11, R12, R13, R14, R15, RBP]
       @ [regs s RSP + 8, load64 (mem s) (regs s RSP)]"


lemma save_state:
  "run save_code s =
    s\<lparr>regs := (regs s)(RAX := regs s RSP + 8, RSP := regs s RDI),
      mem := stores (mem s) (regs s RDI) (context_words s)\<rparr>"
proof -
  let ?rs = "[RAX, RBP, R15, R14, R13, R12, R11, R10, R9, R8, RDI, RSI, RDX, RCX, RBX, RAX]"
  have code: "save_code = [Mov RSP RAX, Mov RDI RSP, Add 136 RSP, PushMem RAX, Add 8 RAX] @ map Push ?rs"
    by (simp add: save_code_def)
  have app: "stores (stores m (a + 8 * of_nat (length vs)) ws) a vs = stores m a (vs @ ws)" for m a vs ws
  proof (induction vs arbitrary: a)
    case (Cons v vs)
    show ?case using Cons [of "a + 8"] by (simp add: algebra_simps)
  qed simp
  let ?c = "regs s RDI" and ?ra = "load64 (mem s) (regs s RSP)"
  let ?s = "run [Mov RSP RAX, Mov RDI RSP, Add 136 RSP, PushMem RAX, Add 8 RAX] s"
  have r: "regs ?s = (regs s)(RAX := regs s RSP + 8, RSP := ?c + 128)"
    by (simp add: fun_eq_iff)
  have m: "mem ?s = stores (mem s) (?c + 128) [?ra]" by (simp add: add.commute)
  have "?s = s\<lparr>regs := (regs s)(RAX := regs s RSP + 8, RSP := ?c + 128),
      mem := stores (mem s) (?c + 128) [?ra]\<rparr>"
    by (rule machine.equality) (use r m in simp_all)
  moreover have "run (map Push ?rs) ?s = ?s\<lparr>regs := (regs ?s)(RSP := ?c),
      mem := stores (mem ?s) ?c (map (regs ?s) (rev ?rs))\<rparr>"
    using run_pushes [of ?rs ?s] r by simp
  moreover have "stores (stores (mem s) (?c + 128) [?ra]) ?c (map (regs ?s) (rev ?rs)) =
      stores (mem s) ?c (context_words s)"
    using app [of "mem s" ?c "map (regs ?s) (rev ?rs)" "[?ra]"] r by (simp add: context_words_def)
  ultimately show ?thesis
    unfolding code run_append by simp
qed

lemma restore_state:
  "run restore_code s =
    s\<lparr>regs := restored (read_registers (mem s) (regs s RSI)),
      rip := r_rip (read_registers (mem s) (regs s RSI))\<rparr>"
proof -
  let ?rs = "[RAX, RBX, RCX, RDX, RSI, RDI, R8, R9, R10, R11, R12, R13, R14, R15, RBP]"
  let ?s = "s\<lparr>regs := (regs s)(RSP := regs s RSI)\<rparr>"
  have code: "restore_code = [Mov RSI RSP] @ map Pop ?rs @ [Load 8 RSP RAX, Pop RSP, Jmp RAX]"
    by (simp add: restore_code_def)
  have pops: "run (map Pop ?rs) ?s = ?s\<lparr>regs := popped ?rs ?s\<rparr>"
    by (rule run_pops) simp
  have cells: "popped ?rs ?s RSP = regs s RSI + 120"
    "popped ?rs ?s = (restored (read_registers (mem s) (regs s RSI)))
       (RAX := load64 (mem s) (regs s RSI), RSP := regs s RSI + 120)"
    by (simp_all add: popped_def fun_eq_iff restored_def read_registers_def split: reg.split)
  show ?thesis
    unfolding code run_append
    by (simp only: run_Cons run_Nil exec.simps pops) 
      (simp add: cells, simp add: restored_def read_registers_def add.commute fun_eq_iff)
qed

lemma read_stores:
  assumes "length vs = 17"
  shows "read_registers (stores m c vs) c =
    \<lparr>r_rax = vs ! 0, r_rbx = vs ! 1, r_rcx = vs ! 2, r_rdx = vs ! 3, r_rsi = vs ! 4, r_rdi = vs ! 5,
     r_r8 = vs ! 6, r_r9 = vs ! 7, r_r10 = vs ! 8, r_r11 = vs ! 9, r_r12 = vs ! 10, r_r13 = vs ! 11,
     r_r14 = vs ! 12, r_r15 = vs ! 13, r_rbp = vs ! 14, r_rsp = vs ! 15, r_rip = vs ! 16\<rparr>"
proof -
  have l: "load64 (stores m c vs) (c + 8 * of_nat i) = vs ! i" if "i < 17" for i
    by (rule load_stores) (use assms that in simp_all)
  show ?thesis
    using l [of 0] l [of 1] l [of 2] l [of 3] l [of 4] l [of 5] l [of 6] l [of 7] l [of 8] l [of 9]
      l [of 10] l [of 11] l [of 12] l [of 13] l [of 14] l [of 15] l [of 16]
    by (simp add: read_registers_def)
qed

lemma read_registers_cong:
  assumes "same_area m m' c 136"
  shows "read_registers m' c = read_registers m c"
proof -
  have "load64 m' (c + d) = load64 m (c + d)" if "d \<le> 128" for d
  proof (rule load64_cong)
    fix i :: u64
    assume "i < 8"
    then have "uint (d + i) = uint d + uint i"
      using that uint_add_lem [of d i] by (simp add: word_less_def word_le_def)
    then have "d + i < 136"
      using that \<open>i < 8\<close> by (simp add: word_less_def word_le_def)
    then show "m' (c + d + i) = m (c + d + i)"
      using assms by (simp add: same_area_def add.assoc)
  qed
  from this this [of 0] show ?thesis by (simp add: read_registers_def)
qed

subsection \<open>Switching\<close>

text \<open>The whole routine, for any machine state.\<close>

lemma switch_state:
  "SwitchCoroutine s =
    s\<lparr>mem := stores (mem s) (regs s RDI) (context_words s),
      regs := restored (read_registers (stores (mem s) (regs s RDI) (context_words s)) (regs s RSI)),
      rip := r_rip (read_registers (stores (mem s) (regs s RDI) (context_words s)) (regs s RSI))\<rparr>"
  by (simp add: SwitchCoroutine_def SwitchCoroutine_code_def save_state restore_state)

lemma saved_read:
  "read_registers (stores (mem s) (regs s RDI) (context_words s)) (regs s RDI) = saved_registers s"
  by (subst read_stores) (simp_all add: context_words_def saved_registers_def)

lemma switch_outside:
  "\<not> x - regs s RDI < 136 \<Longrightarrow> mem (SwitchCoroutine s) x = mem s x"
  unfolding switch_state
  by (simp, rule stores_outside) (simp_all add: context_words_def word_less_nat_alt)

lemma switch_area:
  "apart (regs s RDI) 136 b n \<Longrightarrow> same_area (mem s) (mem (SwitchCoroutine s)) b n"
  using apartD switch_outside unfolding same_area_def by blast

text \<open>
  The abstract view: coroutines are named by \<open>i\<close>, their contexts lie at \<open>L i\<close> and share no
  byte, and what memory holds is one saved register set for each.
\<close>

definition laid_out :: "('i \<Rightarrow> u64) \<Rightarrow> bool" where
  "laid_out L \<longleftrightarrow> (\<forall>i j. i \<noteq> j \<longrightarrow> apart (L i) 136 (L j) 136)"

definition saved_contexts :: "('i \<Rightarrow> u64) \<Rightarrow> machine \<Rightarrow> 'i \<Rightarrow> stRegister" where
  "saved_contexts L s = (\<lambda>i. read_registers (mem s) (L i))"

lemma switch_contexts:
  assumes "laid_out L" and i: "regs s RDI = L i"
  shows "saved_contexts L (SwitchCoroutine s) = (saved_contexts L s)(i := saved_registers s)"
proof
  fix j
  show "saved_contexts L (SwitchCoroutine s) j = ((saved_contexts L s)(i := saved_registers s)) j"
  proof (cases "j = i")
    case True
    then show ?thesis
      using saved_read [of s] i by (simp add: saved_contexts_def switch_state)
  next
    case False
    then have "apart (regs s RDI) 136 (L j) 136"
      using assms by (simp add: laid_out_def)
    from read_registers_cong [OF switch_area [OF this]] False show ?thesis
      by (simp add: saved_contexts_def)
  qed
qed

lemma switch_regs:
  "regs (SwitchCoroutine s) = restored (read_registers (mem (SwitchCoroutine s)) (regs s RSI))"
  "rip (SwitchCoroutine s) = r_rip (read_registers (mem (SwitchCoroutine s)) (regs s RSI))"
  by (simp_all add: switch_state)

lemma restored_saved:
  "restored (saved_registers (call_setup ra c n s)) = (regs s)(RAX := ra, RDI := c, RSI := n)"
  "r_rip (saved_registers (call_setup ra c n s)) = ra"
  by (simp_all add: saved_registers_def call_setup_def fun_eq_iff restored_def split: reg.split)

lemma call_setup_regs [simp]:
  "regs (call_setup ra c n s) RDI = c" "regs (call_setup ra c n s) RSI = n"
  by (simp_all add: call_setup_def)

lemma call_setup_area:
  "apart (regs s RSP - 8) 8 c 136 \<Longrightarrow> same_area (mem s) (mem (call_setup ra c1 c2 s)) c 136"
  using apartD [of "regs s RSP - 8" 8 c 136]
  by (simp add: same_area_def call_setup_def store64_def)

lemma same_area_trans: "same_area m m' c n \<Longrightarrow> same_area m' m'' c n \<Longrightarrow> same_area m m'' c n"
  by (simp add: same_area_def)

subsection \<open>Creating a coroutine\<close>

definition g_stack_size_default :: u32 where "g_stack_size_default = 100 * 1024"

definition SetStackSize :: "u32 \<Rightarrow> u32 \<Rightarrow> u32" where
  "SetStackSize sz g_stack_size = sz"

text \<open>The \<^verbatim>\<open>int size\<close> of \<^verbatim>\<open>CreateCoroutine\<close>, and the \<^verbatim>\<open>size_t\<close> it becomes as argument of \<^verbatim>\<open>calloc\<close>.\<close>

definition create_size :: "u32 \<Rightarrow> int" where
  "create_size g = to_int (ucast g + sizeof_stContext)"

definition calloc_count :: "u32 \<Rightarrow> u64" where
  "calloc_count g = word_of_int (create_size g)"

definition calloc_zero :: "memory \<Rightarrow> u64 \<Rightarrow> u64 \<Rightarrow> memory" where
  "calloc_zero m p n = (\<lambda>x. if x - p < n then 0 else m x)"

text \<open>\<open>p\<close> is what \<^verbatim>\<open>calloc\<close> returns, null when it fails.\<close>

definition CreateCoroutine :: "u32 \<Rightarrow> u64 \<Rightarrow> u64 \<Rightarrow> u64 \<Rightarrow> memory \<Rightarrow> memory \<times> u64" where
  "CreateCoroutine g entry arg p m =
     (if p = 0 then (m, 0)
      else
        let m1 = calloc_zero m p (calloc_count g);
            m2 = store64 m1 (p + 136) arg;
            m3 = store64 m2 (p + 128) entry;
            m4 = store64 m3 (p + 40) arg;
            m5 = store64 m4 (p + 112) 0;
            m6 = store64 m5 (p + 120) (p + ucast g)
        in (m6, p))"

definition DeleteCoroutine :: "u64 \<Rightarrow> u64 set \<Rightarrow> u64 set" where
  "DeleteCoroutine p allocated = allocated - {p}"

definition fresh_context :: "u32 \<Rightarrow> u64 \<Rightarrow> u64 \<Rightarrow> u64 \<Rightarrow> stRegister" where
  "fresh_context g entry arg p =
     \<lparr>r_rax = 0, r_rbx = 0, r_rcx = 0, r_rdx = 0, r_rsi = 0, r_rdi = arg, r_r8 = 0, r_r9 = 0,
      r_r10 = 0, r_r11 = 0, r_r12 = 0, r_r13 = 0, r_r14 = 0, r_r15 = 0, r_rbp = 0,
      r_rsp = p + ucast g, r_rip = entry\<rparr>"

lemma nat_of_int_cases:
  assumes "int c = (if int n + 152 < 2 ^ 31 then int n + 152
      else if int n + 152 < 2 ^ 32 then 2 ^ 64 - 2 ^ 32 + int n + 152 else int n + 152 - 2 ^ 32)"
  shows "c = (if n + 152 < 2 ^ 31 then n + 152
      else if n + 152 < 2 ^ 32 then 2 ^ 64 - 2 ^ 32 + n + 152 else n + 152 - 2 ^ 32)"
proof -
  consider "n + 152 < 2 ^ 31" | "\<not> n + 152 < 2 ^ 31" "n + 152 < 2 ^ 32" | "\<not> n + 152 < 2 ^ 32"
    by blast
  then show ?thesis
    by cases (use assms in simp_all)
qed

lemma calloc_count_eq:
  "unat (calloc_count g) =
    (if unat g + 152 < 2 ^ 31 then unat g + 152
     else if unat g + 152 < 2 ^ 32 then 2 ^ 64 - 2 ^ 32 + unat g + 152
     else unat g + 152 - 2 ^ 32)"
proof -
  have g: "uint g < 2 ^ 32" "0 \<le> uint g" using uint_bounded [of g] by simp_all
  have ug: "int (unat g) = uint g" by simp
  have "uint (ucast (ucast g + sizeof_stContext :: u64) :: u32) = (uint g + 152) mod 2 ^ 32"
    using g
    by (simp add: sizeof_stContext_def unsigned_ucast_eq uint_word_ariths take_bit_eq_mod)
  then have "create_size g = ((uint g + 152) mod 2 ^ 32 + 2 ^ 31) mod 2 ^ 32 - 2 ^ 31"
    by (simp add: create_size_def to_int_def sint_u32_eq)
  also have "\<dots> = (if uint g + 152 < 2 ^ 31 then uint g + 152
      else if uint g + 152 < 2 ^ 32 then uint g + 152 - 2 ^ 32 else uint g + 152 - 2 ^ 32)"
  proof -
    have over: "(x + 2 ^ 32) mod 2 ^ 32 = x" if "0 \<le> x" "x < 2 ^ 32" for x :: int
      using that mod_add_self2 [of x "2 ^ 32"] by simp
    consider "uint g + 152 < 2 ^ 31" | "\<not> uint g + 152 < 2 ^ 31" "uint g + 152 < 2 ^ 32"
      | "\<not> uint g + 152 < 2 ^ 32" by blast
    then show ?thesis
    proof cases
      case 2
      then have "(uint g + 152 + 2 ^ 31) mod 2 ^ 32 = uint g + 152 + 2 ^ 31 - 2 ^ 32"
        using g over [of "uint g + 152 - 2 ^ 31"] by simp
      with 2 g show ?thesis by simp
    next
      case 3
      then have "(uint g + 152) mod 2 ^ 32 = uint g + 152 - 2 ^ 32"
        using g over [of "uint g + 152 - 2 ^ 32"] by (simp add: add.commute)
      with 3 g show ?thesis by simp
    qed (use g in simp)
  qed
  finally have sz: "create_size g = (if uint g + 152 < 2 ^ 31 then uint g + 152
      else if uint g + 152 < 2 ^ 32 then uint g + 152 - 2 ^ 32 else uint g + 152 - 2 ^ 32)" .
  have neg: "x mod 2 ^ 64 = 2 ^ 64 + x" if "- (2 ^ 64) \<le> x" "x < 0" for x :: int
    using that mod_add_self2 [of x "2 ^ 64"] mod_pos_pos_trivial [of "x + 2 ^ 64" "2 ^ 64"] by simp
  from sz have "uint (calloc_count g) = (if uint g + 152 < 2 ^ 31 then uint g + 152
      else if uint g + 152 < 2 ^ 32 then 2 ^ 64 - 2 ^ 32 + uint g + 152 else uint g + 152 - 2 ^ 32)"
    using g neg by (auto simp: calloc_count_def uint_word_of_int)
  then have "int (unat (calloc_count g)) = (if int (unat g) + 152 < 2 ^ 31 then int (unat g) + 152
      else if int (unat g) + 152 < 2 ^ 32 then 2 ^ 64 - 2 ^ 32 + int (unat g) + 152
      else int (unat g) + 152 - 2 ^ 32)"
    unfolding ug by simp
  then show ?thesis
    by (rule nat_of_int_cases)
qed

lemma load_calloc_zero:
  assumes "d \<le> 128" and "152 \<le> n"
  shows "load64 (calloc_zero m p n) (p + d) = 0"
proof -
  have "d + i < n" if "i < 8" for i
  proof -
    have "uint (d + i) = uint d + uint i"
      using assms that uint_add_lem [of d i] by (simp add: word_less_def word_le_def)
    then show ?thesis
      using assms that by (simp add: word_less_def word_le_def)
  qed
  then have "load64 (calloc_zero m p n) (p + d) = load64 (\<lambda>_. 0) (p + d)"
    by (intro load64_cong) (simp add: calloc_zero_def add.assoc)
  then show ?thesis by (simp add: load64_def)
qed

lemma create_context:
  assumes "p \<noteq> 0" and "unat g + 152 < 2 ^ 31"
  shows "read_registers (fst (CreateCoroutine g entry arg p m)) p = fresh_context g entry arg p"
proof -
  have n: "152 \<le> calloc_count g"
    using assms(2) by (simp add: word_le_nat_alt calloc_count_eq)
  note zero = load_calloc_zero [OF _ n, of _ m p]
  show ?thesis
    using assms(1) zero zero [of 0]
    by (simp add: CreateCoroutine_def Let_def read_registers_def fresh_context_def
        load_store_apart apart_def)
qed

subsection \<open>Properties\<close>

text \<open>
  C1: Over any number of contexts that share no byte, a switch from coroutine \<open>i\<close> to \<open>j\<close> is the
  abstract one: the saved registers of \<open>i\<close> become those of the caller, with its return address
  and the stack as it is after the return, no other coroutine's saved registers change, and
  the processor goes on with exactly what is saved for \<open>j\<close> (\<open>i\<close> itself included).
\<close>

theorem switch_refines:
  assumes "laid_out L" and "regs s RDI = L i" and "regs s RSI = L j"
  shows "saved_contexts L (SwitchCoroutine s) = (saved_contexts L s)(i := saved_registers s) \<and>
    regs (SwitchCoroutine s) = restored (((saved_contexts L s)(i := saved_registers s)) j) \<and>
    rip (SwitchCoroutine s) = r_rip (((saved_contexts L s)(i := saved_registers s)) j)"
proof -
  have sv: "saved_contexts L (SwitchCoroutine s) = (saved_contexts L s)(i := saved_registers s)"
    by (rule switch_contexts [OF assms(1,2)])
  have "read_registers (mem (SwitchCoroutine s)) (L j) =
      ((saved_contexts L s)(i := saved_registers s)) j"
    unfolding sv [symmetric] by (simp add: saved_contexts_def)
  then show ?thesis
    unfolding sv switch_regs assms(3) by simp
qed

definition example_machine :: machine where
  "example_machine = \<lparr>regs = (\<lambda>r. if r = RSP then 0x9000 else if r = RBX then 7 else 0),
     mem = (\<lambda>_. 0), rip = 0x400000\<rparr>"

theorem switch_refines_witness:
  "saved_contexts (\<lambda>b. if b then 0x1000 else 0x2000)
     (SwitchCoroutine (call_setup 0x400005 0x1000 0x2000 example_machine)) True =
   saved_registers (call_setup 0x400005 0x1000 0x2000 example_machine)"
  using switch_refines [of "\<lambda>b. if b then 0x1000 else 0x2000"
      "call_setup 0x400005 0x1000 0x2000 example_machine" True False]
  by (simp add: laid_out_def apart_def)

text \<open>
  A coroutine that switches away and is switched back to later, whatever ran in between
  as long as it left the context alone, goes on after its call with its stack pointer and
  every register it had, except the three the call itself passes values in.
\<close>

theorem switch_resumes:
  assumes "same_area (mem (SwitchCoroutine (call_setup ra c n s))) (mem t) c 136"
    and "apart (regs t RSP - 8) 8 c 136" and "apart c' 136 c 136"
  shows "regs (SwitchCoroutine (call_setup ra' c' c t)) = (regs s)(RAX := ra, RDI := c, RSI := n) \<and>
    rip (SwitchCoroutine (call_setup ra' c' c t)) = ra"
proof -
  let ?s = "call_setup ra c n s" and ?t = "call_setup ra' c' c t"
  have "same_area (mem t) (mem ?t) c 136"
    by (rule call_setup_area [OF assms(2)])
  moreover have "same_area (mem ?t) (mem (SwitchCoroutine ?t)) c 136"
    using switch_area [of ?t c 136] assms(3) by simp
  ultimately have "same_area (mem (SwitchCoroutine ?s)) (mem (SwitchCoroutine ?t)) c 136"
    using assms(1) same_area_trans by blast
  from read_registers_cong [OF this] saved_read [of ?s]
  have "read_registers (mem (SwitchCoroutine ?t)) c = saved_registers ?s"
    by (simp add: switch_state)
  then show ?thesis
    using switch_regs [of ?t] restored_saved by simp
qed

theorem switch_resumes_witness:
  "rip (SwitchCoroutine (call_setup 0x400105 0x2000 0x1000
     ((SwitchCoroutine (call_setup 0x400005 0x1000 0x2000 example_machine))
        \<lparr>regs := (\<lambda>r. if r = RSP then 0xA000 else 1)\<rparr>))) = 0x400005"
  using switch_resumes [of "0x400005" "0x1000" "0x2000" example_machine
      "(SwitchCoroutine (call_setup 0x400005 0x1000 0x2000 example_machine))
        \<lparr>regs := (\<lambda>r. if r = RSP then 0xA000 else 1)\<rparr>" "0x2000" "0x400105"]
  by (simp add: same_area_def apart_def)

text \<open>
  C24: The first switch to a coroutine that \<^verbatim>\<open>CreateCoroutine\<close> made enters its entry function
  with the argument in the first argument register, the stack pointer at the top of its
  stack, a zero frame pointer and every other register zero.
\<close>

theorem create_then_switch_enters:
  assumes "p \<noteq> 0" and "unat g + 152 < 2 ^ 31"
    and "same_area (fst (CreateCoroutine g entry arg p m)) (mem t) p 136"
    and "apart (regs t RSP - 8) 8 p 136" and "apart c 136 p 136"
  shows "regs (SwitchCoroutine (call_setup ra c p t)) =
      (\<lambda>_. 0)(RAX := entry, RDI := arg, RSP := p + ucast g) \<and>
    rip (SwitchCoroutine (call_setup ra c p t)) = entry"
proof -
  let ?t = "call_setup ra c p t"
  have "same_area (mem t) (mem ?t) p 136"
    by (rule call_setup_area [OF assms(4)])
  moreover have "same_area (mem ?t) (mem (SwitchCoroutine ?t)) p 136"
    using switch_area [of ?t p 136] assms(5) by simp
  ultimately have "same_area (fst (CreateCoroutine g entry arg p m)) (mem (SwitchCoroutine ?t)) p 136"
    using assms(3) same_area_trans by blast
  from read_registers_cong [OF this] create_context [OF assms(1,2)]
  have "read_registers (mem (SwitchCoroutine ?t)) p = fresh_context g entry arg p"
    by simp
  then show ?thesis
    using switch_regs [of ?t]
    by (simp add: fresh_context_def restored_def fun_eq_iff split: reg.split)
qed

theorem create_then_switch_enters_witness:
  "rip (SwitchCoroutine (call_setup 0x400005 0x1000 0x20000
     (example_machine\<lparr>mem := fst (CreateCoroutine g_stack_size_default 0x401000 0x77 0x20000 (\<lambda>_. 1))\<rparr>)))
   = 0x401000"
  using create_then_switch_enters [of "0x20000" g_stack_size_default "0x401000" "0x77" "\<lambda>_. 1"
      "example_machine\<lparr>mem := fst (CreateCoroutine g_stack_size_default 0x401000 0x77 0x20000 (\<lambda>_. 1))\<rparr>"
      "0x1000" "0x400005"]
  by (simp add: same_area_def apart_def example_machine_def g_stack_size_default_def)

text \<open>
  Switching from a context to itself, which \<^verbatim>\<open>CoroutineMgr::Init\<close> does to fill in the main
  coroutine's context, returns to the caller as an ordinary call does, and leaves the saved
  context equal to the caller's registers.
\<close>

theorem switch_to_self_returns:
  "regs (SwitchCoroutine (call_setup ra c c s)) = (regs s)(RAX := ra, RDI := c, RSI := c) \<and>
   rip (SwitchCoroutine (call_setup ra c c s)) = ra \<and>
   read_registers (mem (SwitchCoroutine (call_setup ra c c s))) c =
     saved_registers (call_setup ra c c s)"
proof -
  have "read_registers (mem (SwitchCoroutine (call_setup ra c c s))) c =
      saved_registers (call_setup ra c c s)"
    using saved_read [of "call_setup ra c c s"] by (simp add: switch_state)
  then show ?thesis
    using switch_regs [of "call_setup ra c c s"] restored_saved by simp
qed

text \<open>
  The block \<^verbatim>\<open>CreateCoroutine\<close> asks for is the stack and the context for every stack size up
  to 2 GiB less the context; above that the \<^verbatim>\<open>int\<close> goes negative and the request becomes
  enormous, and for the last 152 sizes it wraps to a block smaller than the context that is
  then written into it.
\<close>

theorem create_allocation_size:
  "unat (calloc_count g) =
    (if unat g + 152 < 2 ^ 31 then unat g + unat sizeof_stContext
     else if unat g + 152 < 2 ^ 32 then 2 ^ 64 - 2 ^ 32 + unat g + unat sizeof_stContext
     else unat g + unat sizeof_stContext - 2 ^ 32)"
  by (simp add: calloc_count_eq sizeof_stContext_def)

text \<open>
  With a block aligned to 16 bytes and a stack size that is a multiple of 16, as the
  default is, the entry function starts with a stack pointer that is a multiple of 16, where
  the calling convention has it 8 above one, the return address having been pushed.
\<close>

theorem entry_stack_alignment:
  assumes "p \<noteq> 0" and "unat g + 152 < 2 ^ 31" and "p mod 16 = 0" and "g mod 16 = 0"
  shows "r_rsp (read_registers (fst (CreateCoroutine g entry arg p m)) p) mod 16 = 0"
proof -
  have "uint p mod 16 = 0" "uint g mod 16 = 0"
    using arg_cong [OF assms(3), of uint] arg_cong [OF assms(4), of uint] by (simp_all add: uint_mod)
  then have "(uint p + uint g) mod 2 ^ 64 mod 16 = 0"
    by (subst mod_mod_cancel) (auto simp: mod_add_eq [symmetric])
  moreover have "uint (ucast g :: u64) = uint g"
    by (simp add: uint_up_ucast is_up)
  ultimately have "(p + ucast g) mod 16 = 0"
    by (simp add: word_uint_eq_iff uint_mod uint_word_ariths)
  then show ?thesis
    using assms(1,2) by (simp add: create_context fresh_context_def)
qed

theorem entry_stack_alignment_witness:
  "r_rsp (read_registers (fst (CreateCoroutine g_stack_size_default 0x401000 0x77 0x20000 (\<lambda>_. 1))) 0x20000)
     mod 16 = 0"
  using entry_stack_alignment [of "0x20000" g_stack_size_default]
  by (simp add: g_stack_size_default_def)

text \<open>
  \<^verbatim>\<open>__GetStack__\<close>, called, stores the stack pointer, which points at the return address, and
  the frame pointer in the two variables it is given, and returns with no register changed
  but those that carry the arguments.
\<close>

theorem get_stack_result:
  assumes "apart a 8 b 8" and "apart (regs s RSP - 8) 8 a 8" and "apart (regs s RSP - 8) 8 b 8"
  shows "load64 (mem (GetStack (call_setup ra a b s))) a = regs s RSP - 8 \<and>
    load64 (mem (GetStack (call_setup ra a b s))) b = regs s RBP \<and>
    regs (GetStack (call_setup ra a b s)) = (regs s)(RDI := a, RSI := b) \<and>
    rip (GetStack (call_setup ra a b s)) = ra"
proof -
  have "apart b 8 a 8" "apart a 8 (regs s RSP - 8) 8" "apart b 8 (regs s RSP - 8) 8"
    using assms by (auto simp: apart_def)
  then show ?thesis
    using assms
    by (simp add: GetStack_def GetStack_code_def call_setup_def load_store_apart fun_eq_iff)
qed

theorem get_stack_result_witness:
  "load64 (mem (GetStack (call_setup 0x400005 0x7000 0x7008 example_machine))) 0x7000 = 0x8FF8"
  using get_stack_result [of "0x7000" "0x7008" example_machine "0x400005"]
  by (simp add: apart_def example_machine_def)

end
