(* ===== verification/StdMap.thy ===== *)
theory StdMap
  imports Prelude "HOL-Library.Tree"
begin

section \<open>std::map and std::set over a comparator\<close>

text \<open>
  The code keeps all its tables in \<^verbatim>\<open>std::map\<close> and \<^verbatim>\<open>std::set\<close>. Both are modelled by the
  sequence their iterators walk: a list of entries in the order of the comparator. Search
  is the one the C++ standard describes: \<^verbatim>\<open>lower_bound\<close> is the first entry whose key is not
  less than the wanted one, and \<^verbatim>\<open>find\<close> accepts it when the wanted key is not less than it
  either. A set is a map to \<open>unit\<close>.

  The laws a client may use are those of the locale \<open>strict_weak\<close>, the requirement the
  standard puts on a comparator, relative to a set of keys \<open>K\<close>; \<open>strict_linear\<close> adds that
  equivalent keys are equal. Integer keys give the second.
\<close>

type_synonym ('k, 'v) smap = "('k \<times> 'v) list"

definition sm_before :: "('k \<Rightarrow> 'k \<Rightarrow> bool) \<Rightarrow> 'k \<Rightarrow> ('k, 'v) smap \<Rightarrow> ('k, 'v) smap" where
  "sm_before lt k m = takeWhile (\<lambda>e. lt (fst e) k) m"

definition sm_lower_bound :: "('k \<Rightarrow> 'k \<Rightarrow> bool) \<Rightarrow> 'k \<Rightarrow> ('k, 'v) smap \<Rightarrow> ('k, 'v) smap" where
  "sm_lower_bound lt k m = dropWhile (\<lambda>e. lt (fst e) k) m"

definition sm_entry :: "('k \<Rightarrow> 'k \<Rightarrow> bool) \<Rightarrow> 'k \<Rightarrow> ('k, 'v) smap \<Rightarrow> ('k \<times> 'v) option" where
  "sm_entry lt k m = (case sm_lower_bound lt k m of
     [] \<Rightarrow> None
   | e # _ \<Rightarrow> if lt k (fst e) then None else Some e)"

definition sm_find :: "('k \<Rightarrow> 'k \<Rightarrow> bool) \<Rightarrow> 'k \<Rightarrow> ('k, 'v) smap \<Rightarrow> 'v option" where
  "sm_find lt k m = map_option snd (sm_entry lt k m)"

text \<open>\<^verbatim>\<open>insert\<close>: an entry with an equivalent key stays and the flag is false.\<close>

definition sm_insert :: "('k \<Rightarrow> 'k \<Rightarrow> bool) \<Rightarrow> 'k \<Rightarrow> 'v \<Rightarrow> ('k, 'v) smap \<Rightarrow> ('k, 'v) smap \<times> bool" where
  "sm_insert lt k v m = (case sm_entry lt k m of
     Some _ \<Rightarrow> (m, False)
   | None \<Rightarrow> (sm_before lt k m @ (k, v) # sm_lower_bound lt k m, True))"

text \<open>
  \<^verbatim>\<open>m[k] = v\<close>, and a write through an iterator found at \<open>k\<close>: the stored key stays, its value
  changes; an absent key is inserted.
\<close>

definition sm_assign :: "('k \<Rightarrow> 'k \<Rightarrow> bool) \<Rightarrow> 'k \<Rightarrow> 'v \<Rightarrow> ('k, 'v) smap \<Rightarrow> ('k, 'v) smap" where
  "sm_assign lt k v m = (case sm_entry lt k m of
     Some e \<Rightarrow> sm_before lt k m @ (fst e, v) # tl (sm_lower_bound lt k m)
   | None \<Rightarrow> sm_before lt k m @ (k, v) # sm_lower_bound lt k m)"

text \<open>\<^verbatim>\<open>erase\<close> of the entry found at \<open>k\<close>.\<close>

definition sm_erase :: "('k \<Rightarrow> 'k \<Rightarrow> bool) \<Rightarrow> 'k \<Rightarrow> ('k, 'v) smap \<Rightarrow> ('k, 'v) smap" where
  "sm_erase lt k m = (case sm_entry lt k m of
     Some _ \<Rightarrow> sm_before lt k m @ tl (sm_lower_bound lt k m)
   | None \<Rightarrow> m)"

definition sm_ok :: "('k \<Rightarrow> 'k \<Rightarrow> bool) \<Rightarrow> ('k, 'v) smap \<Rightarrow> bool" where
  "sm_ok lt m \<longleftrightarrow> sorted_wrt lt (map fst m)"

lemma sm_ok_Nil [simp]: "sm_ok lt []"
  by (simp add: sm_ok_def)

lemma sm_ok_single [simp]: "sm_ok lt [e]"
  by (simp add: sm_ok_def)

lemma sm_split: "m = sm_before lt k m @ sm_lower_bound lt k m"
  by (simp add: sm_before_def sm_lower_bound_def)

lemma sm_ok_append:
  "sm_ok lt (xs @ ys) \<longleftrightarrow> sm_ok lt xs \<and> sm_ok lt ys \<and> (\<forall>x \<in> fst ` set xs. \<forall>y \<in> fst ` set ys. lt x y)"
  by (auto simp: sm_ok_def sorted_wrt_append)

lemma sm_ok_Cons:
  "sm_ok lt (e # ys) \<longleftrightarrow> sm_ok lt ys \<and> (\<forall>y \<in> fst ` set ys. lt (fst e) y)"
  by (auto simp: sm_ok_def)

lemma sm_entry_in: "sm_entry lt k m = Some e \<Longrightarrow> e \<in> set m"
  by (auto simp: sm_entry_def sm_lower_bound_def split: list.splits if_splits)
    (metis list.set_intros(1) set_dropWhileD)

lemma sm_lower_bound_hd:
  "sm_lower_bound lt k m = f # fs \<Longrightarrow> \<not> lt (fst f) k"
  unfolding sm_lower_bound_def by (induction m) (auto split: if_splits)

lemma sm_entry_SomeD:
  "sm_entry lt k m = Some e \<Longrightarrow>
   sm_lower_bound lt k m = e # tl (sm_lower_bound lt k m) \<and> \<not> lt k (fst e) \<and> \<not> lt (fst e) k"
  by (auto simp: sm_entry_def split: list.splits if_splits dest: sm_lower_bound_hd)

lemma sm_entry_split:
  assumes "sm_entry lt k m = Some e"
  shows "m = sm_before lt k m @ e # tl (sm_lower_bound lt k m)"
  using sm_split [of m lt k] sm_entry_SomeD [OF assms] by simp

lemma sm_before_less: "x \<in> set (sm_before lt k m) \<Longrightarrow> lt (fst x) k"
  by (auto simp: sm_before_def dest: set_takeWhileD)

text \<open>Assignment at a present key changes no key; the other operations add or drop one entry.\<close>

lemma sm_assign_Some:
  assumes "sm_entry lt k m = Some e"
  shows "sm_assign lt k v m = sm_before lt k m @ (fst e, v) # tl (sm_lower_bound lt k m)"
    and "map fst (sm_assign lt k v m) = map fst m"
proof -
  show *: "sm_assign lt k v m = sm_before lt k m @ (fst e, v) # tl (sm_lower_bound lt k m)"
    using assms by (simp add: sm_assign_def)
  show "map fst (sm_assign lt k v m) = map fst m"
    by (subst (2) sm_entry_split [OF assms]) (simp add: *)
qed

lemma sm_insert_fst:
  "fst (sm_insert lt k v m) = (if sm_entry lt k m = None then sm_assign lt k v m else m)"
  by (auto simp: sm_insert_def sm_assign_def split: option.splits)

lemma sm_insert_snd: "snd (sm_insert lt k v m) \<longleftrightarrow> sm_entry lt k m = None"
  by (auto simp: sm_insert_def split: option.splits)

subsection \<open>The comparator contract\<close>

locale strict_weak =
  fixes lt :: "'k \<Rightarrow> 'k \<Rightarrow> bool"
    and K :: "'k set"
  assumes irrefl: "a \<in> K \<Longrightarrow> \<not> lt a a"
    and trans: "a \<in> K \<Longrightarrow> b \<in> K \<Longrightarrow> c \<in> K \<Longrightarrow> lt a b \<Longrightarrow> lt b c \<Longrightarrow> lt a c"
    and incomp_trans: "a \<in> K \<Longrightarrow> b \<in> K \<Longrightarrow> c \<in> K \<Longrightarrow>
      \<not> lt a b \<Longrightarrow> \<not> lt b a \<Longrightarrow> \<not> lt b c \<Longrightarrow> \<not> lt c b \<Longrightarrow> \<not> lt a c"
begin

lemma neg_trans:
  assumes "a \<in> K" "b \<in> K" "c \<in> K" "\<not> lt a b" "\<not> lt b c"
  shows "\<not> lt a c"
  using assms trans incomp_trans irrefl by metis

lemma asym: "a \<in> K \<Longrightarrow> b \<in> K \<Longrightarrow> lt a b \<Longrightarrow> \<not> lt b a"
  using trans irrefl by blast

text \<open>Search finds exactly the entry whose key is equivalent to the wanted one.\<close>

lemma entry_iff:
  assumes ok: "sm_ok lt m" and keys: "fst ` set m \<subseteq> K" and k: "k \<in> K"
  shows "sm_entry lt k m = Some e \<longleftrightarrow> e \<in> set m \<and> \<not> lt (fst e) k \<and> \<not> lt k (fst e)"
proof
  assume "sm_entry lt k m = Some e"
  then show "e \<in> set m \<and> \<not> lt (fst e) k \<and> \<not> lt k (fst e)"
    using sm_entry_in sm_entry_SomeD by metis
next
  assume e: "e \<in> set m \<and> \<not> lt (fst e) k \<and> \<not> lt k (fst e)"
  have "e \<in> set (sm_lower_bound lt k m)"
    using e sm_before_less [of e lt k m] sm_split [of m lt k] by (metis Un_iff set_append)
  then obtain f fs where lb: "sm_lower_bound lt k m = f # fs" and in_lb: "e = f \<or> e \<in> set fs"
    by (cases "sm_lower_bound lt k m") auto
  have f: "f \<in> set m" and nf: "\<not> lt (fst f) k"
    using sm_split [of m lt k] sm_lower_bound_hd [OF lb] lb
    by (metis in_set_conv_decomp, blast)
  have "e = f"
  proof (rule ccontr)
    assume "e \<noteq> f"
    then have "lt (fst f) (fst e)"
      using ok sm_split [of m lt k] lb in_lb by (metis image_eqI sm_ok_Cons sm_ok_append)
    then show False
      using e f nf k keys neg_trans [of "fst f" k "fst e"] by (auto simp: image_subset_iff)
  qed
  then show "sm_entry lt k m = Some e"
    using e lb by (simp add: sm_entry_def)
qed

lemma entry_None_iff:
  assumes "sm_ok lt m" and "fst ` set m \<subseteq> K" and "k \<in> K"
  shows "sm_entry lt k m = None \<longleftrightarrow> (\<forall>e \<in> set m. lt (fst e) k \<or> lt k (fst e))"
  using entry_iff [OF assms] by (metis not_None_eq option.distinct(1))

lemma lower_bound_greater:
  assumes ok: "sm_ok lt m" and keys: "fst ` set m \<subseteq> K" and k: "k \<in> K"
    and none: "sm_entry lt k m = None" and y: "y \<in> set (sm_lower_bound lt k m)"
  shows "lt k (fst y)"
proof -
  have in_m: "y \<in> set m"
    using y by (metis Un_iff set_append sm_split)
  obtain f fs where lb: "sm_lower_bound lt k m = f # fs"
    using y by (cases "sm_lower_bound lt k m") auto
  have kf: "lt k (fst f)"
    using none lb by (auto simp: sm_entry_def split: if_splits)
  show ?thesis
  proof (cases "y = f")
    case True
    with kf show ?thesis by simp
  next
    case False
    then have "y \<in> set fs" using y lb by simp
    then have "lt (fst f) (fst y)"
      using ok sm_split [of m lt k] lb by (metis image_eqI sm_ok_Cons sm_ok_append)
    moreover have "fst f \<in> K"
      using lb keys sm_split [of m lt k] by (metis image_subset_iff in_set_conv_decomp)
    ultimately show ?thesis
      using kf trans [of k "fst f" "fst y"] k keys in_m by (auto simp: image_subset_iff)
  qed
qed

lemma assign_ok:
  assumes ok: "sm_ok lt m" and keys: "fst ` set m \<subseteq> K" and k: "k \<in> K"
  shows "sm_ok lt (sm_assign lt k v m)"
proof (cases "sm_entry lt k m")
  case None
  have "sm_ok lt (sm_before lt k m @ sm_lower_bound lt k m)"
    using ok sm_split [of m lt k] by simp
  then show ?thesis
    using None lower_bound_greater [OF ok keys k None]
    by (auto simp: sm_assign_def sm_ok_append sm_ok_Cons dest: sm_before_less)
next
  case (Some e)
  with ok show ?thesis by (simp add: sm_ok_def sm_assign_Some(2))
qed

lemma set_assign:
  assumes ok: "sm_ok lt m" and keys: "fst ` set m \<subseteq> K" and k: "k \<in> K"
  shows "set (sm_assign lt k v m) = (case sm_entry lt k m of
      None \<Rightarrow> insert (k, v) (set m)
    | Some e \<Rightarrow> insert (fst e, v) (set m - {e}))"
proof (cases "sm_entry lt k m")
  case None
  then show ?thesis
    using sm_split [of m lt k] by (simp add: sm_assign_def) (metis set_append)
next
  case (Some e)
  define xs ys where "xs = sm_before lt k m" and "ys = tl (sm_lower_bound lt k m)"
  have m: "m = xs @ e # ys"
    unfolding xs_def ys_def by (rule sm_entry_split [OF Some])
  have "fst e \<in> K" using keys m by auto
  then have "e \<notin> set xs \<and> e \<notin> set ys"
    using ok irrefl by (auto simp: m sm_ok_append sm_ok_Cons)
  moreover have "set m = insert e (set xs \<union> set ys)" using m by simp
  moreover have "sm_assign lt k v m = xs @ (fst e, v) # ys"
    by (simp add: sm_assign_Some(1) [OF Some] xs_def ys_def)
  ultimately show ?thesis using Some by auto
qed

lemma erase_ok: "sm_ok lt m \<Longrightarrow> sm_ok lt (sm_erase lt k m)"
proof (cases "sm_entry lt k m")
  case (Some e)
  assume "sm_ok lt m"
  then have "sm_ok lt (sm_before lt k m @ e # tl (sm_lower_bound lt k m))"
    using sm_entry_split [OF Some] by simp
  then show ?thesis
    using Some by (auto simp: sm_erase_def sm_ok_append sm_ok_Cons)
qed (simp add: sm_erase_def)

lemma set_erase:
  assumes ok: "sm_ok lt m" and keys: "fst ` set m \<subseteq> K"
  shows "set (sm_erase lt k m) = (case sm_entry lt k m of None \<Rightarrow> set m | Some e \<Rightarrow> set m - {e})"
proof (cases "sm_entry lt k m")
  case (Some e)
  define xs ys where "xs = sm_before lt k m" and "ys = tl (sm_lower_bound lt k m)"
  have m: "m = xs @ e # ys"
    unfolding xs_def ys_def by (rule sm_entry_split [OF Some])
  have "fst e \<in> K" using keys m by auto
  then have "e \<notin> set xs \<and> e \<notin> set ys"
    using ok irrefl by (auto simp: m sm_ok_append sm_ok_Cons)
  moreover have "set m = insert e (set xs \<union> set ys)" using m by simp
  moreover have "sm_erase lt k m = xs @ ys"
    by (simp add: sm_erase_def Some xs_def ys_def)
  ultimately show ?thesis using Some by auto
qed (simp add: sm_erase_def)

lemma insert_ok:
  "sm_ok lt m \<Longrightarrow> fst ` set m \<subseteq> K \<Longrightarrow> k \<in> K \<Longrightarrow> sm_ok lt (fst (sm_insert lt k v m))"
  by (simp add: sm_insert_fst assign_ok)

end

text \<open>When equivalent keys are equal, a map is a finite function: \<open>map_of\<close> is its meaning.\<close>

locale strict_linear = strict_weak lt K for lt :: "'k \<Rightarrow> 'k \<Rightarrow> bool" and K +
  assumes total: "a \<in> K \<Longrightarrow> b \<in> K \<Longrightarrow> a \<noteq> b \<Longrightarrow> lt a b \<or> lt b a"
begin

lemma distinct_keys:
  assumes "sm_ok lt m" and "fst ` set m \<subseteq> K"
  shows "distinct (map fst m)"
  using assms irrefl unfolding sm_ok_def
  by (induction m) auto

lemma entry_map_of:
  assumes ok: "sm_ok lt m" and keys: "fst ` set m \<subseteq> K" and k: "k \<in> K"
  shows "sm_entry lt k m = map_option (Pair k) (map_of m k)"
proof (cases "map_of m k")
  case None
  then have "k \<notin> fst ` set m" by (simp add: map_of_eq_None_iff)
  then have "sm_entry lt k m = None"
    unfolding entry_None_iff [OF ok keys k] using total [OF _ k] keys by (metis image_eqI subsetD)
  with None show ?thesis by simp
next
  case (Some v)
  then have "(k, v) \<in> set m" by (rule map_of_SomeD)
  then have "sm_entry lt k m = Some (k, v)"
    using entry_iff [OF ok keys k] irrefl [OF k] by simp
  with Some show ?thesis by simp
qed

lemma find_map_of:
  "sm_ok lt m \<Longrightarrow> fst ` set m \<subseteq> K \<Longrightarrow> k \<in> K \<Longrightarrow> sm_find lt k m = map_of m k"
  by (simp add: sm_find_def entry_map_of option.map_comp comp_def option.map_ident)

lemma before_notin: "fst ` set m \<subseteq> K \<Longrightarrow> k \<in> K \<Longrightarrow> k \<notin> fst ` set (sm_before lt k m)"
  using irrefl [of k] by (auto dest: sm_before_less)

lemma map_of_assign:
  assumes ok: "sm_ok lt m" and keys: "fst ` set m \<subseteq> K" and k: "k \<in> K"
  shows "map_of (sm_assign lt k v m) = (map_of m)(k \<mapsto> v)"
proof (cases "sm_entry lt k m")
  case None
  have "map_of m = map_of (sm_before lt k m @ sm_lower_bound lt k m)"
    using sm_split [of m lt k] by simp
  then show ?thesis
    using None before_notin [OF keys k]
    by (simp add: sm_assign_def map_add_upd_left dom_map_of_conv_image_fst)
next
  case (Some e)
  then have e: "fst e = k" using entry_map_of [OF ok keys k] by auto
  have "map_of m = map_of (sm_before lt k m @ e # tl (sm_lower_bound lt k m))"
    using sm_entry_split [OF Some] by simp
  then show ?thesis
    using Some e before_notin [OF keys k]
    by (cases e) (simp add: sm_assign_def map_add_upd_left dom_map_of_conv_image_fst)
qed

lemma map_of_erase:
  assumes ok: "sm_ok lt m" and keys: "fst ` set m \<subseteq> K" and k: "k \<in> K"
  shows "map_of (sm_erase lt k m) = (map_of m)(k := None)"
proof (cases "sm_entry lt k m")
  case None
  then have "map_of m k = None" using entry_map_of [OF ok keys k] by simp
  with None show ?thesis by (auto simp: sm_erase_def)
next
  case (Some e)
  then have e: "fst e = k" using entry_map_of [OF ok keys k] by auto
  have m: "m = sm_before lt k m @ e # tl (sm_lower_bound lt k m)"
    by (rule sm_entry_split [OF Some])
  have "distinct (map fst (sm_before lt k m @ e # tl (sm_lower_bound lt k m)))"
    using distinct_keys [OF ok keys] m by simp
  then have "k \<notin> fst ` set (tl (sm_lower_bound lt k m))" using e by auto
  then have "map_of (tl (sm_lower_bound lt k m)) k = None"
    by (simp add: map_of_eq_None_iff)
  moreover have "map_of (sm_before lt k m) k = None"
    using before_notin [OF keys k] by (simp add: map_of_eq_None_iff)
  moreover have "map_of m = map_of (sm_before lt k m @ e # tl (sm_lower_bound lt k m))"
    using m by simp
  ultimately show ?thesis
    using Some e by (cases e) (auto simp: sm_erase_def fun_eq_iff map_add_def split: option.splits)
qed

end

subsection \<open>Search trees\<close>

text \<open>
  The library keeps the entries in a balanced search tree and walks it from the root: left
  when the node is not less than the wanted key, remembering it, right otherwise. Whatever
  the shape, this is the search above as long as the keys less than the wanted one come
  first, so the list model loses nothing.
\<close>

fun tree_lower_bound ::
    "('k \<Rightarrow> 'k \<Rightarrow> bool) \<Rightarrow> 'k \<Rightarrow> ('k \<times> 'v) tree \<Rightarrow> ('k \<times> 'v) option \<Rightarrow> ('k \<times> 'v) option" where
  "tree_lower_bound lt k Leaf y = y"
| "tree_lower_bound lt k (Node l e r) y =
     (if lt (fst e) k then tree_lower_bound lt k r y else tree_lower_bound lt k l (Some e))"

definition tree_find :: "('k \<Rightarrow> 'k \<Rightarrow> bool) \<Rightarrow> 'k \<Rightarrow> ('k \<times> 'v) tree \<Rightarrow> 'v option" where
  "tree_find lt k t = (case tree_lower_bound lt k t None of
     None \<Rightarrow> None
   | Some e \<Rightarrow> if lt k (fst e) then None else Some (snd e))"

definition partitioned :: "('k \<Rightarrow> 'k \<Rightarrow> bool) \<Rightarrow> 'k \<Rightarrow> ('k, 'v) smap \<Rightarrow> bool" where
  "partitioned lt k m \<longleftrightarrow> (\<forall>e \<in> set (sm_lower_bound lt k m). \<not> lt (fst e) k)"

lemma lower_bound_append:
  "sm_lower_bound lt k (xs @ ys) =
     (if \<forall>e \<in> set xs. lt (fst e) k then sm_lower_bound lt k ys else sm_lower_bound lt k xs @ ys)"
  by (induction xs) (auto simp: sm_lower_bound_def)

lemma lower_bound_all: "\<forall>e \<in> set xs. lt (fst e) k \<Longrightarrow> sm_lower_bound lt k xs = []"
  by (simp add: sm_lower_bound_def)

lemma lower_bound_Nil_iff: "sm_lower_bound lt k xs = [] \<longleftrightarrow> (\<forall>e \<in> set xs. lt (fst e) k)"
  by (simp add: sm_lower_bound_def)

lemma lower_bound_Cons:
  "sm_lower_bound lt k (e # ys) = (if lt (fst e) k then sm_lower_bound lt k ys else e # ys)"
  by (simp add: sm_lower_bound_def)

lemma partitioned_append:
  assumes part: "partitioned lt k (xs @ e # ys)"
  shows "partitioned lt k xs"
    and "lt (fst e) k \<Longrightarrow> partitioned lt k ys \<and> (\<forall>x \<in> set xs. lt (fst x) k)"
proof -
  show "partitioned lt k xs"
  proof (cases "\<forall>x \<in> set xs. lt (fst x) k")
    case True
    then show ?thesis by (simp add: partitioned_def lower_bound_all)
  next
    case False
    then have "sm_lower_bound lt k (xs @ e # ys) = sm_lower_bound lt k xs @ e # ys"
      by (simp only: lower_bound_append if_False)
    then show ?thesis using part by (simp add: partitioned_def)
  qed
  assume e: "lt (fst e) k"
  have all: "\<forall>x \<in> set xs. lt (fst x) k"
  proof (rule ccontr)
    assume "\<not> (\<forall>x \<in> set xs. lt (fst x) k)"
    then have "sm_lower_bound lt k (xs @ e # ys) = sm_lower_bound lt k xs @ e # ys"
      by (simp only: lower_bound_append if_False)
    then show False using part e by (simp add: partitioned_def)
  qed
  then have "sm_lower_bound lt k (xs @ e # ys) = sm_lower_bound lt k ys"
    using e by (simp add: lower_bound_append lower_bound_Cons)
  with part all show "partitioned lt k ys \<and> (\<forall>x \<in> set xs. lt (fst x) k)"
    by (simp add: partitioned_def)
qed

lemma tree_lower_bound_list:
  "partitioned lt k (inorder t) \<Longrightarrow>
   tree_lower_bound lt k t y = (case sm_lower_bound lt k (inorder t) of [] \<Rightarrow> y | e # _ \<Rightarrow> Some e)"
proof (induction t arbitrary: y)
  case (Node l e r)
  have part: "partitioned lt k (inorder l @ e # inorder r)" using Node.prems by simp
  show ?case
  proof (cases "lt (fst e) k")
    case True
    note r = partitioned_append(2) [OF part True]
    then have "sm_lower_bound lt k (inorder l @ e # inorder r) = sm_lower_bound lt k (inorder r)"
      using True by (simp only: lower_bound_append lower_bound_Cons) simp
    then show ?thesis using True Node.IH(2) r by simp
  next
    case False
    note l = partitioned_append(1) [OF part]
    have "sm_lower_bound lt k (inorder l @ e # inorder r) =
        sm_lower_bound lt k (inorder l) @ e # inorder r"
      using False lower_bound_all [of "inorder l" lt k]
      by (simp only: lower_bound_append lower_bound_Cons if_False) auto
    then show ?thesis
      using False Node.IH(1) [OF l, of "Some e"]
      by (cases "sm_lower_bound lt k (inorder l)") simp_all
  qed
qed (simp add: sm_lower_bound_def)

lemma tree_find_list: "partitioned lt k (inorder t) \<Longrightarrow> tree_find lt k t = sm_find lt k (inorder t)"
  by (auto simp: tree_find_def tree_lower_bound_list sm_find_def sm_entry_def split: list.splits)

subsection \<open>Integer keys\<close>

text \<open>
  The built-in order of every integer type meets the contract on all keys. The facts below
  are what the components use; a sorted table is then a finite function.
\<close>

interpretation lin: strict_linear "(<) :: 'k::linorder \<Rightarrow> 'k \<Rightarrow> bool" UNIV
  by unfold_locales auto

abbreviation sm_sorted :: "('k::linorder, 'v) smap \<Rightarrow> bool" where
  "sm_sorted m \<equiv> sm_ok (<) m"

lemma sm_entry_lin [smap_simps]:
  "sm_sorted m \<Longrightarrow> sm_entry (<) k m = map_option (Pair k) (map_of m k)"
  by (rule lin.entry_map_of) auto

lemma sm_find_lin [smap_simps]: "sm_sorted m \<Longrightarrow> sm_find (<) k m = map_of m k"
  by (rule lin.find_map_of) auto

lemma sm_assign_lin [smap_simps]:
  "sm_sorted m \<Longrightarrow> map_of (sm_assign (<) k v m) = (map_of m)(k \<mapsto> v)"
  by (rule lin.map_of_assign) auto

lemma sm_erase_lin [smap_simps]:
  "sm_sorted m \<Longrightarrow> map_of (sm_erase (<) k m) = (map_of m)(k := None)"
  by (rule lin.map_of_erase) auto

lemma sm_insert_lin [smap_simps]:
  "sm_sorted m \<Longrightarrow> map_of (fst (sm_insert (<) k v m)) =
     (if map_of m k = None then (map_of m)(k \<mapsto> v) else map_of m)"
  by (simp add: sm_insert_fst sm_entry_lin sm_assign_lin)

lemma sm_assign_sorted [simp]: "sm_sorted m \<Longrightarrow> sm_sorted (sm_assign (<) k v m)"
  by (rule lin.assign_ok) auto

lemma sm_erase_sorted [simp]: "sm_sorted m \<Longrightarrow> sm_sorted (sm_erase (<) k m)"
  by (rule lin.erase_ok)

lemma sm_insert_sorted [simp]: "sm_sorted m \<Longrightarrow> sm_sorted (fst (sm_insert (<) k v m))"
  by (rule lin.insert_ok) auto

lemma sm_sorted_distinct: "sm_sorted m \<Longrightarrow> distinct (map fst m)"
  by (rule lin.distinct_keys) auto

lemma map_of_in_set: "sm_sorted m \<Longrightarrow> (k, v) \<in> set m \<longleftrightarrow> map_of m k = Some v"
  by (simp add: sm_sorted_distinct)

lemma sm_ball:
  "sm_sorted m \<Longrightarrow> (\<forall>x \<in> set m. P x) \<longleftrightarrow> (\<forall>k v. map_of m k = Some v \<longrightarrow> P (k, v))"
  by (auto simp: map_of_in_set [symmetric])

lemma sm_hd_least:
  "sm_sorted (e # m) \<Longrightarrow> map_of (e # m) k = Some v \<Longrightarrow> fst e \<le> k"
  by (cases e) (auto simp: sm_ok_Cons split: if_splits dest!: map_of_SomeD intro: less_imp_le)

subsection \<open>Sets\<close>

type_synonym 'k sset = "('k, unit) smap"

abbreviation ss_elems :: "'k sset \<Rightarrow> 'k set" where
  "ss_elems s \<equiv> dom (map_of s)"

lemma ss_empty_iff: "s = [] \<longleftrightarrow> ss_elems s = {}"
  by (auto simp: dom_map_of_conv_image_fst)

lemma map_of_unit_iff: "map_of (s :: 'k sset) k = Some u \<longleftrightarrow> k \<in> ss_elems s"
  by auto

end
