(* ===== verification/Timer.thy ===== *)
theory Timer
  imports Prelude
begin

section \<open>The millisecond timer (CTimerMS, lib/eventmgr/util.h)\<close>

text \<open>
  \<^verbatim>\<open>CTimerMS\<close> keeps the wall-clock time it was started at and a duration in milliseconds.
  Every operation that calls \<^verbatim>\<open>gettimeofday\<close> takes the time it reads as its first argument.
  The fields of \<^verbatim>\<open>timeval\<close> are signed longs, held as integers; the results are \<^verbatim>\<open>uint64_t\<close>,
  and C division truncates towards zero (\<open>sdiv\<close>).

  The lemmas show that the elapsed time is the true one to within a millisecond on either
  side, that \<^verbatim>\<open>LeftTime\<close> and \<^verbatim>\<open>IsTimeout\<close> agree, and what a clock set back does.
\<close>

record timeval =
  tv_sec :: int
  tv_usec :: int

record CTimerMS =
  m_start :: timeval
  m_expire :: u64

definition CTimerMS_SetTimeout :: "u32 \<Rightarrow> CTimerMS \<Rightarrow> CTimerMS" where
  "CTimerMS_SetTimeout ms t = t\<lparr>m_expire := ucast ms\<rparr>"

definition CTimerMS_Reset :: "timeval \<Rightarrow> CTimerMS \<Rightarrow> CTimerMS" where
  "CTimerMS_Reset now t = t\<lparr>m_start := now\<rparr>"

definition CTimerMS_new :: "timeval \<Rightarrow> u32 \<Rightarrow> CTimerMS" where
  "CTimerMS_new now ms = \<lparr>m_start = now, m_expire = ucast ms\<rparr>"

definition CTimerMS_copy :: "CTimerMS \<Rightarrow> CTimerMS" where
  "CTimerMS_copy obj = \<lparr>m_start = m_start obj, m_expire = m_expire obj\<rparr>"

definition CTimerMS_GetElapsedTime :: "timeval \<Rightarrow> CTimerMS \<Rightarrow> u64" where
  "CTimerMS_GetElapsedTime now t =
     word_of_int ((tv_sec now - tv_sec (m_start t)) * 1000
                  + (tv_usec now - tv_usec (m_start t)) sdiv 1000)"

definition CTimerMS_GetMs :: "CTimerMS \<Rightarrow> u64" where
  "CTimerMS_GetMs t = word_of_int (tv_sec (m_start t) * 1000 + tv_usec (m_start t) sdiv 1000)"

definition CTimerMS_GetExpireMs :: "CTimerMS \<Rightarrow> u64" where
  "CTimerMS_GetExpireMs t = CTimerMS_GetMs t + m_expire t"

definition CTimerMS_IsTimeout :: "timeval \<Rightarrow> CTimerMS \<Rightarrow> bool" where
  "CTimerMS_IsTimeout now t \<longleftrightarrow> m_expire t \<le> CTimerMS_GetElapsedTime now t"

definition CTimerMS_LeftTime :: "timeval \<Rightarrow> CTimerMS \<Rightarrow> u64" where
  "CTimerMS_LeftTime now t =
     (let elapse = CTimerMS_GetElapsedTime now t in
      if m_expire t \<le> elapse then 0 else m_expire t - elapse)"

subsection \<open>Normalised times\<close>

text \<open>
  What \<^verbatim>\<open>gettimeofday\<close> returns: microseconds below one million. The bound on the seconds
  (over a hundred million years) keeps the millisecond counts inside 64 bits.
\<close>

definition tv_normal :: "timeval \<Rightarrow> bool" where
  "tv_normal t \<longleftrightarrow> 0 \<le> tv_sec t \<and> tv_sec t < 2 ^ 52 \<and> 0 \<le> tv_usec t \<and> tv_usec t < 1000000"

definition tv_us :: "timeval \<Rightarrow> int" where
  "tv_us t = tv_sec t * 1000000 + tv_usec t"

definition tv_ms :: "timeval \<Rightarrow> int" where
  "tv_ms t = tv_us t div 1000"

lemma sdiv_1000_nonneg: "0 \<le> (a :: int) \<Longrightarrow> a sdiv 1000 = a div 1000"
  by (cases "a = 0") (simp_all add: signed_divide_int_def)

lemma sdiv_1000_neg: "(a :: int) < 0 \<Longrightarrow> a sdiv 1000 = - ((- a) div 1000)"
  by (simp add: signed_divide_int_def)

lemma sdiv_1000_bounds: "\<bar>(a :: int) sdiv 1000 * 1000 - a\<bar> < 1000"
proof (cases "0 \<le> a")
  case True
  then show ?thesis by (simp add: sdiv_1000_nonneg)
next
  case False
  then show ?thesis by (simp add: sdiv_1000_neg)
qed

lemma uint_u64_of_int: "0 \<le> i \<Longrightarrow> i < 2 ^ 64 \<Longrightarrow> uint (word_of_int i :: u64) = i"
  by (simp add: uint_word_of_int)

lemma div_1000_le: "(a :: int) div 1000 * 1000 \<le> a"
  by presburger

lemma GetMs_eq:
  assumes "tv_normal (m_start t)"
  shows "uint (CTimerMS_GetMs t) = tv_ms (m_start t)"
proof -
  let ?s = "tv_sec (m_start t)" and ?u = "tv_usec (m_start t)"
  have "?s * 1000 + ?u sdiv 1000 = tv_ms (m_start t)"
    using assms by (simp add: tv_normal_def sdiv_1000_nonneg tv_ms_def tv_us_def)
  moreover have "0 \<le> tv_us (m_start t)" and "tv_us (m_start t) < 2 ^ 64 * 1000"
    using assms by (simp_all add: tv_normal_def tv_us_def)
  then have "0 \<le> tv_ms (m_start t)" and "tv_ms (m_start t) < 2 ^ 64"
    using div_1000_le [of "tv_us (m_start t)"] by (simp_all add: tv_ms_def pos_imp_zdiv_nonneg_iff)
  ultimately show ?thesis
    unfolding CTimerMS_GetMs_def by (metis uint_u64_of_int)
qed

subsection \<open>Elapsed time\<close>

lemma elapsed_raw:
  assumes "tv_normal a" and "tv_normal b" and "tv_us a \<le> tv_us b"
  defines "d \<equiv> (tv_sec b - tv_sec a) * 1000 + (tv_usec b - tv_usec a) sdiv 1000"
  shows "0 \<le> d" and "d < 2 ^ 64" and "\<bar>d * 1000 - (tv_us b - tv_us a)\<bar> < 1000"
proof -
  let ?q = "(tv_usec b - tv_usec a) sdiv 1000"
  have q: "\<bar>?q * 1000 - (tv_usec b - tv_usec a)\<bar> < 1000"
    by (rule sdiv_1000_bounds)
  show *: "\<bar>d * 1000 - (tv_us b - tv_us a)\<bar> < 1000"
    using q by (simp add: d_def tv_us_def algebra_simps)
  show "0 \<le> d" using * assms(3) by linarith
  have "d * 1000 < 1000 + (tv_us b - tv_us a)"
    using * by linarith
  also have "\<dots> < 2 ^ 64 * 1000"
    using assms(1,2) by (simp add: tv_normal_def tv_us_def)
  finally show "d < 2 ^ 64" by simp
qed

lemma elapsed_uint:
  assumes "tv_normal (m_start t)" and "tv_normal now" and "tv_us (m_start t) \<le> tv_us now"
  shows "uint (CTimerMS_GetElapsedTime now t) =
    (tv_sec now - tv_sec (m_start t)) * 1000 + (tv_usec now - tv_usec (m_start t)) sdiv 1000"
  unfolding CTimerMS_GetElapsedTime_def
  by (rule uint_u64_of_int) (rule elapsed_raw [OF assms])+

lemma LeftTime_add:
  "\<not> CTimerMS_IsTimeout now t \<Longrightarrow>
   CTimerMS_LeftTime now t + CTimerMS_GetElapsedTime now t = m_expire t"
  by (simp add: CTimerMS_IsTimeout_def CTimerMS_LeftTime_def Let_def)

subsection \<open>Properties\<close>

text \<open>
  While the clock runs forward, the elapsed time differs from the true one by less than a
  millisecond on either side, and it does not wrap.
\<close>

theorem elapsed_accurate:
  assumes "tv_normal (m_start t)" and "tv_normal now" and "tv_us (m_start t) \<le> tv_us now"
  shows "\<bar>uint (CTimerMS_GetElapsedTime now t) * 1000 - (tv_us now - tv_us (m_start t))\<bar> < 1000"
  unfolding elapsed_uint [OF assms] by (rule elapsed_raw(3) [OF assms])

theorem elapsed_accurate_witness:
  "\<bar>uint (CTimerMS_GetElapsedTime \<lparr>tv_sec = 7, tv_usec = 1000\<rparr>
      (CTimerMS_new \<lparr>tv_sec = 5, tv_usec = 999999\<rparr> 0)) * 1000 - 1001001\<bar> < 1000"
  using elapsed_accurate [of "CTimerMS_new \<lparr>tv_sec = 5, tv_usec = 999999\<rparr> 0" "\<lparr>tv_sec = 7, tv_usec = 1000\<rparr>"]
  by (simp add: tv_normal_def tv_us_def CTimerMS_new_def)

text \<open>
  The time left is zero exactly when the timer has expired, and otherwise it and the
  elapsed time add up to the duration that was set.
\<close>

theorem left_time_complements:
  "if CTimerMS_IsTimeout now t then CTimerMS_LeftTime now t = 0
   else CTimerMS_LeftTime now t \<noteq> 0 \<and>
     uint (CTimerMS_LeftTime now t) + uint (CTimerMS_GetElapsedTime now t) = uint (m_expire t)"
proof (cases "CTimerMS_IsTimeout now t")
  case False
  then have lt: "CTimerMS_GetElapsedTime now t < m_expire t"
    by (simp add: CTimerMS_IsTimeout_def not_le)
  then have "uint (m_expire t - CTimerMS_GetElapsedTime now t) =
      uint (m_expire t) - uint (CTimerMS_GetElapsedTime now t)"
    by (intro uint_minus_simple_alt [THEN iffD1] less_imp_le)
  then show ?thesis
    using False lt by (auto simp: CTimerMS_LeftTime_def CTimerMS_IsTimeout_def Let_def)
qed (simp add: CTimerMS_IsTimeout_def CTimerMS_LeftTime_def)

text \<open>
  When the clock is set back by a millisecond or more, the elapsed time wraps and every
  timer counts as expired at once, whatever its duration.
\<close>

theorem clock_back_expires:
  assumes "tv_normal (m_start t)" and "tv_normal now"
    and "tv_us now + 1000 \<le> tv_us (m_start t)" and "m_expire t < 2 ^ 63"
  shows "CTimerMS_IsTimeout now t \<and> CTimerMS_LeftTime now t = 0"
proof -
  define d where "d = (tv_sec now - tv_sec (m_start t)) * 1000 + (tv_usec now - tv_usec (m_start t)) sdiv 1000"
  have q: "\<bar>(tv_usec now - tv_usec (m_start t)) sdiv 1000 * 1000 - (tv_usec now - tv_usec (m_start t))\<bar> < 1000"
    by (rule sdiv_1000_bounds)
  then have "d * 1000 < 0"
    using assms(3) by (simp add: d_def tv_us_def algebra_simps)
  then have neg: "d < 0" by simp
  have "- 1001000 \<le> (tv_usec now - tv_usec (m_start t)) sdiv 1000 * 1000"
    using q assms(1,2) unfolding tv_normal_def by linarith
  then have "- (2 ^ 62) * 1000 \<le> d * 1000"
    using assms(1,2) by (simp add: d_def tv_normal_def algebra_simps)
  then have low: "- (2 ^ 62) \<le> d" by simp
  have "uint (CTimerMS_GetElapsedTime now t) = d mod 2 ^ 64"
    unfolding CTimerMS_GetElapsedTime_def d_def [symmetric] by (simp add: uint_word_of_int)
  also have "\<dots> = d + 2 ^ 64"
    using neg low mod_add_self2 [of d "2 ^ 64"] mod_pos_pos_trivial [of "d + 2 ^ 64" "2 ^ 64"] by simp
  finally have "2 ^ 63 \<le> uint (CTimerMS_GetElapsedTime now t)" using low by simp
  moreover have "uint (m_expire t) < 2 ^ 63" using assms(4) by (simp add: word_less_def)
  ultimately have "CTimerMS_IsTimeout now t"
    by (simp add: CTimerMS_IsTimeout_def word_le_def)
  then show ?thesis by (simp add: CTimerMS_IsTimeout_def CTimerMS_LeftTime_def)
qed

theorem clock_back_expires_witness:
  "CTimerMS_IsTimeout \<lparr>tv_sec = 4, tv_usec = 998999\<rparr> (CTimerMS_new \<lparr>tv_sec = 5, tv_usec = 0\<rparr> 90000)"
  using clock_back_expires [of "CTimerMS_new \<lparr>tv_sec = 5, tv_usec = 0\<rparr> 90000" "\<lparr>tv_sec = 4, tv_usec = 998999\<rparr>"]
  by (simp add: tv_normal_def tv_us_def CTimerMS_new_def)

end
