(* ===== verification/ExpireMgr.thy ===== *)
theory ExpireMgr
  imports StdMap Timer
begin

section \<open>The timer table (CExpireMgr, lib/eventmgr/ExpireMgr.h)\<close>

text \<open>
  Two tables kept in step: deadline to the set of coroutine ids that wait for it, and id to
  its deadline. The state record also holds the clock, the value \<^verbatim>\<open>gettimeofday\<close> returns
  while an operation runs; it is the first of the singletons of the program, and the later
  components extend the record, so every operation here applies to their states too.

  \<open>exp_ok\<close> says the two tables mirror each other and no deadline has an empty set; \<open>timers\<close>
  is the abstract view, the deadline of each armed id. The operations implement it: the
  locale \<open>timer_service\<close> states that contract for the coroutine manager.
\<close>

record exp_state =
  clock :: timeval
  m_expire_to_id :: "(u64, u32 sset) smap"
  m_id_to_expire :: "(u32, u64) smap"

definition TIME_EXPIRE :: u64 where
  "TIME_EXPIRE = 2000 * 1000"

definition CExpireMgr_Del :: "u32 \<Rightarrow> 'z exp_state_scheme \<Rightarrow> 'z exp_state_scheme" where
  "CExpireMgr_Del cid s = (case sm_find (<) cid (m_id_to_expire s) of
     None \<Rightarrow> s
   | Some expire \<Rightarrow> (case sm_find (<) expire (m_expire_to_id s) of
       None \<Rightarrow> s
     | Some ids \<Rightarrow> (case sm_find (<) cid ids of
         None \<Rightarrow> s
       | Some _ \<Rightarrow>
           let ids' = sm_erase (<) cid ids in
           s\<lparr>m_expire_to_id :=
               (if ids' = [] then sm_erase (<) expire (m_expire_to_id s)
                else sm_assign (<) expire ids' (m_expire_to_id s)),
             m_id_to_expire := sm_erase (<) cid (m_id_to_expire s)\<rparr>)))"

definition CExpireMgr_Add :: "u32 \<Rightarrow> u64 \<Rightarrow> 'z exp_state_scheme \<Rightarrow> 'z exp_state_scheme" where
  "CExpireMgr_Add cid expire s =
     (let ids = (case sm_find (<) expire (m_expire_to_id s) of None \<Rightarrow> [] | Some ids \<Rightarrow> ids) in
      s\<lparr>m_expire_to_id := sm_assign (<) expire (fst (sm_insert (<) cid () ids)) (m_expire_to_id s),
        m_id_to_expire := sm_assign (<) cid expire (m_id_to_expire s)\<rparr>)"

definition CExpireMgr_now :: "'z exp_state_scheme \<Rightarrow> u64" where
  "CExpireMgr_now s = CTimerMS_GetMs (CTimerMS_new (clock s) 0)"

definition CExpireMgr_Set :: "u64 \<Rightarrow> u32 \<Rightarrow> 'z exp_state_scheme \<Rightarrow> 'z exp_state_scheme" where
  "CExpireMgr_Set expire cid s =
     (let s' = CExpireMgr_Del cid s in CExpireMgr_Add cid (CExpireMgr_now s' + expire) s')"

text \<open>The two reference parameters \<^verbatim>\<open>ms\<close> and \<^verbatim>\<open>id\<close> are the returned pair.\<close>

definition CExpireMgr_NextWaitTime :: "'z exp_state_scheme \<Rightarrow> u64 \<times> u32" where
  "CExpireMgr_NextWaitTime s =
     (let now = CExpireMgr_now s in
      case m_expire_to_id s of
        [] \<Rightarrow> (TIME_EXPIRE, 0)
      | (expire, ids) # _ \<Rightarrow>
          if now < expire then (expire - now, 0)
          else (case ids of [] \<Rightarrow> (0, 0) | (cid, _) # _ \<Rightarrow> (0, cid)))"

subsection \<open>The invariant\<close>

definition exp_ok :: "'z exp_state_scheme \<Rightarrow> bool" where
  "exp_ok s \<longleftrightarrow>
     sm_sorted (m_expire_to_id s) \<and> sm_sorted (m_id_to_expire s) \<and>
     (\<forall>(expire, ids) \<in> set (m_expire_to_id s). sm_sorted ids \<and> ids \<noteq> [] \<and>
        (\<forall>(cid, _) \<in> set ids. map_of (m_id_to_expire s) cid = Some expire)) \<and>
     (\<forall>(cid, expire) \<in> set (m_id_to_expire s).
        case map_of (m_expire_to_id s) expire of None \<Rightarrow> False | Some ids \<Rightarrow> cid \<in> fst ` set ids)"

abbreviation timers :: "'z exp_state_scheme \<Rightarrow> u32 \<rightharpoonup> u64" where
  "timers s \<equiv> map_of (m_id_to_expire s)"

abbreviation waiting_at :: "'z exp_state_scheme \<Rightarrow> u64 \<rightharpoonup> u32 sset" where
  "waiting_at s \<equiv> map_of (m_expire_to_id s)"

text \<open>Grouping the armed ids by deadline: what the first table must hold.\<close>

definition group :: "(u32 \<rightharpoonup> u64) \<Rightarrow> u64 \<Rightarrow> u32 set option" where
  "group T e = (if {i. T i = Some e} = {} then None else Some {i. T i = Some e})"

lemma exp_ok_group:
  "exp_ok s \<longleftrightarrow> sm_sorted (m_expire_to_id s) \<and> sm_sorted (m_id_to_expire s) \<and>
     (\<forall>e ids. waiting_at s e = Some ids \<longrightarrow> sm_sorted ids) \<and>
     (\<forall>e. map_option ss_elems (waiting_at s e) = group (timers s) e)"
  (is "exp_ok s \<longleftrightarrow> ?R")
proof (cases "sm_sorted (m_expire_to_id s) \<and> sm_sorted (m_id_to_expire s)")
  case True
  have 1: "(\<forall>(i, _) \<in> set ids. P i) \<longleftrightarrow> (\<forall>i \<in> ss_elems ids. P i)" for ids :: "u32 sset" and P
    by (force simp: dom_map_of_conv_image_fst)
  have 2: "(case w of None \<Rightarrow> False | Some ids \<Rightarrow> i \<in> fst ` set ids) \<longleftrightarrow>
      (\<exists>ids. w = Some ids \<and> i \<in> ss_elems ids)" for w :: "u32 sset option" and i
    by (cases w) (auto simp: dom_map_of_conv_image_fst)
  have "exp_ok s \<longleftrightarrow>
     (\<forall>e ids. waiting_at s e = Some ids \<longrightarrow> sm_sorted ids \<and> ss_elems ids \<noteq> {} \<and>
        (\<forall>i \<in> ss_elems ids. timers s i = Some e)) \<and>
     (\<forall>i e. timers s i = Some e \<longrightarrow> (\<exists>ids. waiting_at s e = Some ids \<and> i \<in> ss_elems ids))"
    using True unfolding exp_ok_def 1 2 ss_empty_iff
    by (simp add: sm_ball 2 del: dom_eq_empty_conv)
  also have "\<dots> \<longleftrightarrow> (\<forall>e ids. waiting_at s e = Some ids \<longrightarrow> sm_sorted ids) \<and>
      (\<forall>e. (\<forall>ids. waiting_at s e = Some ids \<longrightarrow> ss_elems ids \<noteq> {} \<and>
              (\<forall>i \<in> ss_elems ids. timers s i = Some e)) \<and>
           (\<forall>i. timers s i = Some e \<longrightarrow> (\<exists>ids. waiting_at s e = Some ids \<and> i \<in> ss_elems ids)))"
    by blast
  also have "\<dots> \<longleftrightarrow> ?R"
  proof -
    have "(\<forall>ids. w = Some ids \<longrightarrow> ss_elems ids \<noteq> {} \<and> (\<forall>i \<in> ss_elems ids. timers s i = Some e)) \<and>
        (\<forall>i. timers s i = Some e \<longrightarrow> (\<exists>ids. w = Some ids \<and> i \<in> ss_elems ids)) \<longleftrightarrow>
        map_option ss_elems w = group (timers s) e" for w :: "u32 sset option" and e
      by (cases w) (auto simp: group_def simp del: dom_eq_empty_conv)
    with True show ?thesis by simp
  qed
  finally show ?thesis .
qed (auto simp: exp_ok_def)

lemma exp_okD:
  assumes "exp_ok s"
  shows "sm_sorted (m_expire_to_id s)" and "sm_sorted (m_id_to_expire s)"
    and "waiting_at s e = Some ids \<Longrightarrow> sm_sorted ids"
    and "waiting_at s e = Some ids \<Longrightarrow> ss_elems ids = {i. timers s i = Some e}"
    and "waiting_at s e = Some ids \<Longrightarrow> \<exists>i. timers s i = Some e"
    and "timers s i = Some e \<Longrightarrow> \<exists>ids. waiting_at s e = Some ids"
proof -
  have g: "map_option ss_elems (waiting_at s e) = group (timers s) e" for e
    using assms unfolding exp_ok_group by blast
  show "sm_sorted (m_expire_to_id s)" "sm_sorted (m_id_to_expire s)"
    "waiting_at s e = Some ids \<Longrightarrow> sm_sorted ids"
    using assms unfolding exp_ok_group by blast+
  show "waiting_at s e = Some ids \<Longrightarrow> ss_elems ids = {i. timers s i = Some e}"
    and "waiting_at s e = Some ids \<Longrightarrow> \<exists>i. timers s i = Some e"
    and "timers s i = Some e \<Longrightarrow> \<exists>ids. waiting_at s e = Some ids"
    using g [of e] by (auto simp: group_def split: if_splits)
qed

lemma exp_ok_empty: "m_expire_to_id s = [] \<Longrightarrow> m_id_to_expire s = [] \<Longrightarrow> exp_ok s"
  by (simp add: exp_ok_def)

subsection \<open>Removal\<close>

lemma Del_absent: "exp_ok s \<Longrightarrow> timers s cid = None \<Longrightarrow> CExpireMgr_Del cid s = s"
  by (simp add: CExpireMgr_Del_def sm_find_lin exp_okD)

lemma Del_present:
  assumes ok: "exp_ok s" and t: "timers s cid = Some e" and w: "waiting_at s e = Some ids"
  shows "CExpireMgr_Del cid s =
    (let ids' = sm_erase (<) cid ids in
     s\<lparr>m_expire_to_id := (if ids' = [] then sm_erase (<) e (m_expire_to_id s)
                          else sm_assign (<) e ids' (m_expire_to_id s)),
       m_id_to_expire := sm_erase (<) cid (m_id_to_expire s)\<rparr>)"
proof -
  have "cid \<in> ss_elems ids"
    using exp_okD(4) [OF ok w] t by simp
  then have "map_of ids cid = Some ()" by auto
  then show ?thesis
    using t w by (auto simp: CExpireMgr_Del_def sm_find_lin exp_okD [OF ok])
qed

lemma erase_elems: "sm_sorted (ids :: u32 sset) \<Longrightarrow> ss_elems (sm_erase (<) i ids) = ss_elems ids - {i}"
  by (auto simp: sm_erase_lin)

lemma Del_timers:
  assumes ok: "exp_ok s"
  shows "timers (CExpireMgr_Del cid s) = (timers s)(cid := None)"
proof (cases "timers s cid")
  case None
  then show ?thesis by (auto simp: Del_absent [OF ok])
next
  case (Some e)
  then obtain ids where "waiting_at s e = Some ids" using exp_okD(6) [OF ok] by blast
  then show ?thesis
    by (simp add: Del_present [OF ok Some] Let_def sm_erase_lin exp_okD [OF ok])
qed

lemma Del_waiting_at:
  assumes ok: "exp_ok s" and t: "timers s cid = Some e" and w: "waiting_at s e = Some ids"
  shows "waiting_at (CExpireMgr_Del cid s) =
    (waiting_at s)(e := (if ss_elems ids = {cid} then None else Some (sm_erase (<) cid ids)))"
proof -
  have s: "sm_sorted ids" using exp_okD(3) [OF ok w] .
  have "cid \<in> ss_elems ids" using exp_okD(4) [OF ok w] t by simp
  then have "sm_erase (<) cid ids = [] \<longleftrightarrow> ss_elems ids = {cid}"
    unfolding ss_empty_iff erase_elems [OF s] by auto
  then show ?thesis
    by (simp add: Del_present [OF ok t w] Let_def sm_erase_lin sm_assign_lin exp_okD [OF ok])
qed

lemma Del_ok:
  assumes ok: "exp_ok s"
  shows "exp_ok (CExpireMgr_Del cid s)"
proof (cases "timers s cid")
  case None
  then show ?thesis by (simp add: Del_absent [OF ok] ok)
next
  case (Some e)
  then obtain ids where w: "waiting_at s e = Some ids" using exp_okD(6) [OF ok] by blast
  note s = exp_okD(3) [OF ok w] and el = exp_okD(4) [OF ok w]
  have "sm_sorted (m_expire_to_id (CExpireMgr_Del cid s))"
    and "sm_sorted (m_id_to_expire (CExpireMgr_Del cid s))"
    by (simp_all add: Del_present [OF ok Some w] Let_def exp_okD [OF ok])
  moreover have "map_option ss_elems (waiting_at (CExpireMgr_Del cid s) e') =
      group ((timers s)(cid := None)) e'" for e'
  proof (cases "e' = e")
    case True
    have "{i. ((timers s)(cid := None)) i = Some e} = ss_elems ids - {cid}"
      by (auto simp: el simp del: dom_map_of_conv_image_fst)
    moreover have "cid \<in> ss_elems ids" using el Some by simp
    ultimately show ?thesis
      by (auto simp: True group_def Del_waiting_at [OF ok Some w] erase_elems [OF s]
          simp del: dom_map_of_conv_image_fst)
  next
    case False
    then have "{i. ((timers s)(cid := None)) i = Some e'} = {i. timers s i = Some e'}"
      using Some by auto
    then show ?thesis
      using ok False unfolding exp_ok_group by (simp add: Del_waiting_at [OF ok Some w] group_def)
  qed
  ultimately show ?thesis
    unfolding exp_ok_group Del_timers [OF ok]
    using exp_okD(3) [OF ok] s by (auto simp: Del_waiting_at [OF ok Some w] split: if_splits)
qed

subsection \<open>Insertion\<close>

lemma insert_elems:
  "sm_sorted (ids :: u32 sset) \<Longrightarrow> ss_elems (fst (sm_insert (<) i () ids)) = insert i (ss_elems ids)"
  by (auto simp: sm_insert_lin)

lemma Add_timers: "exp_ok s \<Longrightarrow> timers (CExpireMgr_Add cid e s) = (timers s)(cid \<mapsto> e)"
  by (simp add: CExpireMgr_Add_def Let_def sm_assign_lin exp_okD)

lemma Add_waiting_at:
  assumes ok: "exp_ok s"
  shows "\<exists>ids. waiting_at (CExpireMgr_Add cid e s) = (waiting_at s)(e \<mapsto> ids) \<and> sm_sorted ids \<and>
    ss_elems ids = insert cid {i. timers s i = Some e}"
proof (cases "waiting_at s e")
  case None
  moreover have "{i. timers s i = Some e} = {}"
    using exp_okD(6) [OF ok] None by fastforce
  moreover have "waiting_at (CExpireMgr_Add cid e s) =
      (waiting_at s)(e \<mapsto> fst (sm_insert (<) cid () []))"
    using None by (simp add: CExpireMgr_Add_def Let_def sm_find_lin sm_assign_lin exp_okD [OF ok])
  ultimately show ?thesis
    using insert_elems [of "[]" cid] by force
next
  case (Some ids)
  have "waiting_at (CExpireMgr_Add cid e s) = (waiting_at s)(e \<mapsto> fst (sm_insert (<) cid () ids))"
    using Some by (simp add: CExpireMgr_Add_def Let_def sm_find_lin sm_assign_lin exp_okD [OF ok])
  moreover have "ss_elems (fst (sm_insert (<) cid () ids)) = insert cid {i. timers s i = Some e}"
    using exp_okD(3,4) [OF ok Some] insert_elems by metis
  ultimately show ?thesis
    using exp_okD(3) [OF ok Some] by (blast intro: sm_insert_sorted)
qed

lemma Add_ok:
  assumes ok: "exp_ok s" and fresh: "timers s cid = None"
  shows "exp_ok (CExpireMgr_Add cid e s)"
proof -
  obtain ids where w: "waiting_at (CExpireMgr_Add cid e s) = (waiting_at s)(e \<mapsto> ids)"
    and s: "sm_sorted ids" and el: "ss_elems ids = insert cid {i. timers s i = Some e}"
    using Add_waiting_at [OF ok] by blast
  have "sm_sorted (m_expire_to_id (CExpireMgr_Add cid e s))"
    and "sm_sorted (m_id_to_expire (CExpireMgr_Add cid e s))"
    by (simp_all add: CExpireMgr_Add_def Let_def exp_okD [OF ok])
  moreover have "map_option ss_elems (waiting_at (CExpireMgr_Add cid e s) e') =
      group ((timers s)(cid \<mapsto> e)) e'" for e'
  proof (cases "e' = e")
    case True
    have "{i. ((timers s)(cid \<mapsto> e)) i = Some e} = insert cid {i. timers s i = Some e}"
      by auto
    then show ?thesis
      by (simp add: True group_def w el del: dom_map_of_conv_image_fst fun_upd_apply)
        (simp add: fun_upd_same el del: dom_map_of_conv_image_fst)
  next
    case False
    then have "{i. ((timers s)(cid \<mapsto> e)) i = Some e'} = {i. timers s i = Some e'}"
      using fresh by auto
    then show ?thesis
      using ok False unfolding exp_ok_group by (simp add: w group_def)
  qed
  ultimately show ?thesis
    unfolding exp_ok_group Add_timers [OF ok]
    using exp_okD(3) [OF ok] s by (auto simp: w split: if_splits)
qed

subsection \<open>Frame\<close>

lemma Del_clock [simp, frame_simps]: "clock (CExpireMgr_Del cid s) = clock s"
  by (simp add: CExpireMgr_Del_def Let_def split: option.splits)

lemma Add_clock [simp, frame_simps]: "clock (CExpireMgr_Add cid e s) = clock s"
  by (simp add: CExpireMgr_Add_def Let_def)

lemma Set_clock [simp, frame_simps]: "clock (CExpireMgr_Set ms cid s) = clock s"
  by (simp add: CExpireMgr_Set_def Let_def)

lemma Del_more: "exp_state.more (CExpireMgr_Del cid s) = exp_state.more s"
  by (simp add: CExpireMgr_Del_def Let_def split: option.splits)

lemma Set_more: "exp_state.more (CExpireMgr_Set ms cid s) = exp_state.more s"
  by (simp add: CExpireMgr_Set_def CExpireMgr_Add_def Let_def Del_more)

lemma now_frame [simp]:
  "CExpireMgr_now (CExpireMgr_Del cid s) = CExpireMgr_now s"
  "CExpireMgr_now (CExpireMgr_Set ms cid s) = CExpireMgr_now s"
  by (simp_all add: CExpireMgr_now_def)

lemma Set_ok: "exp_ok s \<Longrightarrow> exp_ok (CExpireMgr_Set ms cid s)"
  by (simp add: CExpireMgr_Set_def Let_def Add_ok Del_ok Del_timers)

lemma Set_timers:
  "exp_ok s \<Longrightarrow> timers (CExpireMgr_Set ms cid s) = (timers s)(cid \<mapsto> CExpireMgr_now s + ms)"
  by (simp add: CExpireMgr_Set_def Let_def Add_timers Del_ok Del_timers)

subsection \<open>The next deadline\<close>

lemma next_empty: "exp_ok s \<Longrightarrow> timers s = Map.empty \<Longrightarrow> m_expire_to_id s = []"
  using exp_okD(5) [of s "fst (hd (m_expire_to_id s))"]
  by (cases "m_expire_to_id s") auto

lemma next_head:
  assumes ok: "exp_ok s" and hd: "m_expire_to_id s = (e, ids) # rest"
  shows "waiting_at s e = Some ids" and "\<exists>i is. ids = (i, ()) # is"
    and "timers s j = Some e' \<Longrightarrow> e \<le> e'"
proof -
  show w: "waiting_at s e = Some ids" by (simp add: hd)
  show "\<exists>i is. ids = (i, ()) # is"
    using exp_okD(4,5) [OF ok w] by (cases ids) auto
  show "timers s j = Some e' \<Longrightarrow> e \<le> e'"
    using exp_okD(1,6) [OF ok] hd sm_hd_least [of "(e, ids)" rest] by fastforce
qed

lemma next_least_id:
  assumes ok: "exp_ok s" and hd: "m_expire_to_id s = (e, (i, ()) # is) # rest"
  shows "timers s i = Some e" and "timers s j = Some e \<Longrightarrow> i \<le> j"
proof -
  note w = next_head(1) [OF ok hd] and el = exp_okD(4) [OF ok next_head(1) [OF ok hd]]
  show "timers s i = Some e" using el by auto
  assume "timers s j = Some e"
  then have "map_of ((i, ()) # is) j = Some ()" using el by auto
  then show "i \<le> j"
    using exp_okD(3) [OF ok w] sm_hd_least [of "(i, ())" "is" j] by auto
qed

lemma next_wait:
  assumes ok: "exp_ok s" and t: "timers s j = Some e" and none: "\<forall>i e. timers s i = Some e \<longrightarrow> CExpireMgr_now s < e"
  shows "\<exists>i e. CExpireMgr_NextWaitTime s = (e - CExpireMgr_now s, 0) \<and> timers s i = Some e \<and>
    (\<forall>j e'. timers s j = Some e' \<longrightarrow> e \<le> e')"
proof -
  obtain e1 ids rest where hd: "m_expire_to_id s = (e1, ids) # rest"
    using exp_okD(6) [OF ok t] by (cases "m_expire_to_id s") auto
  obtain i "is" where "ids = (i, ()) # is" using next_head(2) [OF ok hd] by blast
  then have i: "timers s i = Some e1" using next_least_id(1) [OF ok] hd by simp
  then have "CExpireMgr_NextWaitTime s = (e1 - CExpireMgr_now s, 0)"
    using none hd by (simp add: CExpireMgr_NextWaitTime_def Let_def)
  then show ?thesis using i next_head(3) [OF ok hd] by blast
qed

lemma next_due:
  assumes ok: "exp_ok s" and due: "timers s j = Some e" "e \<le> CExpireMgr_now s"
  shows "\<exists>i e. CExpireMgr_NextWaitTime s = (0, i) \<and> timers s i = Some e \<and> e \<le> CExpireMgr_now s \<and>
    (\<forall>j e'. timers s j = Some e' \<longrightarrow> e < e' \<or> e = e' \<and> i \<le> j)"
proof -
  obtain e1 ids rest where hd: "m_expire_to_id s = (e1, ids) # rest"
    using exp_okD(6) [OF ok due(1)] by (cases "m_expire_to_id s") auto
  obtain i "is" where ids: "ids = (i, ()) # is" using next_head(2) [OF ok hd] by blast
  note hd' = hd [unfolded ids]
  have le: "e1 \<le> CExpireMgr_now s" using next_head(3) [OF ok hd due(1)] due(2) by simp
  then have "\<not> CExpireMgr_now s < e1" by simp
  then have "CExpireMgr_NextWaitTime s = (0, i)"
    using hd' by (simp add: CExpireMgr_NextWaitTime_def Let_def)
  then show ?thesis
    using next_least_id [OF ok hd'] next_head(3) [OF ok hd] le by fastforce
qed

subsection \<open>The contract of a timer service\<close>

text \<open>
  What the scheduler and the event loop use: arming and disarming by id, and the question for
  the next deadline, over an abstract state with a deadline for each armed id.
\<close>

locale timer_service =
  fixes arm :: "u64 \<Rightarrow> u32 \<Rightarrow> 's \<Rightarrow> 's"
    and disarm :: "u32 \<Rightarrow> 's \<Rightarrow> 's"
    and deadline :: "'s \<Rightarrow> u32 \<rightharpoonup> u64"
    and now :: "'s \<Rightarrow> u64"
    and nxt :: "'s \<Rightarrow> u64 \<times> u32"
    and ok :: "'s \<Rightarrow> bool"
  assumes arm: "ok s \<Longrightarrow> ok (arm ms c s) \<and> deadline (arm ms c s) = (deadline s)(c \<mapsto> now s + ms) \<and>
      now (arm ms c s) = now s"
    and disarm: "ok s \<Longrightarrow> ok (disarm c s) \<and> deadline (disarm c s) = (deadline s)(c := None) \<and>
      now (disarm c s) = now s"
    and finite_deadlines: "ok s \<Longrightarrow> finite (dom (deadline s))"
    and nxt_due: "ok s \<Longrightarrow> deadline s j = Some e \<Longrightarrow> e \<le> now s \<Longrightarrow>
      \<exists>i e. nxt s = (0, i) \<and> deadline s i = Some e \<and> e \<le> now s \<and>
        (\<forall>j e'. deadline s j = Some e' \<longrightarrow> e < e' \<or> e = e' \<and> i \<le> j)"
    and nxt_none: "ok s \<Longrightarrow> (\<forall>i e. deadline s i = Some e \<longrightarrow> now s < e) \<Longrightarrow> snd (nxt s) = 0"
begin

definition due :: "'s \<Rightarrow> u32 set" where
  "due s = {i. \<exists>e. deadline s i = Some e \<and> e \<le> now s}"

lemma finite_due: "ok s \<Longrightarrow> finite (due s)"
  by (rule finite_subset [OF _ finite_deadlines]) (auto simp: due_def)

lemma due_disarm: "ok s \<Longrightarrow> due (disarm c s) = due s - {c}"
  using disarm [of s c] by (auto simp: due_def)

lemma nothing_due: "ok s \<Longrightarrow> due s = {} \<Longrightarrow> snd (nxt s) = 0"
  by (rule nxt_none) (auto simp: due_def not_le)

lemma first_due:
  assumes "ok s" and "due s \<noteq> {}"
  shows "\<exists>i. nxt s = (0, i) \<and> i \<in> due s \<and>
    (\<forall>j \<in> due s. j = i \<or> the (deadline s i) < the (deadline s j) \<or> the (deadline s i) = the (deadline s j) \<and> i < j)"
proof -
  obtain j e where "deadline s j = Some e" "e \<le> now s" using assms(2) by (auto simp: due_def)
  then obtain i e1 where i: "nxt s = (0, i)" "deadline s i = Some e1" "e1 \<le> now s"
      "\<And>j e'. deadline s j = Some e' \<Longrightarrow> e1 < e' \<or> e1 = e' \<and> i \<le> j"
    using nxt_due [OF assms(1)] by blast
  have "j = i \<or> e1 < the (deadline s j) \<or> e1 = the (deadline s j) \<and> i < j" if "j \<in> due s" for j
    using that i(4) [of j] by (auto simp: due_def)
  then show ?thesis using i(1-3) by (auto simp: due_def)
qed

end

text \<open>
  Asking for the next deadline and disarming what it names, as long as it names an id: what the
  event loop does turn after turn while timers are due.
\<close>

primrec serve :: "('s \<Rightarrow> u64 \<times> u32) \<Rightarrow> (u32 \<Rightarrow> 's \<Rightarrow> 's) \<Rightarrow> nat \<Rightarrow> 's \<Rightarrow> u32 list \<times> 's" where
  "serve nxt disarm 0 s = ([], s)"
| "serve nxt disarm (Suc n) s =
     (let c = snd (nxt s) in
      if c = 0 then ([], s)
      else let (cs, s') = serve nxt disarm n (disarm c s) in (c # cs, s'))"

definition before :: "(u32 \<rightharpoonup> u64) \<Rightarrow> u32 \<Rightarrow> u32 \<Rightarrow> bool" where
  "before T i j \<longleftrightarrow> the (T i) < the (T j) \<or> the (T i) = the (T j) \<and> i < j"

context timer_service
begin

lemma serve_all:
  assumes "ok s" and "deadline s 0 = None" and "card (due s) \<le> n"
  shows "\<exists>cs s'. serve nxt disarm n s = (cs, s') \<and> set cs = due s \<and> sorted_wrt (before (deadline s)) cs \<and>
    ok s' \<and> deadline s' = deadline s |` (- due s) \<and> due s' = {}"
  using assms
proof (induction n arbitrary: s)
  case 0
  then have "due s = {}" using finite_due by simp
  then show ?case using 0 by simp
next
  case (Suc n)
  show ?case
  proof (cases "due s = {}")
    case True
    then show ?thesis using Suc.prems nothing_due by (simp add: Let_def)
  next
    case False
    then obtain i where i: "nxt s = (0, i)" "i \<in> due s"
        "\<And>j. j \<in> due s \<Longrightarrow> j \<noteq> i \<Longrightarrow> before (deadline s) i j"
      using first_due [OF Suc.prems(1)] unfolding before_def by blast
    have i0: "i \<noteq> 0" using i(2) Suc.prems(2) by (auto simp: due_def)
    let ?t = "disarm i s"
    note t = disarm [OF Suc.prems(1), of i] and dt = due_disarm [OF Suc.prems(1), of i]
    have "card (due ?t) \<le> n"
      using Suc.prems(3) i(2) finite_due [OF Suc.prems(1)] by (simp add: dt)
    moreover have "ok ?t" "deadline ?t 0 = None"
      using t Suc.prems(2) by simp_all
    ultimately obtain cs s' where r: "serve nxt disarm n ?t = (cs, s')" "set cs = due ?t"
        "sorted_wrt (before (deadline ?t)) cs" "ok s'" "deadline s' = deadline ?t |` (- due ?t)" "due s' = {}"
      using Suc.IH [of ?t] by blast
    have "sorted_wrt (before (deadline s)) cs"
      by (rule sorted_wrt_mono_rel [OF _ r(3)]) (use r(2) dt t in \<open>auto simp: before_def\<close>)
    moreover have "deadline s' = deadline s |` (- due s)"
      using r(5) t dt i(2) by (auto simp: restrict_map_def fun_eq_iff)
    ultimately show ?thesis
      using r i i0 dt by (auto simp: Let_def)
  qed
qed

end

lemma next_idle:
  assumes "exp_ok s" and "\<forall>i e. timers s i = Some e \<longrightarrow> CExpireMgr_now s < e"
  shows "snd (CExpireMgr_NextWaitTime s) = 0"
proof (cases "timers s = Map.empty")
  case True
  then show ?thesis using next_empty [OF assms(1)] by (simp add: CExpireMgr_NextWaitTime_def Let_def)
next
  case False
  then obtain j e where "timers s j = Some e" by (auto simp: fun_eq_iff)
  then show ?thesis using next_wait [OF assms(1) _ assms(2)] by fastforce
qed

interpretation expire: timer_service CExpireMgr_Set CExpireMgr_Del timers CExpireMgr_now
    CExpireMgr_NextWaitTime exp_ok
proof
  fix s :: "'a exp_state_scheme" and j e
  assume "exp_ok s" "timers s j = Some e" "e \<le> CExpireMgr_now s"
  then show "\<exists>i e. CExpireMgr_NextWaitTime s = (0, i) \<and> timers s i = Some e \<and> e \<le> CExpireMgr_now s \<and>
      (\<forall>j e'. timers s j = Some e' \<longrightarrow> e < e' \<or> e = e' \<and> i \<le> j)"
    by (rule next_due)
qed (simp_all add: Set_ok Set_timers Del_ok Del_timers finite_dom_map_of next_idle)

subsection \<open>Properties\<close>

definition example_timers :: exp_state where
  "example_timers = CExpireMgr_Set 30 2 (CExpireMgr_Set 20 9 (CExpireMgr_Set 20 4
     \<lparr>clock = \<lparr>tv_sec = 1, tv_usec = 0\<rparr>, m_expire_to_id = [], m_id_to_expire = []\<rparr>))"

lemma example_timers_ok: "exp_ok example_timers"
  by (simp add: example_timers_def Set_ok exp_ok_empty)

lemma example_timers_view: "timers example_timers = [4 \<mapsto> 1020, 9 \<mapsto> 1020, 2 \<mapsto> 1030]"
  by (simp add: example_timers_def Set_timers Set_ok exp_ok_empty CExpireMgr_now_def CTimerMS_new_def
      CTimerMS_GetMs_def sdiv_1000_nonneg)

text \<open>
  C31: Arming a timer keeps the two tables in step: the id gets the deadline now plus the wait,
  replacing an earlier one, every other id keeps its own, and the ids listed under each
  deadline are exactly those that have it.
\<close>

theorem expire_set_refines:
  assumes "exp_ok s"
  shows "exp_ok (CExpireMgr_Set ms c s) \<and>
    timers (CExpireMgr_Set ms c s) = (timers s)(c \<mapsto> CExpireMgr_now s + ms) \<and>
    (\<forall>e. map_option ss_elems (waiting_at (CExpireMgr_Set ms c s) e) =
         group ((timers s)(c \<mapsto> CExpireMgr_now s + ms)) e)"
  using Set_ok [OF assms, of ms c] Set_timers [OF assms, of ms c]
  unfolding exp_ok_group by metis

theorem expire_set_refines_witness:
  "timers (CExpireMgr_Set 5 9 example_timers) = [4 \<mapsto> 1020, 9 \<mapsto> 1005, 2 \<mapsto> 1030]"
proof -
  have "CExpireMgr_now example_timers = 1000"
    by (simp add: example_timers_def CExpireMgr_now_def CTimerMS_new_def CTimerMS_GetMs_def sdiv_1000_nonneg)
  then show ?thesis
    using expire_set_refines [OF example_timers_ok, of 5 9]
    by (auto simp: example_timers_view fun_eq_iff)
qed

text \<open>
  Disarming takes the id out of both tables, drops its deadline when it was the last to
  have it, and does nothing to an id with no timer.
\<close>

theorem expire_del_refines:
  assumes "exp_ok s"
  shows "exp_ok (CExpireMgr_Del c s) \<and> timers (CExpireMgr_Del c s) = (timers s)(c := None) \<and>
    (\<forall>e. map_option ss_elems (waiting_at (CExpireMgr_Del c s) e) = group ((timers s)(c := None)) e)"
  using Del_ok [OF assms, of c] Del_timers [OF assms, of c]
  unfolding exp_ok_group by metis

theorem expire_del_refines_witness:
  "timers (CExpireMgr_Del 2 example_timers) = [4 \<mapsto> 1020, 9 \<mapsto> 1020]"
  using expire_del_refines [OF example_timers_ok, of 2]
  by (auto simp: example_timers_view fun_eq_iff)

text \<open>
  The question for the next deadline: with no timer it is a fixed long wait, with none due
  it is the time to the earliest, and with one due it names the id with the earliest deadline,
  the least such id among equals.
\<close>

theorem expire_next_exact:
  assumes "exp_ok s"
  shows "if timers s = Map.empty then CExpireMgr_NextWaitTime s = (TIME_EXPIRE, 0)
    else if \<exists>i e. timers s i = Some e \<and> e \<le> CExpireMgr_now s
    then \<exists>i e. CExpireMgr_NextWaitTime s = (0, i) \<and> timers s i = Some e \<and> e \<le> CExpireMgr_now s \<and>
      (\<forall>j e'. timers s j = Some e' \<longrightarrow> e < e' \<or> e = e' \<and> i \<le> j)
    else \<exists>i e. CExpireMgr_NextWaitTime s = (e - CExpireMgr_now s, 0) \<and> timers s i = Some e \<and>
      (\<forall>j e'. timers s j = Some e' \<longrightarrow> e \<le> e')"
proof (cases "timers s = Map.empty")
  case True
  then show ?thesis
    using next_empty [OF assms] by (simp add: CExpireMgr_NextWaitTime_def Let_def)
next
  case False
  then obtain j e where j: "timers s j = Some e" by (auto simp: fun_eq_iff)
  show ?thesis
  proof (cases "\<exists>i e. timers s i = Some e \<and> e \<le> CExpireMgr_now s")
    case True
    then show ?thesis using False next_due [OF assms] by auto
  next
    case none: False
    then have "\<forall>i e. timers s i = Some e \<longrightarrow> CExpireMgr_now s < e" by (meson not_le)
    then show ?thesis using False none next_wait [OF assms j] by auto
  qed
qed

theorem expire_next_exact_witness:
  "CExpireMgr_NextWaitTime example_timers = (20, 0) \<and>
   (\<exists>i. CExpireMgr_NextWaitTime (example_timers\<lparr>clock := \<lparr>tv_sec = 2, tv_usec = 0\<rparr>\<rparr>) = (0, i))"
proof -
  let ?s = "example_timers\<lparr>clock := \<lparr>tv_sec = 2, tv_usec = 0\<rparr>\<rparr>"
  have n: "CExpireMgr_now ?s = 2000" "CExpireMgr_now example_timers = 1000"
    by (simp_all add: example_timers_def CExpireMgr_now_def CTimerMS_new_def CTimerMS_GetMs_def sdiv_1000_nonneg)
  have "exp_ok ?s" using example_timers_ok by (simp add: exp_ok_def)
  note due = expire_next_exact [OF this]
  have "timers ?s 2 = Some 1030" by (simp add: example_timers_view)
  then have ex: "\<exists>i e. timers ?s i = Some e \<and> e \<le> CExpireMgr_now ?s"
    using n(1) by (intro exI [of _ 2] exI [of _ 1030]) simp
  then have ne: "timers ?s \<noteq> Map.empty" by (metis option.distinct(1))
  have "\<exists>i. CExpireMgr_NextWaitTime ?s = (0, i)"
    using due unfolding if_not_P [OF ne] if_P [OF ex] by blast
  moreover have none: "\<not> (\<exists>i e. timers example_timers i = Some e \<and> e \<le> CExpireMgr_now example_timers)"
    by (auto simp: example_timers_view n split: if_splits)
  have "timers example_timers 4 = Some 1020" by (simp add: example_timers_view)
  then obtain i e where "CExpireMgr_NextWaitTime example_timers = (e - 1000, 0)"
      "timers example_timers i = Some e" "e \<le> 1020"
    using expire_next_exact [OF example_timers_ok] none n(2) by (auto split: if_splits)
  moreover from this have "e = 1020" by (auto simp: example_timers_view split: if_splits)
  ultimately show ?thesis by simp
qed

text \<open>
  C25: Served one after the other, the timers that are due come out once each, in the order of
  their deadlines and by id among equals, and the others stay as they were. Id 0, the main
  coroutine's, must have no timer: the service cannot name it.
\<close>

theorem expire_served_in_order:
  assumes "exp_ok s" and "timers s 0 = None"
    and "card {i. \<exists>e. timers s i = Some e \<and> e \<le> CExpireMgr_now s} \<le> n"
  shows "\<exists>cs s'. serve CExpireMgr_NextWaitTime CExpireMgr_Del n s = (cs, s') \<and>
    set cs = {i. \<exists>e. timers s i = Some e \<and> e \<le> CExpireMgr_now s} \<and>
    sorted_wrt (before (timers s)) cs \<and> exp_ok s' \<and>
    timers s' = timers s |` (- {i. \<exists>e. timers s i = Some e \<and> e \<le> CExpireMgr_now s})"
  using expire.serve_all [OF assms(1,2), unfolded expire.due_def, OF assms(3)] by blast

theorem expire_served_in_order_witness:
  "\<exists>cs s'. serve CExpireMgr_NextWaitTime CExpireMgr_Del 3
     (example_timers\<lparr>clock := \<lparr>tv_sec = 1, tv_usec = 25000\<rparr>\<rparr>) = (cs, s') \<and> set cs = {4, 9}"
proof -
  let ?s = "example_timers\<lparr>clock := \<lparr>tv_sec = 1, tv_usec = 25000\<rparr>\<rparr>"
  have n: "CExpireMgr_now ?s = 1025"
    by (simp add: example_timers_def CExpireMgr_now_def CTimerMS_new_def CTimerMS_GetMs_def sdiv_1000_nonneg)
  have "exp_ok ?s" using example_timers_ok by (simp add: exp_ok_def)
  moreover have d: "{i. \<exists>e. timers ?s i = Some e \<and> e \<le> CExpireMgr_now ?s} = {4, 9}"
  proof (rule set_eqI)
    fix i :: u32
    have "timers ?s i = (if i = 2 then Some 1030 else if i = 9 then Some 1020 else if i = 4 then Some 1020 else None)"
      by (simp add: example_timers_view)
    then show "i \<in> {i. \<exists>e. timers ?s i = Some e \<and> e \<le> CExpireMgr_now ?s} \<longleftrightarrow> i \<in> {4, 9}"
      by (simp add: n)
  qed
  moreover have "timers ?s 0 = None" "card {4 :: u32, 9} \<le> 3" by (simp_all add: example_timers_view)
  ultimately show ?thesis
    using expire_served_in_order [of ?s 3] unfolding d by blast
qed

end
