(* ===== verification/MemData.thy ===== *)
theory MemData
  imports Prelude
begin

section \<open>The receive buffer (CMemData, lib/eventmgr/util.h)\<close>

text \<open>
  A byte vector and the count of bytes in use. Pointers into the buffer are indices, the
  null pointer is \<open>None\<close>; \<^verbatim>\<open>memcpy\<close> outside a vector or past the end of its source is the
  fault \<open>Out_Of_Bounds\<close>. Sizes are \<^verbatim>\<open>uint32_t\<close> and wrap.

  \<open>mem_ok\<close> is the invariant (the bytes in use lie in the vector) and \<open>contents\<close> the bytes in
  use. The lemmas give the effect of each operation on the contents, and show that
  \<^verbatim>\<open>Remove\<close> does not lower the count and \<^verbatim>\<open>Copy\<close> to a used buffer does not overwrite.
\<close>

record CMemData =
  m_data :: "u8 list"
  m_offset :: u32

definition CMemData_new :: CMemData where
  "CMemData_new = \<lparr>m_data = [], m_offset = 0\<rparr>"

definition CMemData_copy :: "CMemData \<Rightarrow> CMemData" where
  "CMemData_copy obj = \<lparr>m_data = m_data obj, m_offset = m_offset obj\<rparr>"

definition CMemData_Clear :: "CMemData \<Rightarrow> CMemData" where
  "CMemData_Clear d = d\<lparr>m_offset := 0\<rparr>"

definition CMemData_Size :: "CMemData \<Rightarrow> u32" where
  "CMemData_Size d = m_offset d"

definition CMemData_LeftSize :: "CMemData \<Rightarrow> u32" where
  "CMemData_LeftSize d = of_nat (length (m_data d)) - m_offset d"

definition CMemData_GetStart :: "CMemData \<Rightarrow> u8 list option" where
  "CMemData_GetStart d = (if m_data d = [] then None else Some (m_data d))"

definition CMemData_GetAddr :: "CMemData \<Rightarrow> nat option" where
  "CMemData_GetAddr d = (if m_data d = [] then None else Some (unat (m_offset d)))"

definition CMemData_UpdateUse :: "u32 \<Rightarrow> CMemData \<Rightarrow> CMemData" where
  "CMemData_UpdateUse len d = d\<lparr>m_offset := m_offset d + len\<rparr>"

text \<open>\<^verbatim>\<open>memcpy\<close>, split into reading \<open>n\<close> bytes of the source and writing bytes at an index.\<close>

definition read_bytes :: "nat \<Rightarrow> u8 list \<Rightarrow> u8 list res" where
  "read_bytes n src = (if n \<le> length src then Inr (take n src) else Inl Out_Of_Bounds)"

definition write_bytes :: "nat \<Rightarrow> u8 list \<Rightarrow> u8 list \<Rightarrow> u8 list res" where
  "write_bytes i bs buf =
     (if i + length bs \<le> length buf then Inr (take i buf @ bs @ drop (i + length bs) buf)
      else Inl Out_Of_Bounds)"

definition CMemData_Expand :: "u32 \<Rightarrow> CMemData \<Rightarrow> CMemData res" where
  "CMemData_Expand len d =
     (let len' = len + m_offset d in
      if unat len' \<le> length (m_data d) then Inr d
      else bind_res (read_bytes (unat (m_offset d)) (m_data d))
        (\<lambda>used. bind_res (write_bytes 0 used (replicate (unat len') 0))
          (\<lambda>tmp. Inr (d\<lparr>m_data := tmp\<rparr>))))"

text \<open>\<open>src\<close> is the memory that can be read from the source pointer on.\<close>

definition CMemData_Copy :: "u8 list \<Rightarrow> u32 \<Rightarrow> CMemData \<Rightarrow> CMemData res" where
  "CMemData_Copy src len d =
     bind_res (if CMemData_LeftSize d < len then CMemData_Expand len d else Inr d)
       (\<lambda>d1. case CMemData_GetAddr d1 of
          None \<Rightarrow> if len = 0 then Inr (d1\<lparr>m_offset := len\<rparr>) else Inl Null_Deref
        | Some addr \<Rightarrow> bind_res (read_bytes (unat len) src)
            (\<lambda>bs. bind_res (write_bytes addr bs (m_data d1))
              (\<lambda>buf. Inr (d1\<lparr>m_data := buf, m_offset := len\<rparr>))))"

definition CMemData_Remove :: "u32 \<Rightarrow> CMemData \<Rightarrow> CMemData res" where
  "CMemData_Remove len d =
     (let d1 = (if CMemData_Size d \<le> len then d\<lparr>m_offset := 0\<rparr> else d) in
      if unat len \<le> length (m_data d1) then Inr (d1\<lparr>m_data := drop (unat len) (m_data d1)\<rparr>)
      else Inl Out_Of_Bounds)"

subsection \<open>Invariant and contents\<close>

definition mem_ok :: "CMemData \<Rightarrow> bool" where
  "mem_ok d \<longleftrightarrow> unat (m_offset d) \<le> length (m_data d) \<and> length (m_data d) < 2 ^ 32"

definition contents :: "CMemData \<Rightarrow> u8 list" where
  "contents d = take (unat (m_offset d)) (m_data d)"

lemma mem_ok_new [simp]: "mem_ok CMemData_new"
  by (simp add: mem_ok_def CMemData_new_def)

lemma contents_new [simp]: "contents CMemData_new = []"
  by (simp add: contents_def CMemData_new_def)

lemma mem_ok_Clear: "mem_ok d \<Longrightarrow> mem_ok (CMemData_Clear d)"
  by (simp add: mem_ok_def CMemData_Clear_def)

lemma contents_Clear [simp]: "contents (CMemData_Clear d) = []"
  by (simp add: contents_def CMemData_Clear_def)

lemma length_contents: "mem_ok d \<Longrightarrow> length (contents d) = unat (CMemData_Size d)"
  by (simp add: mem_ok_def contents_def CMemData_Size_def)

lemma unat_of_nat_u32: "n < 2 ^ 32 \<Longrightarrow> unat (of_nat n :: u32) = n"
  by (simp add: unat_of_nat take_bit_nat_eq_self)

lemma unat_LeftSize:
  assumes "mem_ok d"
  shows "unat (CMemData_LeftSize d) = length (m_data d) - unat (m_offset d)"
proof -
  have "unat (of_nat (length (m_data d)) :: u32) = length (m_data d)"
    using assms by (simp add: mem_ok_def unat_of_nat_u32)
  then show ?thesis
    using assms by (simp add: CMemData_LeftSize_def mem_ok_def unat_sub word_le_nat_alt)
qed

lemma write_bytes_Inr:
  "write_bytes i bs buf = Inr buf' \<longleftrightarrow>
   i + length bs \<le> length buf \<and> buf' = take i buf @ bs @ drop (i + length bs) buf"
  by (auto simp: write_bytes_def)

lemma read_bytes_Inr: "read_bytes n src = Inr bs \<longleftrightarrow> n \<le> length src \<and> bs = take n src"
  by (auto simp: read_bytes_def)

subsection \<open>Operations\<close>

lemma unat_add_u32: "unat a + unat b < 2 ^ 32 \<Longrightarrow> unat (a + b :: u32) = unat a + unat b"
  by (simp add: unat_word_ariths)

lemma Expand_result:
  assumes ok: "mem_ok d" and fits: "unat (m_offset d) + unat len < 2 ^ 32"
  shows "\<exists>d'. CMemData_Expand len d = Inr d' \<and> mem_ok d' \<and> contents d' = contents d \<and>
    m_offset d' = m_offset d \<and> unat len \<le> unat (CMemData_LeftSize d') \<and>
    length (m_data d') = max (length (m_data d)) (unat len + unat (m_offset d))"
proof -
  have s: "unat (len + m_offset d) = unat len + unat (m_offset d)"
    using fits by (simp add: unat_add_u32 add.commute)
  show ?thesis
  proof (cases "unat len + unat (m_offset d) \<le> length (m_data d)")
    case True
    then show ?thesis using ok by (simp add: CMemData_Expand_def s unat_LeftSize)
  next
    case False
    let ?d' = "d\<lparr>m_data := take (unat (m_offset d)) (m_data d) @ replicate (unat len) 0\<rparr>"
    have "CMemData_Expand len d = Inr ?d'"
      using False ok by (simp add: CMemData_Expand_def s read_bytes_def write_bytes_def mem_ok_def)
    moreover have "mem_ok ?d'"
      using ok fits by (simp add: mem_ok_def)
    ultimately show ?thesis
      using ok False by (simp add: unat_LeftSize contents_def) (simp add: mem_ok_def)
  qed
qed

text \<open>What \<^verbatim>\<open>Copy\<close> leaves in the buffer, whatever was in it before.\<close>

lemma Copy_result:
  assumes ok: "mem_ok d" and fits: "unat (m_offset d) + unat len < 2 ^ 32"
    and src: "unat len \<le> length src"
  shows "\<exists>d'. CMemData_Copy src len d = Inr d' \<and> mem_ok d' \<and> CMemData_Size d' = len \<and>
    contents d' = take (unat len) (contents d @ take (unat len) src)"
proof -
  define e where "e = (if CMemData_LeftSize d < len then CMemData_Expand len d else Inr d)"
  obtain d1 where d1: "e = Inr d1" "mem_ok d1" "contents d1 = contents d" "m_offset d1 = m_offset d"
      "unat len \<le> unat (CMemData_LeftSize d1)"
    using Expand_result [OF ok fits] ok unfolding e_def
    by (cases "CMemData_LeftSize d < len") (auto simp: word_less_nat_alt)
  have "unat (m_offset d1) + unat len \<le> length (m_data d1)"
    using d1(2,5) unfolding unat_LeftSize [OF d1(2)] mem_ok_def by arith
  then have room: "unat (m_offset d) + unat len \<le> length (m_data d1)"
    using d1(4) by simp
  have copy: "CMemData_Copy src len d = (case CMemData_GetAddr d1 of
      None \<Rightarrow> if len = 0 then Inr (d1\<lparr>m_offset := len\<rparr>) else Inl Null_Deref
    | Some addr \<Rightarrow> bind_res (read_bytes (unat len) src)
        (\<lambda>bs. bind_res (write_bytes addr bs (m_data d1))
          (\<lambda>buf. Inr (d1\<lparr>m_data := buf, m_offset := len\<rparr>))))"
    unfolding CMemData_Copy_def e_def [symmetric] d1(1) by simp
  show ?thesis
  proof (cases "m_data d1 = []")
    case True
    then have "len = 0" using room by (simp add: unat_eq_zero)
    with True show ?thesis
      unfolding copy by (simp add: CMemData_GetAddr_def mem_ok_def CMemData_Size_def contents_def)
  next
    case False
    let ?buf = "take (unat (m_offset d)) (m_data d1) @ take (unat len) src @
        drop (unat (m_offset d) + unat len) (m_data d1)"
    have "CMemData_Copy src len d = Inr (d1\<lparr>m_data := ?buf, m_offset := len\<rparr>)"
      using False d1 src room
      by (simp add: copy CMemData_GetAddr_def read_bytes_def write_bytes_def)
    moreover have "take (unat (m_offset d)) (m_data d1) = contents d"
      using d1(3,4) by (simp add: contents_def)
    ultimately show ?thesis
      using room src d1 length_contents [OF ok]
      by (simp add: mem_ok_def CMemData_Size_def contents_def)
  qed
qed

lemma Remove_result:
  assumes "unat len \<le> length (m_data d)"
  shows "CMemData_Remove len d =
    Inr \<lparr>m_data = drop (unat len) (m_data d),
         m_offset = (if m_offset d \<le> len then 0 else m_offset d)\<rparr>"
  using assms by (cases d) (simp add: CMemData_Remove_def CMemData_Size_def Let_def)

subsection \<open>Properties\<close>

text \<open>
  \<^verbatim>\<open>Expand\<close> makes room for the bytes asked for, keeps the bytes in use and their count, and
  never gives the buffer less room than it had.
\<close>

theorem expand_makes_room:
  assumes "mem_ok d" and "unat (m_offset d) + unat len < 2 ^ 32"
  shows "\<exists>d'. CMemData_Expand len d = Inr d' \<and> mem_ok d' \<and> contents d' = contents d \<and>
    m_offset d' = m_offset d \<and> unat len \<le> unat (CMemData_LeftSize d') \<and>
    length (m_data d') = max (length (m_data d)) (unat len + unat (m_offset d))"
  by (rule Expand_result [OF assms])

theorem expand_makes_room_witness:
  "\<exists>d'. CMemData_Expand 1024 \<lparr>m_data = [1, 2, 3], m_offset = 2\<rparr> = Inr d' \<and> contents d' = [1, 2] \<and>
    length (m_data d') = 1026"
  using expand_makes_room [of "\<lparr>m_data = [1, 2, 3], m_offset = 2\<rparr>" 1024]
  by (auto simp: mem_ok_def contents_def)

text \<open>
  \<^verbatim>\<open>Copy\<close> writes after the bytes in use but counts from the start of the buffer: the result
  is the copied bytes when the buffer was empty, and otherwise the old bytes, cut or filled up
  with the new ones to the new length.
\<close>

theorem copy_result:
  assumes "mem_ok d" and "unat (m_offset d) + unat len < 2 ^ 32" and "unat len \<le> length src"
  shows "\<exists>d'. CMemData_Copy src len d = Inr d' \<and> mem_ok d' \<and> CMemData_Size d' = len \<and>
    contents d' = (if CMemData_Size d = 0 then take (unat len) src
                   else take (unat len) (contents d @ take (unat len) src))"
proof -
  have "contents d = []" if "CMemData_Size d = 0"
    using that by (simp add: contents_def CMemData_Size_def)
  then show ?thesis
    using Copy_result [OF assms] by auto
qed

theorem copy_result_witness:
  "\<exists>d'. CMemData_Copy [7, 8, 9] 3 \<lparr>m_data = [1, 2, 3], m_offset = 2\<rparr> = Inr d' \<and> contents d' = [1, 2, 7]"
  using copy_result [of "\<lparr>m_data = [1, 2, 3], m_offset = 2\<rparr>" 3 "[7, 8, 9]"]
  by (auto simp: mem_ok_def contents_def CMemData_Size_def)

text \<open>
  \<^verbatim>\<open>Remove\<close> drops bytes from the front of the vector. The whole contents removed leaves an
  empty buffer, but a part removed leaves the count as it was, so that bytes past the contents
  count as received, and past the vector when it was full.
\<close>

theorem remove_result:
  assumes "mem_ok d" and "len \<le> CMemData_Size d"
  shows "\<exists>d'. CMemData_Remove len d = Inr d' \<and> m_data d' = drop (unat len) (m_data d) \<and>
    CMemData_Size d' = (if len = CMemData_Size d then 0 else CMemData_Size d) \<and>
    (mem_ok d' \<longleftrightarrow> len = CMemData_Size d \<or> unat (CMemData_Size d) + unat len \<le> length (m_data d))"
proof -
  have le: "unat len \<le> unat (m_offset d)"
    using assms(2) by (simp add: CMemData_Size_def word_le_nat_alt)
  then have len: "unat len \<le> length (m_data d)" using assms(1) by (simp add: mem_ok_def)
  show ?thesis
    unfolding Remove_result [OF len]
    using assms le len by (auto simp: CMemData_Size_def mem_ok_def)
qed

theorem remove_result_witness:
  "\<exists>d'. CMemData_Remove 1 \<lparr>m_data = [1, 2, 3], m_offset = 3\<rparr> = Inr d' \<and> CMemData_Size d' = 3 \<and> \<not> mem_ok d'"
  using remove_result [of "\<lparr>m_data = [1, 2, 3], m_offset = 3\<rparr>" 1]
  by (auto simp: mem_ok_def CMemData_Size_def word_le_nat_alt)

end
