(* ===== verification/Util.thy ===== *)
theory Util
  imports Prelude
begin

unbundle bit_operations_syntax

section \<open>Enumerations, epoll event masks and hex dumps (util.h, EventMgr.h, EventMgr.cpp)\<close>

text \<open>
  The enumerations of \<^verbatim>\<open>util.h\<close> with the numeric values C gives them, the epoll event bits
  of \<^verbatim>\<open>sys/epoll.h\<close>, the functions that build, test and print event masks, and \<^verbatim>\<open>DumpHex\<close>.
\<close>

datatype EIORESULT = IO_OK | IO_SOCKET_ERR | IO_ERR | IO_ARG_INVALID | IO_SEND_AGAIN
  | IO_TIMEOUT | IO_REMOTE_CLOSE | IO_CONNECT_WAIT

text \<open>The value of an enumerator where the code lets it decay to \<^verbatim>\<open>int\<close>.\<close>

fun EIORESULT_int :: "EIORESULT \<Rightarrow> int" where
  "EIORESULT_int IO_OK = 0"
| "EIORESULT_int IO_SOCKET_ERR = 1"
| "EIORESULT_int IO_ERR = 2"
| "EIORESULT_int IO_ARG_INVALID = 3"
| "EIORESULT_int IO_SEND_AGAIN = 4"
| "EIORESULT_int IO_TIMEOUT = 5"
| "EIORESULT_int IO_REMOTE_CLOSE = 6"
| "EIORESULT_int IO_CONNECT_WAIT = 7"

datatype EPORTTYPE = PORT_TCP | PORT_UDP

datatype ENodeState = E_READY | E_WAIT | E_END

datatype EFDEVENT = FD_READ | FD_WRITE | FD_READ_WRITE

subsection \<open>Event masks\<close>

definition EPOLLIN :: u32 where "EPOLLIN = 1"
definition EPOLLPRI :: u32 where "EPOLLPRI = 2"
definition EPOLLOUT :: u32 where "EPOLLOUT = 4"
definition EPOLLERR :: u32 where "EPOLLERR = 8"
definition EPOLLHUP :: u32 where "EPOLLHUP = 0x10"
definition EPOLLRDHUP :: u32 where "EPOLLRDHUP = 0x2000"
definition EPOLLONESHOT :: u32 where "EPOLLONESHOT = 0x40000000"
definition EPOLLET :: u32 where "EPOLLET = 0x80000000"

lemmas epoll_defs = EPOLLIN_def EPOLLPRI_def EPOLLOUT_def EPOLLERR_def EPOLLHUP_def
  EPOLLRDHUP_def EPOLLONESHOT_def EPOLLET_def

text \<open>The enumerators' own values, which \<^verbatim>\<open>CMonitorEpoll::Add\<close> stores in the event.\<close>

fun EFDEVENT_mask :: "EFDEVENT \<Rightarrow> u32" where
  "EFDEVENT_mask FD_READ = EPOLLIN"
| "EFDEVENT_mask FD_WRITE = EPOLLOUT"
| "EFDEVENT_mask FD_READ_WRITE = EPOLLIN OR EPOLLOUT"

fun Convert :: "EFDEVENT \<Rightarrow> u32" where
  "Convert FD_READ = EPOLLIN"
| "Convert FD_WRITE = EPOLLOUT"
| "Convert FD_READ_WRITE = EPOLLIN OR EPOLLOUT"

definition CanRead :: "u32 \<Rightarrow> bool" where
  "CanRead event \<longleftrightarrow> event AND EPOLLIN \<noteq> 0"

definition CanWrite :: "u32 \<Rightarrow> bool" where
  "CanWrite event \<longleftrightarrow> event AND EPOLLOUT \<noteq> 0"

text \<open>
  \<^verbatim>\<open>msg\<close> has nine names, \<^verbatim>\<open>total\<close> eight masks; the loop runs over the masks.
\<close>

definition PrintEpollEvent_table :: "(u32 \<times> string) list" where
  "PrintEpollEvent_table =
    [(EPOLLIN, ''EPOLLIN''), (EPOLLOUT, ''EPOLLOUT''), (EPOLLRDHUP, ''EPOLLRDHUP''),
     (EPOLLPRI, ''EPOLLPRI''), (EPOLLERR, ''EPOLLERR''), (EPOLLHUP, ''EPOLLHUP''),
     (EPOLLET, ''EPOLLET''), (EPOLLONESHOT, ''EPOLLONESHOT'')]"

definition PrintEpollEvent :: "u32 \<Rightarrow> string" where
  "PrintEpollEvent e =
     concat (map (\<lambda>(bit, msg). if e AND bit \<noteq> 0 then msg @ '' '' else []) PrintEpollEvent_table)"

subsection \<open>Hex dumps\<close>

definition hex_digit :: "nat \<Rightarrow> char" where
  "hex_digit n = ''0123456789abcdef'' ! n"

text \<open>A number as \<^verbatim>\<open>ostream << hex\<close> prints it: lower case, no padding.\<close>

fun hex_of :: "nat \<Rightarrow> string" where
  "hex_of n = (if n < 16 then [hex_digit n] else hex_of (n div 16) @ [hex_digit (n mod 16)])"

declare hex_of.simps [simp del]

text \<open>The \<open>len\<close> bytes at \<open>start\<close> are the argument.\<close>

definition DumpHex :: "u8 list \<Rightarrow> string" where
  "DumpHex bs = concat (map (\<lambda>b. ''0x'' @ hex_of (unat b) @ '' '') bs)"

definition hex_value :: "char \<Rightarrow> nat" where
  "hex_value c = length (takeWhile (\<lambda>d. d \<noteq> c) ''0123456789abcdef'')"

lemma less_16_cases:
  "n < 16 \<Longrightarrow> n \<in> {0, 1, 2, 3, 4, 5, 6, 7, 8, 9, 10, 11, 12, 13, 14, 15 :: nat}"
  by (auto simp: numeral_eq_Suc less_Suc_eq)

lemma hex_value_digit: "n < 16 \<Longrightarrow> hex_value (hex_digit n) = n"
  by (drule less_16_cases) (elim insertE emptyE; simp add: hex_value_def hex_digit_def)

lemma hex_digit_no_space: "n < 16 \<Longrightarrow> hex_digit n \<noteq> CHR '' ''"
  by (drule less_16_cases) (elim insertE emptyE; simp add: hex_digit_def)

definition hex_read :: "string \<Rightarrow> nat" where
  "hex_read s = foldl (\<lambda>v c. 16 * v + hex_value c) 0 s"

lemma hex_read_of: "hex_read (hex_of n) = n"
proof (induction n rule: hex_of.induct)
  case (1 n)
  show ?case
    using "1" by (subst hex_of.simps) (auto simp: hex_read_def hex_value_digit)
qed

lemma hex_of_no_space: "CHR '' '' \<notin> set (hex_of n)"
proof (induction n rule: hex_of.induct)
  case (1 n)
  show ?case
    using "1" hex_digit_no_space [of n] hex_digit_no_space [of "n mod 16"]
    by (subst hex_of.simps) auto
qed

lemma DumpHex_Cons: "DumpHex (b # bs) = ''0x'' @ hex_of (unat b) @ CHR '' '' # DumpHex bs"
  by (simp add: DumpHex_def)

lemma split_at_first:
  "x \<notin> set as \<Longrightarrow> x \<notin> set bs \<Longrightarrow> as @ x # cs = bs @ x # ds \<Longrightarrow> as = bs \<and> cs = ds"
  by (induction as arbitrary: bs) (auto simp: Cons_eq_append_conv)

lemma DumpHex_inj_aux: "DumpHex xs = DumpHex ys \<Longrightarrow> xs = ys"
proof (induction xs arbitrary: ys)
  case Nil
  then show ?case by (cases ys) (simp_all add: DumpHex_Cons, simp add: DumpHex_def)
next
  case (Cons x xs)
  then obtain y ys' where ys: "ys = y # ys'"
    by (cases ys) (simp_all add: DumpHex_Cons, simp add: DumpHex_def)
  have "hex_of (unat x) = hex_of (unat y) \<and> DumpHex xs = DumpHex ys'"
    by (rule split_at_first [where x = "CHR '' ''"])
      (use Cons.prems ys hex_of_no_space in \<open>simp_all add: DumpHex_Cons\<close>)
  then show ?case
    using Cons.IH ys by (metis hex_read_of word_unat_eq_iff)
qed

definition bytes_of :: "string \<Rightarrow> u8 list" where
  "bytes_of s = map of_char s"

subsection \<open>The time of day in print\<close>

text \<open>
  \<^verbatim>\<open>GetYMDHMS\<close>; \<^verbatim>\<open>localtime_r\<close> is the library's, here the parameter \<open>localtime\<close>. The text is shorter
  than the buffer \<^verbatim>\<open>format\<close> prints it in, so nothing is cut off.
\<close>

record tm =
  tm_year :: int
  tm_mon :: int
  tm_mday :: int
  tm_hour :: int
  tm_min :: int
  tm_sec :: int

text \<open>A time, for the witnesses.\<close>

definition example_tm :: tm where
  "example_tm = \<lparr>tm_year = 124, tm_mon = 0, tm_mday = 1, tm_hour = 0, tm_min = 0, tm_sec = 0\<rparr>"

fun dec_of :: "nat \<Rightarrow> string" where
  "dec_of n = (if n < 10 then [hex_digit n] else dec_of (n div 10) @ [hex_digit (n mod 10)])"

declare dec_of.simps [simp del]

definition print_u :: "int \<Rightarrow> string" where
  "print_u i = dec_of (nat (i mod 2 ^ 32))"

definition print_02u :: "int \<Rightarrow> string" where
  "print_02u i = (if i mod 2 ^ 32 < 10 then ''0'' else []) @ print_u i"

definition GetYMDHMS :: "(int \<Rightarrow> tm) \<Rightarrow> int \<Rightarrow> string" where
  "GetYMDHMS localtime ts =
     (let t = localtime ts in
      print_u (tm_year t + 1900) @ ''-'' @ print_02u (tm_mon t + 1) @ ''-'' @ print_02u (tm_mday t) @ '' '' @
      print_02u (tm_hour t) @ '':'' @ print_02u (tm_min t) @ '':'' @ print_02u (tm_sec t))"

lemma length_dec_of: "0 < k \<Longrightarrow> n < 10 ^ k \<Longrightarrow> length (dec_of n) \<le> k"
proof (induction n arbitrary: k rule: dec_of.induct)
  case (1 n)
  show ?case
  proof (cases "n < 10")
    case True
    then show ?thesis using "1.prems" by (simp add: dec_of.simps [of n])
  next
    case False
    obtain j where j: "k = Suc j" using "1.prems"(1) by (cases k) simp_all
    then have "n div 10 < 10 ^ j" using "1.prems"(2) by (simp add: less_mult_imp_div_less mult.commute)
    moreover from this False have "0 < j" by (cases j) simp_all
    ultimately show ?thesis using "1.IH" [OF False] False j by (simp add: dec_of.simps [of n])
  qed
qed

lemma length_print: "length (print_u i) \<le> 10" "length (print_02u i) \<le> 11"
proof -
  have "nat (i mod 2 ^ 32) < 10 ^ 10"
    using pos_mod_bound [of "2 ^ 32" i] by (simp add: nat_less_iff)
  then show "length (print_u i) \<le> 10" by (simp only: print_u_def) (rule length_dec_of, simp_all)
  then show "length (print_02u i) \<le> 11" by (simp add: print_02u_def)
qed

lemma GetYMDHMS_short: "length (GetYMDHMS localtime ts) \<le> 70"
  using length_print(1) [of "tm_year (localtime ts) + 1900"] length_print(2) [of "tm_mon (localtime ts) + 1"]
    length_print(2) [of "tm_mday (localtime ts)"] length_print(2) [of "tm_hour (localtime ts)"]
    length_print(2) [of "tm_min (localtime ts)"] length_print(2) [of "tm_sec (localtime ts)"]
  by (simp add: GetYMDHMS_def Let_def)

lemma GetYMDHMS_fits: "length (GetYMDHMS localtime ts) < 1024"
  using GetYMDHMS_short [of localtime ts] by linarith

subsection \<open>Properties\<close>

text \<open>
  A hex dump determines the bytes it was made from, although its numbers are not padded.
\<close>

theorem DumpHex_injective: "inj DumpHex"
  by (rule injI) (rule DumpHex_inj_aux)

text \<open>
  \<^verbatim>\<open>Convert\<close> and the enumerators' own values, which \<^verbatim>\<open>CMonitorEpoll::Add\<close> uses, are the
  same mask; a mask built for reading or writing is recognised by \<^verbatim>\<open>CanRead\<close> or
  \<^verbatim>\<open>CanWrite\<close> and by no other test.
\<close>

theorem event_masks_agree:
  "Convert fe = EFDEVENT_mask fe \<and>
   (CanRead (Convert fe) \<longleftrightarrow> fe \<noteq> FD_WRITE) \<and> (CanWrite (Convert fe) \<longleftrightarrow> fe \<noteq> FD_READ)"
  by (cases fe) (simp_all add: CanRead_def CanWrite_def epoll_defs)

end
