(* ===== verification/CoroutineMgr.thy ===== *)
theory CoroutineMgr
  imports ExpireMgr MemData Util
begin

section \<open>The coroutine manager (CoroutineMgr.h, CoroutineMgr.cpp)\<close>

text \<open>
  The table of coroutines by id, the active one, and the id counter, on top of the timer
  table. Pointers to entries of the table (\<^verbatim>\<open>m_active\<close>, iterators) are ids: entries of a
  \<^verbatim>\<open>std::map\<close> do not move. The machine context an entry owns is named by its id too, and
  \<open>control\<close> says whose stack the processor runs on: it is what \<^verbatim>\<open>__SwitchCoroutine__\<close>
  changes, by the theorems of \<open>ContextSwitch\<close>. A member function called through a null or
  indeterminate pointer is the fault \<open>Null_Deref\<close>.

  \<open>co_ok\<close> is the invariant: entries carry their own id, the active entry is the one running
  (so a switch saves the running code in the context that belongs to it), and only waiting
  coroutines have a timer.
\<close>

type_synonym fnptr = u64

record sockaddr_in =
  sin_addr :: u32
  sin_port :: u16

record stReqData =
  recvdata :: CMemData
  remoteaddr :: sockaddr_in
  req_id :: u32
  server_socket :: int
  m_cb :: fnptr

definition stReqData_new :: stReqData where
  "stReqData_new = \<lparr>recvdata = CMemData_new, remoteaddr = \<lparr>sin_addr = 0, sin_port = 0\<rparr>,
     req_id = 0, server_socket = 0, m_cb = 0\<rparr>"

definition stReqData_copy :: "stReqData \<Rightarrow> stReqData" where
  "stReqData_copy obj = \<lparr>recvdata = CMemData_copy (recvdata obj), remoteaddr = remoteaddr obj, req_id = req_id obj,
     server_socket = server_socket obj, m_cb = m_cb obj\<rparr>"

record CoroutineContext =
  m_req :: stReqData
  m_state :: ENodeState
  m_timer :: CTimerMS

definition CoroutineContext_new :: "timeval \<Rightarrow> CoroutineContext" where
  "CoroutineContext_new now =
     \<lparr>m_req = stReqData_new, m_state = E_READY, m_timer = CTimerMS_new now 0\<rparr>"

text \<open>
  A copy, as the map makes one of the context \<^verbatim>\<open>Create\<close> builds, takes over the request, the state and
  the timer, and makes a coroutine of its own, whose stack starts in \<^verbatim>\<open>Entry\<close>.
\<close>

definition CoroutineContext_copy :: "CoroutineContext \<Rightarrow> CoroutineContext" where
  "CoroutineContext_copy cc = \<lparr>m_req = stReqData_copy (m_req cc), m_state = m_state cc, m_timer = CTimerMS_copy (m_timer cc)\<rparr>"

lemma copies [simp]:
  "CMemData_copy d = d" "CTimerMS_copy t = t" "stReqData_copy r = r" "CoroutineContext_copy c = c"
  by (simp_all add: CMemData_copy_def CTimerMS_copy_def stReqData_copy_def CoroutineContext_copy_def)

definition CoroutineContext_GetState :: "CoroutineContext \<Rightarrow> ENodeState" where
  "CoroutineContext_GetState c = m_state c"

definition CoroutineContext_GetID :: "CoroutineContext \<Rightarrow> u32" where
  "CoroutineContext_GetID c = req_id (m_req c)"

definition CoroutineContext_SetTimeout :: "u32 \<Rightarrow> CoroutineContext \<Rightarrow> CoroutineContext" where
  "CoroutineContext_SetTimeout ms c = c\<lparr>m_timer := CTimerMS_SetTimeout ms (m_timer c)\<rparr>"

definition CoroutineContext_BeginTimeout ::
    "timeval \<Rightarrow> u32 \<Rightarrow> CoroutineContext \<Rightarrow> CoroutineContext" where
  "CoroutineContext_BeginTimeout now ms c =
     c\<lparr>m_timer := CTimerMS_SetTimeout ms (CTimerMS_Reset now (m_timer c))\<rparr>"

definition CoroutineContext_LeftTime :: "timeval \<Rightarrow> CoroutineContext \<Rightarrow> u64" where
  "CoroutineContext_LeftTime now c = CTimerMS_LeftTime now (m_timer c)"

record co_state = exp_state +
  m_idtonode :: "(u32, CoroutineContext) smap"
  m_active :: "u32 option"
  staticid :: u32
  control :: u32

definition CoroutineMgr_Get :: "u32 \<Rightarrow> 'z co_state_scheme \<Rightarrow> CoroutineContext option" where
  "CoroutineMgr_Get cid s = sm_find (<) cid (m_idtonode s)"

text \<open>A write through the pointer to an entry, null when there is none.\<close>

definition update_node ::
    "u32 \<Rightarrow> (CoroutineContext \<Rightarrow> CoroutineContext) \<Rightarrow> 'z co_state_scheme \<Rightarrow> 'z co_state_scheme res" where
  "update_node cid f s = (case CoroutineMgr_Get cid s of
     None \<Rightarrow> Inl Null_Deref
   | Some c \<Rightarrow> Inr (s\<lparr>m_idtonode := sm_assign (<) cid (f c) (m_idtonode s)\<rparr>))"

definition SetState :: "u32 \<Rightarrow> ENodeState \<Rightarrow> 'z co_state_scheme \<Rightarrow> 'z co_state_scheme res" where
  "SetState cid ns = update_node cid (\<lambda>c. c\<lparr>m_state := ns\<rparr>)"

definition CoroutineMgr_SetActive :: "u32 \<Rightarrow> 'z co_state_scheme \<Rightarrow> 'z co_state_scheme" where
  "CoroutineMgr_SetActive cur s = s\<lparr>m_active := Some cur\<rparr>"

text \<open>\<^verbatim>\<open>Schedule(CoroutineContext&)\<close> and \<^verbatim>\<open>Schedule(uint32_t)\<close>.\<close>

definition CoroutineMgr_Switch :: "u32 \<Rightarrow> 'z co_state_scheme \<Rightarrow> 'z co_state_scheme res" where
  "CoroutineMgr_Switch nxt s = (case m_active s of
     None \<Rightarrow> Inl Null_Deref
   | Some c \<Rightarrow> Inr (s\<lparr>m_active := Some nxt, control := nxt\<rparr>))"

definition CoroutineMgr_Schedule :: "u32 \<Rightarrow> 'z co_state_scheme \<Rightarrow> 'z co_state_scheme res" where
  "CoroutineMgr_Schedule cid s = (case sm_find (<) cid (m_idtonode s) of
     None \<Rightarrow> Inr s
   | Some _ \<Rightarrow> CoroutineMgr_Switch cid s)"

definition CoroutineMgr_WaitAndSchedule :: "u32 \<Rightarrow> 'z co_state_scheme \<Rightarrow> 'z co_state_scheme res" where
  "CoroutineMgr_WaitAndSchedule ms s = (case m_active s of
     None \<Rightarrow> Inl Null_Deref
   | Some a \<Rightarrow> (case CoroutineMgr_Get a s of
       None \<Rightarrow> Inl Null_Deref
     | Some c \<Rightarrow>
         let s1 = CExpireMgr_Set (ucast ms) (CoroutineContext_GetID c) s
         in bind_res (SetState a E_WAIT s1) (CoroutineMgr_Schedule 0)))"

definition CoroutineMgr_SetReady :: "u32 \<Rightarrow> 'z co_state_scheme \<Rightarrow> 'z co_state_scheme res" where
  "CoroutineMgr_SetReady cid s =
     bind_res (SetState cid E_READY s) (\<lambda>s1. Inr (CExpireMgr_Del cid s1))"

text \<open>\<^verbatim>\<open>Create\<close> returns the entry, here its id; \<^verbatim>\<open>operator[]\<close> makes a default one if absent.\<close>

definition CoroutineMgr_Create :: "'z co_state_scheme \<Rightarrow> 'z co_state_scheme \<times> u32" where
  "CoroutineMgr_Create s =
     (let sid = staticid s + 1;
          c = (case sm_find (<) sid (m_idtonode s) of
                 None \<Rightarrow> CoroutineContext_new (clock s)
               | Some c \<Rightarrow> c)
      in (s\<lparr>staticid := sid,
            m_idtonode := sm_assign (<) sid (c\<lparr>m_req := (m_req c)\<lparr>req_id := sid\<rparr>\<rparr>) (m_idtonode s)\<rparr>,
          sid))"

definition CoroutineMgr_Destroy :: "u32 \<Rightarrow> 'z co_state_scheme \<Rightarrow> 'z co_state_scheme \<times> EIORESULT" where
  "CoroutineMgr_Destroy cid s = (case sm_find (<) cid (m_idtonode s) of
     None \<Rightarrow> (s, IO_ERR)
   | Some _ \<Rightarrow> (s\<lparr>m_idtonode := sm_erase (<) cid (m_idtonode s)\<rparr>, IO_OK))"

definition CoroutineMgr_Init :: "'z co_state_scheme \<Rightarrow> 'z co_state_scheme \<times> EIORESULT" where
  "CoroutineMgr_Init s =
     (if m_idtonode s \<noteq> [] then (s, IO_ERR)
      else
        let (s1, cc) = CoroutineMgr_Create s in
        if cc \<noteq> 0 then (s1, IO_ERR)
        else (s1\<lparr>control := cc, m_active := Some cc\<rparr>, IO_OK))"

text \<open>
  \<^verbatim>\<open>Entry\<close>, the function every coroutine starts in, up to the callback and after it; the
  argument is the coroutine's own request record, named by the id in it.
\<close>

definition Entry_begin :: "u32 \<Rightarrow> 'z co_state_scheme \<Rightarrow> 'z co_state_scheme res" where
  "Entry_begin rd s = (case CoroutineMgr_Get rd s of
     None \<Rightarrow> Inl Null_Deref
   | Some c \<Rightarrow> if m_cb (m_req c) = 0 then Inl Null_Call else Inr (CoroutineMgr_SetActive rd s))"

definition Entry_end :: "'z co_state_scheme \<Rightarrow> 'z co_state_scheme res" where
  "Entry_end s = (case m_active s of
     None \<Rightarrow> Inl Null_Deref
   | Some a \<Rightarrow> bind_res (SetState a E_END s) (CoroutineMgr_Schedule 0))"

subsection \<open>The scheduler pass\<close>

text \<open>
  \<^verbatim>\<open>ScheduleAll\<close> walks the table by id. \<open>iter\<close> is the iterator, an id or \<open>None\<close> for the end;
  \<open>next_id\<close> is its increment. \<open>run\<close> stands for what the resumed coroutine does until control
  is back on the main stack: it maps the state after the switch to the state in which the
  main code goes on, and takes along \<open>ks\<close>, the suspended stacks. A ready coroutine is looked
  at again after it ran, as the loop does not advance there. The loop is a partial function:
  a coroutine that hands control back while still ready would be resumed for ever.
\<close>

fun next_id :: "u32 \<Rightarrow> (u32, 'c) smap \<Rightarrow> u32 option" where
  "next_id k [] = None"
| "next_id k ((j, _) # m) = (if k < j then Some j else next_id k m)"

definition first_id :: "(u32, 'c) smap \<Rightarrow> u32 option" where
  "first_id m = (case m of [] \<Rightarrow> None | (j, _) # _ \<Rightarrow> Some j)"

type_synonym ('z, 'k) runner =
  "u32 \<Rightarrow> 'z co_state_scheme \<times> 'k \<Rightarrow> ('z co_state_scheme \<times> 'k) res"

partial_function (option) ScheduleAll_loop ::
    "('z, 'k) runner \<Rightarrow> u32 option \<Rightarrow> 'z co_state_scheme \<times> 'k \<Rightarrow> ('z co_state_scheme \<times> 'k) res option" where
  "ScheduleAll_loop run iter x = (case iter of
     None \<Rightarrow> Some (Inr x)
   | Some k \<Rightarrow>
       if k = 0 then ScheduleAll_loop run (next_id k (m_idtonode (fst x))) x
       else (case CoroutineMgr_Get k (fst x) of
         None \<Rightarrow> Some (Inl Null_Deref)
       | Some c \<Rightarrow> (case m_state c of
           E_READY \<Rightarrow>
             (case bind_res (CoroutineMgr_Switch k (fst x)) (\<lambda>s. run k (s, snd x)) of
                Inl e \<Rightarrow> Some (Inl e)
              | Inr x' \<Rightarrow> ScheduleAll_loop run (Some k) x')
         | E_END \<Rightarrow>
             ScheduleAll_loop run (next_id k (m_idtonode (fst x)))
               (fst (CoroutineMgr_Destroy (CoroutineContext_GetID c) (fst x)), snd x)
         | E_WAIT \<Rightarrow> ScheduleAll_loop run (next_id k (m_idtonode (fst x))) x)))"

definition ScheduleAll ::
    "('z, 'k) runner \<Rightarrow> 'z co_state_scheme \<times> 'k \<Rightarrow> ('z co_state_scheme \<times> 'k) res option" where
  "ScheduleAll run x = ScheduleAll_loop run (first_id (m_idtonode (fst x))) x"

subsection \<open>Frame facts\<close>

text \<open>The timer operations leave the coroutine table alone, and the other way round.\<close>

lemma Del_co_frame [simp, frame_simps]:
  "m_idtonode (CExpireMgr_Del cid s) = m_idtonode s"
  "m_active (CExpireMgr_Del cid s) = m_active s"
  "staticid (CExpireMgr_Del cid s) = staticid s"
  "control (CExpireMgr_Del cid s) = control s"
  by (simp_all add: CExpireMgr_Del_def Let_def split: option.splits)

lemma Set_co_frame [simp, frame_simps]:
  "m_idtonode (CExpireMgr_Set ms cid s) = m_idtonode s"
  "m_active (CExpireMgr_Set ms cid s) = m_active s"
  "staticid (CExpireMgr_Set ms cid s) = staticid s"
  "control (CExpireMgr_Set ms cid s) = control s"
  by (simp_all add: CExpireMgr_Set_def CExpireMgr_Add_def Let_def)

lemma exp_ok_frame [simp, frame_simps]:
  "exp_ok (s\<lparr>m_idtonode := x\<rparr>) = exp_ok s"
  "exp_ok (s\<lparr>m_active := y\<rparr>) = exp_ok s"
  "exp_ok (s\<lparr>staticid := z\<rparr>) = exp_ok s"
  "exp_ok (s\<lparr>control := w\<rparr>) = exp_ok s"
  by (simp_all add: exp_ok_def)

subsection \<open>The invariant\<close>

abbreviation nodes :: "'z co_state_scheme \<Rightarrow> u32 \<rightharpoonup> CoroutineContext" where
  "nodes s \<equiv> map_of (m_idtonode s)"

abbreviation node_state :: "'z co_state_scheme \<Rightarrow> u32 \<Rightarrow> ENodeState option" where
  "node_state s k \<equiv> map_option m_state (nodes s k)"

definition co_ok :: "'z co_state_scheme \<Rightarrow> bool" where
  "co_ok s \<longleftrightarrow> exp_ok s \<and> sm_sorted (m_idtonode s) \<and>
     (\<forall>(k, c) \<in> set (m_idtonode s). CoroutineContext_GetID c = k) \<and>
     m_active s = Some (control s) \<and> nodes s (control s) \<noteq> None \<and> nodes s 0 \<noteq> None \<and>
     (\<forall>(k, e) \<in> set (m_id_to_expire s). node_state s k = Some E_WAIT)"

text \<open>No sleeper is forgotten: a waiting coroutine has a timer.\<close>

definition co_live :: "'z co_state_scheme \<Rightarrow> bool" where
  "co_live s \<longleftrightarrow> (\<forall>(k, c) \<in> set (m_idtonode s). m_state c = E_WAIT \<longrightarrow> timers s k \<noteq> None)"

lemma co_okD:
  assumes "co_ok s"
  shows "exp_ok s" and "sm_sorted (m_idtonode s)" and "m_active s = Some (control s)"
    and "\<exists>c. nodes s (control s) = Some c" and "\<exists>c. nodes s 0 = Some c"
    and "nodes s k = Some c \<Longrightarrow> CoroutineContext_GetID c = k"
    and "timers s k = Some e \<Longrightarrow> node_state s k = Some E_WAIT"
  using assms sm_ball [of "m_idtonode s"] sm_ball [of "m_id_to_expire s"] exp_okD(2) [of s]
  by (auto simp: co_ok_def dest: map_of_SomeD)

lemma co_okI:
  assumes "exp_ok s" and "sm_sorted (m_idtonode s)" and "m_active s = Some (control s)"
    and "nodes s (control s) \<noteq> None" and "nodes s 0 \<noteq> None"
    and "\<And>k c. nodes s k = Some c \<Longrightarrow> CoroutineContext_GetID c = k"
    and "\<And>k e. timers s k = Some e \<Longrightarrow> node_state s k = Some E_WAIT"
  shows "co_ok s"
  using assms exp_okD(2) [of s] by (simp add: co_ok_def sm_ball)

lemma co_live_iff:
  "sm_sorted (m_idtonode s) \<Longrightarrow>
   co_live s \<longleftrightarrow> (\<forall>k. node_state s k = Some E_WAIT \<longrightarrow> timers s k \<noteq> None)"
  by (auto simp: co_live_def sm_ball)

lemma Get_nodes: "co_ok s \<Longrightarrow> CoroutineMgr_Get k s = nodes s k"
  by (simp add: CoroutineMgr_Get_def sm_find_lin co_okD)

subsection \<open>Operations\<close>

lemma GetID_state [simp]:
  "CoroutineContext_GetID (c\<lparr>m_state := ns\<rparr>) = CoroutineContext_GetID c"
  by (simp add: CoroutineContext_GetID_def)

lemma SetState_result:
  assumes "sm_sorted (m_idtonode s)" and "nodes s k = Some c"
  shows "\<exists>s'. SetState k ns s = Inr s' \<and> nodes s' = (nodes s)(k \<mapsto> c\<lparr>m_state := ns\<rparr>) \<and>
    sm_sorted (m_idtonode s') \<and> (\<exists>x. s' = s\<lparr>m_idtonode := x\<rparr>)"
  using assms
  by (auto simp: SetState_def update_node_def CoroutineMgr_Get_def sm_find_lin sm_assign_lin)

text \<open>\<^verbatim>\<open>SetReady\<close> wakes an entry and takes its timer out.\<close>

lemma SetReady_result:
  assumes ok: "co_ok s" and c: "nodes s k = Some c"
  shows "\<exists>s'. CoroutineMgr_SetReady k s = Inr s' \<and> co_ok s' \<and>
    nodes s' = (nodes s)(k \<mapsto> c\<lparr>m_state := E_READY\<rparr>) \<and> timers s' = (timers s)(k := None) \<and>
    control s' = control s \<and> m_active s' = m_active s \<and> staticid s' = staticid s \<and> clock s' = clock s"
proof -
  obtain x where s1: "SetState k E_READY s = Inr (s\<lparr>m_idtonode := x\<rparr>)"
    and n: "map_of x = (nodes s)(k \<mapsto> c\<lparr>m_state := E_READY\<rparr>)" and sx: "sm_sorted x"
    using SetState_result [OF co_okD(2) [OF ok] c, of E_READY] by auto
  let ?s = "CExpireMgr_Del k (s\<lparr>m_idtonode := x\<rparr>)"
  have e: "exp_ok (s\<lparr>m_idtonode := x\<rparr>)" using co_okD(1) [OF ok] by simp
  have t: "timers ?s = (timers s)(k := None)" using Del_timers [OF e] by simp
  have "co_ok ?s"
    by (rule co_okI)
      (use Del_ok [OF e] t n sx co_okD [OF ok] c in
        \<open>auto simp: t n split: if_splits dest!: co_okD(7) [OF ok]\<close>)
  then show ?thesis
    using s1 t n by (simp add: CoroutineMgr_SetReady_def)
qed

lemma Schedule_result:
  assumes ok: "co_ok s" and k: "nodes s k \<noteq> None"
  shows "CoroutineMgr_Schedule k s = Inr (s\<lparr>m_active := Some k, control := k\<rparr>)"
    and "co_ok (s\<lparr>m_active := Some k, control := k\<rparr>)"
proof -
  show "CoroutineMgr_Schedule k s = Inr (s\<lparr>m_active := Some k, control := k\<rparr>)"
    using k by (auto simp: CoroutineMgr_Schedule_def CoroutineMgr_Switch_def sm_find_lin co_okD [OF ok])
  show "co_ok (s\<lparr>m_active := Some k, control := k\<rparr>)"
    by (rule co_okI) (use k co_okD [OF ok] in auto)
qed

lemma Switch_result:
  "co_ok s \<Longrightarrow> CoroutineMgr_Switch k s = Inr (s\<lparr>m_active := Some k, control := k\<rparr>)"
  by (simp add: CoroutineMgr_Switch_def co_okD)

lemma WaitAndSchedule_result:
  assumes ok: "co_ok s" and c: "nodes s (control s) = Some c"
  shows "\<exists>s'. CoroutineMgr_WaitAndSchedule ms s = Inr s' \<and> co_ok s' \<and>
    nodes s' = (nodes s)(control s \<mapsto> c\<lparr>m_state := E_WAIT\<rparr>) \<and>
    timers s' = (timers s)(control s \<mapsto> CExpireMgr_now s + ucast ms) \<and>
    control s' = 0 \<and> m_active s' = Some 0 \<and> staticid s' = staticid s \<and> clock s' = clock s"
proof -
  let ?k = "control s"
  define s1 where "s1 = CExpireMgr_Set (ucast ms) ?k s"
  have t1: "timers s1 = (timers s)(?k \<mapsto> CExpireMgr_now s + ucast ms)"
    unfolding s1_def by (rule Set_timers [OF co_okD(1) [OF ok]])
  have e1: "exp_ok s1" unfolding s1_def by (rule Set_ok [OF co_okD(1) [OF ok]])
  have n1: "m_idtonode s1 = m_idtonode s" by (simp add: s1_def)
  obtain x where s2: "SetState ?k E_WAIT s1 = Inr (s1\<lparr>m_idtonode := x\<rparr>)"
    and n: "map_of x = (nodes s)(?k \<mapsto> c\<lparr>m_state := E_WAIT\<rparr>)" and sx: "sm_sorted x"
    using SetState_result [of s1 ?k c E_WAIT] c co_okD(2) [OF ok] n1 by auto
  let ?s2 = "s1\<lparr>m_idtonode := x\<rparr>"
  have ok2: "co_ok ?s2"
    by (rule co_okI)
      (use e1 sx n c co_okD [OF ok] in
        \<open>auto simp: s1_def t1 [unfolded s1_def] n split: if_splits dest!: co_okD(7) [OF ok]\<close>)
  have k0: "nodes ?s2 0 \<noteq> None" using n co_okD(5) [OF ok] by auto
  have "CoroutineMgr_WaitAndSchedule ms s = CoroutineMgr_Schedule 0 ?s2"
    using c s2 by (simp add: CoroutineMgr_WaitAndSchedule_def co_okD [OF ok] Get_nodes [OF ok]
        co_okD(6) [OF ok c] s1_def)
  then show ?thesis
    using Schedule_result [OF ok2 k0] n t1 by (simp add: s1_def)
qed

lemma Entry_end_result:
  assumes ok: "co_ok s" and c: "nodes s (control s) = Some c" and st: "m_state c \<noteq> E_WAIT"
  shows "\<exists>s'. Entry_end s = Inr s' \<and> co_ok s' \<and>
    nodes s' = (nodes s)(control s \<mapsto> c\<lparr>m_state := E_END\<rparr>) \<and> timers s' = timers s \<and>
    control s' = 0 \<and> m_active s' = Some 0 \<and> staticid s' = staticid s \<and> clock s' = clock s"
proof -
  let ?k = "control s"
  obtain x where s2: "SetState ?k E_END s = Inr (s\<lparr>m_idtonode := x\<rparr>)"
    and n: "map_of x = (nodes s)(?k \<mapsto> c\<lparr>m_state := E_END\<rparr>)" and sx: "sm_sorted x"
    using SetState_result [of s ?k c E_END] c co_okD(2) [OF ok] by auto
  let ?s2 = "s\<lparr>m_idtonode := x\<rparr>"
  have ok2: "co_ok ?s2"
    by (rule co_okI)
      (use sx n c st co_okD [OF ok] in \<open>auto simp: n split: if_splits dest!: co_okD(7) [OF ok]\<close>)
  have k0: "nodes ?s2 0 \<noteq> None" using n co_okD(5) [OF ok] by auto
  have "Entry_end s = CoroutineMgr_Schedule 0 ?s2"
    using s2 by (simp add: Entry_end_def co_okD [OF ok])
  then show ?thesis
    using Schedule_result [OF ok2 k0] n by simp
qed

lemma Create_result:
  assumes ok: "co_ok s" and fresh: "nodes s (staticid s + 1) = None"
  shows "\<exists>s'. CoroutineMgr_Create s = (s', staticid s + 1) \<and> co_ok s' \<and>
    (\<exists>c. nodes s' = (nodes s)(staticid s + 1 \<mapsto> c) \<and> m_state c = E_READY \<and>
       CoroutineContext_GetID c = staticid s + 1 \<and> m_cb (m_req c) = 0) \<and>
    timers s' = timers s \<and> control s' = control s \<and> staticid s' = staticid s + 1 \<and>
    clock s' = clock s"
proof -
  let ?c = "CoroutineContext_new (clock s)"
  define s' where "s' = fst (CoroutineMgr_Create s)"
  have s': "s' = s\<lparr>staticid := staticid s + 1,
      m_idtonode := sm_assign (<) (staticid s + 1)
        (?c\<lparr>m_req := (m_req ?c)\<lparr>req_id := staticid s + 1\<rparr>\<rparr>) (m_idtonode s)\<rparr>"
    using fresh co_okD(2) [OF ok] by (simp add: s'_def CoroutineMgr_Create_def Let_def sm_find_lin)
  have n: "nodes s' = (nodes s)(staticid s + 1 \<mapsto> ?c\<lparr>m_req := (m_req ?c)\<lparr>req_id := staticid s + 1\<rparr>\<rparr>)"
    using co_okD(2) [OF ok] by (simp add: s' sm_assign_lin)
  have "co_ok s'"
    by (rule co_okI)
      (use n co_okD [OF ok] fresh in
        \<open>auto simp: s' CoroutineContext_GetID_def sm_assign_lin split: if_splits dest!: co_okD(7) [OF ok]\<close>)
  moreover have "CoroutineMgr_Create s = (s', staticid s + 1)"
    by (simp add: s'_def CoroutineMgr_Create_def Let_def)
  ultimately show ?thesis
    using n by (auto simp: s' CoroutineContext_GetID_def CoroutineContext_new_def stReqData_new_def)
qed

text \<open>\<^verbatim>\<open>Create\<close> with any counter: a fresh coroutine, or the one that has the id already.\<close>

lemma Create_any:
  assumes "co_ok s"
  shows "\<exists>s' c. CoroutineMgr_Create s = (s', staticid s + 1) \<and> co_ok s' \<and>
    nodes s' = (nodes s)(staticid s + 1 \<mapsto> c) \<and>
    (case nodes s (staticid s + 1) of None \<Rightarrow> m_state c = E_READY | Some c' \<Rightarrow> c = c') \<and>
    timers s' = timers s \<and> control s' = control s"
proof (cases "nodes s (staticid s + 1)")
  case None
  obtain s' c where s': "CoroutineMgr_Create s = (s', staticid s + 1)" "co_ok s'"
      "nodes s' = (nodes s)(staticid s + 1 \<mapsto> c)" "m_state c = E_READY" "timers s' = timers s"
      "control s' = control s"
    using Create_result [OF assms None] by blast
  then show ?thesis using None by auto
next
  case (Some c)
  have "CoroutineContext_GetID c = staticid s + 1" by (rule co_okD(6) [OF assms Some])
  then have same: "c\<lparr>m_req := (m_req c)\<lparr>req_id := staticid s + 1\<rparr>\<rparr> = c"
    by (simp add: CoroutineContext_GetID_def)
  have find: "sm_find (<) (staticid s + 1) (m_idtonode s) = Some c"
    using Some co_okD(2) [OF assms] by (simp add: sm_find_lin)
  let ?s' = "s\<lparr>staticid := staticid s + 1, m_idtonode := sm_assign (<) (staticid s + 1) c (m_idtonode s)\<rparr>"
  have create: "CoroutineMgr_Create s = (?s', staticid s + 1)"
    using same find by (simp add: CoroutineMgr_Create_def Let_def)
  have n: "nodes ?s' = nodes s"
    using Some co_okD(2) [OF assms] by (simp add: sm_assign_lin fun_upd_idem)
  have "co_ok ?s'"
    by (rule co_okI) (use n co_okD [OF assms] in auto)
  then show ?thesis
    using Some n create by (intro exI [of _ ?s'] exI [of _ c]) (simp add: fun_upd_idem)
qed

lemma Destroy_result:
  assumes ok: "co_ok s" and k: "k \<noteq> 0" "k \<noteq> control s" and st: "node_state s k = Some E_END"
  shows "\<exists>s'. CoroutineMgr_Destroy k s = (s', IO_OK) \<and> co_ok s' \<and>
    nodes s' = (nodes s)(k := None) \<and> m_idtonode s' = sm_erase (<) k (m_idtonode s) \<and>
    timers s' = timers s \<and> control s' = control s \<and> m_active s' = m_active s \<and>
    staticid s' = staticid s \<and> clock s' = clock s"
proof -
  let ?s' = "s\<lparr>m_idtonode := sm_erase (<) k (m_idtonode s)\<rparr>"
  have n: "nodes ?s' = (nodes s)(k := None)"
    using co_okD(2) [OF ok] by (simp add: sm_erase_lin)
  have "co_ok ?s'"
    by (rule co_okI)
      (use n k st co_okD [OF ok] in \<open>auto simp: sm_erase_lin split: if_splits dest!: co_okD(7) [OF ok]\<close>)
  then show ?thesis
    using st n co_okD(2) [OF ok] by (auto simp: CoroutineMgr_Destroy_def sm_find_lin)
qed

subsection \<open>Termination of the scheduler pass\<close>

lemma next_id_None: "next_id k m = None \<Longrightarrow> j \<in> fst ` set m \<Longrightarrow> j \<le> k"
  by (induction k m rule: next_id.induct) (auto split: if_splits)

lemma next_id_Some:
  "sm_sorted m \<Longrightarrow> next_id k m = Some j \<Longrightarrow>
   j \<in> fst ` set m \<and> k < j \<and> (\<forall>i \<in> fst ` set m. k < i \<longrightarrow> j \<le> i)"
proof (induction k m rule: next_id.induct)
  case (2 k i c m)
  show ?case
  proof (cases "k < i")
    case True
    with 2 show ?thesis by (auto simp: sm_ok_Cons intro: less_imp_le)
  next
    case False
    with 2 show ?thesis by (auto simp: sm_ok_Cons)
  qed
qed simp

lemma first_id_least:
  "sm_sorted m \<Longrightarrow> first_id m = Some j \<Longrightarrow> j \<in> fst ` set m \<and> (\<forall>i \<in> fst ` set m. j \<le> i)"
  by (cases m) (auto simp: first_id_def sm_ok_Cons intro: less_imp_le)

text \<open>
  What a pass over the ids \<open>P\<close> does to the coroutines: those it visits end up waiting or
  gone, those already waiting stay so, finished ones are destroyed, and neither the others
  nor the main coroutine are touched.
\<close>

definition settled_at :: "bool \<Rightarrow> ENodeState option \<Rightarrow> ENodeState option \<Rightarrow> bool" where
  "settled_at visited a b \<longleftrightarrow>
     (if visited
      then (case a of
          None \<Rightarrow> b = None
        | Some E_END \<Rightarrow> b = None
        | Some E_WAIT \<Rightarrow> b = Some E_WAIT
        | Some E_READY \<Rightarrow> b = None \<or> b = Some E_WAIT)
      else b = a)"

definition settled ::
    "(u32 \<Rightarrow> bool) \<Rightarrow> 'z co_state_scheme \<Rightarrow> 'z co_state_scheme \<Rightarrow> bool" where
  "settled P s s' \<longleftrightarrow> control s' = 0 \<and>
     (\<forall>i. settled_at (P i \<and> i \<noteq> 0) (node_state s i) (node_state s' i))"

lemma settledD:
  "settled P s s' \<Longrightarrow> control s' = 0"
  "settled P s s' \<Longrightarrow> settled_at (P i \<and> i \<noteq> 0) (node_state s i) (node_state s' i)"
  by (simp_all add: settled_def)

lemma settled_extend:
  assumes rest: "settled (\<lambda>i. j \<le> i) t s'"
    and t: "\<And>i. i \<noteq> k \<Longrightarrow> node_state t i = node_state s i"
    and k: "settled_at (k \<noteq> 0) (node_state s k) (node_state t k)"
    and kj: "k < j"
    and between: "\<And>i. k < i \<Longrightarrow> \<not> j \<le> i \<Longrightarrow> node_state s i = None"
  shows "settled (\<lambda>i. k \<le> i) s s'"
proof -
  have "settled_at (k \<le> i \<and> i \<noteq> 0) (node_state s i) (node_state s' i)" for i
  proof -
    have r: "settled_at (j \<le> i \<and> i \<noteq> 0) (node_state t i) (node_state s' i)"
      by (rule settledD(2) [OF rest])
    consider "j \<le> i" "k \<le> i" "i \<noteq> k" | "i = k" "\<not> j \<le> k"
      | "k < i" "\<not> j \<le> i" "i \<noteq> k" "k \<le> i" | "\<not> k \<le> i" "\<not> j \<le> i" "i \<noteq> k"
      using kj by fastforce
    then show ?thesis
    proof cases
      case 1
      then show ?thesis using r t [of i] by simp
    next
      case 2
      then have "node_state s' k = node_state t k" using r by (simp only: settled_at_def) simp
      then show ?thesis using k 2 by simp
    next
      case 3
      then have "node_state s' i = None" "node_state s i = None"
        using r t [of i] between [of i] by (simp_all add: settled_at_def)
      then show ?thesis by (simp only: settled_at_def) simp
    next
      case 4
      then show ?thesis using r t [of i] by (simp only: settled_at_def) simp
    qed
  qed
  then show ?thesis using settledD(1) [OF rest] by (simp add: settled_def)
qed

lemma settled_after_run:
  assumes "settled (\<lambda>i. k \<le> i) t s'" and "k \<noteq> 0"
    and "node_state s k = Some E_READY" and "node_state t k = Some E_WAIT \<or> node_state t k = Some E_END"
    and "\<And>i. i \<noteq> k \<Longrightarrow> node_state t i = node_state s i"
  shows "settled (\<lambda>i. k \<le> i) s s'"
proof -
  have "settled_at (k \<le> i \<and> i \<noteq> 0) (node_state s i) (node_state s' i)" for i
    using settledD(2) [OF assms(1), of i] assms(2-4) assms(5) [of i]
    by (cases "i = k") (auto simp: settled_at_def)
  then show ?thesis using settledD(1) [OF assms(1)] by (simp add: settled_def)
qed

text \<open>
  The contract of the code that runs when a coroutine is resumed: it comes back to the main
  stack with that coroutine waiting or finished, and with no other coroutine's state or
  existence changed; destroying a finished coroutine keeps the invariant \<open>inv\<close>.
\<close>

locale coroutine_runtime =
  fixes run :: "('z, 'k) runner"
    and inv :: "'z co_state_scheme \<times> 'k \<Rightarrow> bool"
  assumes inv_co: "inv x \<Longrightarrow> co_ok (fst x)"
    and run_yields: "inv x \<Longrightarrow> control (fst x) = 0 \<Longrightarrow> k \<noteq> 0 \<Longrightarrow>
      node_state (fst x) k = Some E_READY \<Longrightarrow>
      \<exists>x'. run k ((fst x)\<lparr>m_active := Some k, control := k\<rparr>, snd x) = Inr x' \<and> inv x' \<and>
        control (fst x') = 0 \<and>
        (node_state (fst x') k = Some E_WAIT \<or> node_state (fst x') k = Some E_END) \<and>
        (\<forall>j. j \<noteq> k \<longrightarrow> node_state (fst x') j = node_state (fst x) j)"
    and destroy_inv: "inv x \<Longrightarrow> control (fst x) = 0 \<Longrightarrow> k \<noteq> 0 \<Longrightarrow>
      node_state (fst x) k = Some E_END \<Longrightarrow> inv (fst (CoroutineMgr_Destroy k (fst x)), snd x)"
begin

abbreviation later :: "u32 \<Rightarrow> 'z co_state_scheme \<times> 'k \<Rightarrow> u32 set" where
  "later k x \<equiv> {j \<in> dom (nodes (fst x)). k \<le> j}"

lemma keys_eq: "inv x \<Longrightarrow> fst ` set (m_idtonode (fst x)) = dom (nodes (fst x))"
  by (simp add: dom_map_of_conv_image_fst)

text \<open>One visit of a coroutine that is not ready, given the rest of the pass.\<close>

lemma visit_rest:
  assumes inv: "inv x" and c0: "control (fst x) = 0"
    and k: "k = 0 \<or> node_state (fst x) k = Some E_WAIT \<or> node_state (fst x) k = Some E_END"
    and kn: "nodes (fst x) k \<noteq> None"
    and IH: "\<And>j y. inv y \<Longrightarrow> control (fst y) = 0 \<Longrightarrow> nodes (fst y) j \<noteq> None \<Longrightarrow>
      card (later j y) < card (later k x) \<Longrightarrow>
      \<exists>y'. ScheduleAll_loop run (Some j) y = Some (Inr y') \<and> inv y' \<and>
        settled (\<lambda>i. j \<le> i) (fst y) (fst y')"
  shows "\<exists>x'. ScheduleAll_loop run (Some k) x = Some (Inr x') \<and> inv x' \<and>
    settled (\<lambda>i. k \<le> i) (fst x) (fst x')"
proof -
  define gone where "gone \<longleftrightarrow> k \<noteq> 0 \<and> node_state (fst x) k = Some E_END"
  define y where "y = (if gone then (fst (CoroutineMgr_Destroy k (fst x)), snd x) else x)"
  note ok = inv_co [OF inv]
  have ny: "nodes (fst y) = (if gone then (nodes (fst x))(k := None) else nodes (fst x))"
    and y: "inv y" "control (fst y) = 0"
    using Destroy_result [OF ok, of k] destroy_inv [OF inv c0, of k] inv c0
    by (auto simp: y_def gone_def)
  obtain c where c: "nodes (fst x) k = Some c" using kn by blast
  have loop: "ScheduleAll_loop run (Some k) x =
      ScheduleAll_loop run (next_id k (m_idtonode (fst x))) y"
    using k c co_okD(6) [OF ok c]
    by (subst ScheduleAll_loop.simps) (auto simp: y_def gone_def Get_nodes [OF ok])
  have sorted: "sm_sorted (m_idtonode (fst x))" using co_okD(2) [OF ok] .
  show ?thesis
  proof (cases "next_id k (m_idtonode (fst x))")
    case None
    then have "nodes (fst x) j \<noteq> None \<Longrightarrow> j \<le> k" for j
      using next_id_None [OF None, of j] by (auto simp: keys_eq [OF inv])
    then have "nodes (fst x) j = None" if "k < j" for j using that by force
    then have "settled_at (k \<le> i \<and> i \<noteq> 0) (node_state (fst x) i) (node_state (fst y) i)" for i
      using k ny by (cases "i = k"; cases "k \<le> i") (auto simp: gone_def settled_at_def order_le_less)
    then have "settled (\<lambda>i. k \<le> i) (fst x) (fst y)"
      using y(2) by (simp add: settled_def)
    then show ?thesis
      using loop None y(1) by (simp add: ScheduleAll_loop.simps)
  next
    case (Some j)
    then have j: "nodes (fst x) j \<noteq> None" "k < j" and least: "nodes (fst x) i \<noteq> None \<Longrightarrow> k < i \<Longrightarrow> j \<le> i" for i
      using next_id_Some [OF sorted Some] by (auto simp: keys_eq [OF inv])
    have "later j y \<subseteq> later k x" and "k \<in> later k x - later j y"
      using j ny c by (auto split: if_splits)
    then have "later j y \<subset> later k x" by blast
    moreover have "finite (later k x)"
      by (simp add: finite_dom_map_of)
    ultimately have "card (later j y) < card (later k x)" by (rule psubset_card_mono [rotated])
    moreover have "nodes (fst y) j \<noteq> None"
      using j ny by (cases "j = k") auto
    ultimately obtain y' where y': "ScheduleAll_loop run (Some j) y = Some (Inr y')" "inv y'"
        "settled (\<lambda>i. j \<le> i) (fst y) (fst y')"
      using IH [OF y] by blast
    have between: "nodes (fst x) i = None" if "k < i" "\<not> j \<le> i" for i
      using that least [of i] by blast
    have "settled (\<lambda>i. k \<le> i) (fst x) (fst y')"
      by (rule settled_extend [OF y'(3) _ _ j(2)])
        (use k ny between in \<open>auto simp: gone_def settled_at_def\<close>)
    then show ?thesis
      using loop Some y' by simp
  qed
qed

lemma visit:
  assumes "inv x" and "control (fst x) = 0" and "nodes (fst x) k \<noteq> None"
  shows "\<exists>x'. ScheduleAll_loop run (Some k) x = Some (Inr x') \<and> inv x' \<and>
    settled (\<lambda>i. k \<le> i) (fst x) (fst x')"
  using assms
proof (induction "card (later k x)" arbitrary: k x rule: less_induct)
  case less
  note ok = inv_co [OF less.prems(1)]
  obtain c where c: "nodes (fst x) k = Some c" using less.prems(3) by blast
  show ?case
  proof (cases "k = 0 \<or> m_state c \<noteq> E_READY")
    case True
    then have "k = 0 \<or> node_state (fst x) k = Some E_WAIT \<or> node_state (fst x) k = Some E_END"
      using c by (cases "m_state c") auto
    then show ?thesis
      using visit_rest [OF less.prems(1,2) _ less.prems(3)] less.hyps by blast
  next
    case False
    then have st: "node_state (fst x) k = Some E_READY" and k0: "k \<noteq> 0" using c by auto
    obtain y where y: "run k ((fst x)\<lparr>m_active := Some k, control := k\<rparr>, snd x) = Inr y" "inv y"
        "control (fst y) = 0" "node_state (fst y) k = Some E_WAIT \<or> node_state (fst y) k = Some E_END"
        "\<And>j. j \<noteq> k \<Longrightarrow> node_state (fst y) j = node_state (fst x) j"
      using run_yields [OF less.prems(1,2) k0 st] by blast
    have dom: "nodes (fst y) j = None \<longleftrightarrow> nodes (fst x) j = None" for j
      using y(4) y(5) [of j] st by (cases "j = k") auto
    have later: "later j y = later j x" for j
      using dom by (auto simp: dom_def)
    have "\<exists>y'. ScheduleAll_loop run (Some k) y = Some (Inr y') \<and> inv y' \<and>
        settled (\<lambda>i. k \<le> i) (fst y) (fst y')"
      by (rule visit_rest [OF y(2,3)]) (use y(4) dom c less.hyps later in auto)
    moreover have "ScheduleAll_loop run (Some k) x = ScheduleAll_loop run (Some k) y"
      using k0 c False y(1)
      by (subst ScheduleAll_loop.simps) (simp add: Get_nodes [OF ok] Switch_result [OF ok])
    moreover have "settled (\<lambda>i. k \<le> i) (fst x) s'" if "settled (\<lambda>i. k \<le> i) (fst y) s'" for s'
      by (rule settled_after_run [OF that k0 st y(4,5)])
    ultimately show ?thesis by metis
  qed
qed

text \<open>A whole pass ends, and settles every coroutine but the main one.\<close>

lemma pass_settles:
  assumes inv: "inv x" and c0: "control (fst x) = 0"
  shows "\<exists>x'. ScheduleAll run x = Some (Inr x') \<and> inv x' \<and> settled (\<lambda>_. True) (fst x) (fst x')"
proof (cases "first_id (m_idtonode (fst x))")
  case None
  then have "m_idtonode (fst x) = []" by (auto simp: first_id_def split: list.splits)
  then show ?thesis using co_okD(5) [OF inv_co [OF inv]] by simp
next
  case (Some k)
  then have k: "nodes (fst x) k \<noteq> None" and least: "nodes (fst x) i \<noteq> None \<Longrightarrow> k \<le> i" for i
    using first_id_least [OF co_okD(2) [OF inv_co [OF inv]] Some] by (auto simp: keys_eq [OF inv])
  obtain x' where x': "ScheduleAll_loop run (Some k) x = Some (Inr x')" "inv x'"
      "settled (\<lambda>i. k \<le> i) (fst x) (fst x')"
    using visit [OF inv c0 k] by blast
  have "settled_at (i \<noteq> 0) (node_state (fst x) i) (node_state (fst x') i)" for i
    using settledD(2) [OF x'(3), of i] least [of i]
    by (cases "nodes (fst x) i") (auto simp: settled_at_def split: if_splits)
  then show ?thesis
    using x' Some settledD(1) [OF x'(3)] by (auto simp: ScheduleAll_def settled_def)
qed

end

subsection \<open>The state at program start\<close>

text \<open>Every table empty, the id counter at \<^verbatim>\<open>-1\<close>, no active coroutine.\<close>

definition co_start :: "timeval \<Rightarrow> co_state" where
  "co_start now = \<lparr>clock = now, m_expire_to_id = [], m_id_to_expire = [], m_idtonode = [],
     m_active = None, staticid = -1, control = 0\<rparr>"

lemma Init_result:
  assumes "m_idtonode s = []" and "staticid s = -1" and "m_expire_to_id s = []" and "m_id_to_expire s = []"
  shows "\<exists>s' c. CoroutineMgr_Init s = (s', IO_OK) \<and> co_ok s' \<and> co_live s' \<and> nodes s' = [0 \<mapsto> c] \<and>
    m_state c = E_READY \<and> timers s' = Map.empty \<and> control s' = 0 \<and> staticid s' = 0 \<and> clock s' = clock s"
proof -
  let ?c = "(CoroutineContext_new (clock s))\<lparr>m_req := stReqData_new\<lparr>req_id := 0\<rparr>\<rparr>"
  let ?s' = "s\<lparr>staticid := 0, m_idtonode := [(0, ?c)], control := 0, m_active := Some 0\<rparr>"
  have "CoroutineMgr_Init s = (?s', IO_OK)"
    using assms by (simp add: CoroutineMgr_Init_def CoroutineMgr_Create_def Let_def sm_find_def sm_entry_def
        sm_lower_bound_def sm_assign_def sm_before_def CoroutineContext_new_def)
  moreover have "co_ok ?s'"
    by (rule co_okI) (use assms in \<open>auto simp: exp_ok_empty CoroutineContext_GetID_def split: if_splits\<close>)
  moreover have "co_live ?s'"
    by (simp add: co_live_def CoroutineContext_new_def)
  ultimately show ?thesis
    using assms by (intro exI [of _ ?s'] exI [of _ ?c]) (simp add: CoroutineContext_new_def)
qed

definition example_main :: co_state where
  "example_main = fst (CoroutineMgr_Init (co_start \<lparr>tv_sec = 1, tv_usec = 0\<rparr>))"

lemma example_main_facts:
  "co_ok example_main" "co_live example_main" "\<exists>c. nodes example_main = [0 \<mapsto> c] \<and> m_state c = E_READY"
  "timers example_main = Map.empty" "control example_main = 0" "staticid example_main = 0"
  using Init_result [of "co_start \<lparr>tv_sec = 1, tv_usec = 0\<rparr>"]
  by (auto simp: example_main_def co_start_def)

text \<open>One coroutine created and switched to.\<close>

definition example_running :: co_state where
  "example_running = (fst (CoroutineMgr_Create example_main))\<lparr>m_active := Some 1, control := 1\<rparr>"

lemma example_running_facts:
  "co_ok example_running" "co_live example_running" "control example_running = 1"
  "\<exists>c. nodes example_running 1 = Some c \<and> m_state c = E_READY" "timers example_running = Map.empty"
proof -
  have "nodes example_main (staticid example_main + 1) = None"
    using example_main_facts(3,6) by auto
  then obtain s' c where s': "CoroutineMgr_Create example_main = (s', staticid example_main + 1)" "co_ok s'"
      "nodes s' = (nodes example_main)(staticid example_main + 1 \<mapsto> c)" "m_state c = E_READY"
      "timers s' = timers example_main"
    using Create_result [OF example_main_facts(1)] by blast
  have ok: "co_ok (s'\<lparr>m_active := Some 1, control := 1\<rparr>)"
    by (rule Schedule_result(2) [OF s'(2)]) (simp add: s'(3) example_main_facts(6))
  have r: "example_running = s'\<lparr>m_active := Some 1, control := 1\<rparr>"
    by (simp add: example_running_def s'(1))
  show "co_ok example_running" "control example_running = 1"
    "\<exists>c. nodes example_running 1 = Some c \<and> m_state c = E_READY" "timers example_running = Map.empty"
    using ok s' example_main_facts(4,6) by (simp_all add: r)
  have "node_state example_running k = Some E_READY \<or> node_state example_running k = None" for k
    using s'(3,4) example_main_facts(3,6) by (auto simp: r split: if_splits)
  then show "co_live example_running"
    using co_okD(2) [OF ok] by (simp add: r [symmetric] co_live_iff) (metis ENodeState.distinct(1) option.distinct(1) option.sel)
qed

subsection \<open>Properties\<close>

text \<open>
  \<^verbatim>\<open>Init\<close> on the state of program start makes the main coroutine with id 0, running and
  active, and establishes the invariant; a second call fails and changes nothing.
\<close>

theorem init_establishes:
  "\<exists>s c. CoroutineMgr_Init (co_start now) = (s, IO_OK) \<and> co_ok s \<and> co_live s \<and> nodes s = [0 \<mapsto> c] \<and>
     m_state c = E_READY \<and> control s = 0 \<and> m_active s = Some 0 \<and> CoroutineMgr_Init s = (s, IO_ERR)"
proof -
  obtain s c where s: "CoroutineMgr_Init (co_start now) = (s, IO_OK)" "co_ok s" "co_live s"
      "nodes s = [0 \<mapsto> c]" "m_state c = E_READY" "control s = 0"
    using Init_result [of "co_start now"] by (auto simp: co_start_def)
  then have "nodes s 0 \<noteq> None" by simp
  then have "m_idtonode s \<noteq> []" by auto
  then show ?thesis
    using s co_okD(3) [OF s(2)] by (auto simp: CoroutineMgr_Init_def)
qed

text \<open>
  C20: Waiting suspends the running coroutine and nothing else: it is put to sleep with a timer
  at now plus the wait, the main coroutine runs, every other coroutine and timer is as before,
  and no sleeper is left without a timer.
\<close>

theorem wait_suspends:
  assumes "co_ok s" and "co_live s"
  shows "\<exists>s' c. CoroutineMgr_WaitAndSchedule ms s = Inr s' \<and> co_ok s' \<and> co_live s' \<and>
    nodes s (control s) = Some c \<and> nodes s' = (nodes s)(control s \<mapsto> c\<lparr>m_state := E_WAIT\<rparr>) \<and>
    timers s' = (timers s)(control s \<mapsto> CExpireMgr_now s + ucast ms) \<and>
    control s' = 0 \<and> m_active s' = Some 0"
proof -
  obtain c where c: "nodes s (control s) = Some c" using co_okD(4) [OF assms(1)] by blast
  obtain s' where s': "CoroutineMgr_WaitAndSchedule ms s = Inr s'" "co_ok s'"
      "nodes s' = (nodes s)(control s \<mapsto> c\<lparr>m_state := E_WAIT\<rparr>)"
      "timers s' = (timers s)(control s \<mapsto> CExpireMgr_now s + ucast ms)" "control s' = 0" "m_active s' = Some 0"
    using WaitAndSchedule_result [OF assms(1) c] by blast
  have "co_live s'"
    using assms s'(2-4) by (auto simp: co_live_iff co_okD split: if_splits)
  then show ?thesis using c s' by blast
qed

theorem wait_suspends_witness:
  "\<exists>s'. CoroutineMgr_WaitAndSchedule 100 example_running = Inr s' \<and> control s' = 0 \<and>
    node_state s' 1 = Some E_WAIT \<and> timers s' 1 \<noteq> None"
  using wait_suspends [OF example_running_facts(1,2), of 100] example_running_facts(3) by auto

text \<open>
  Waking an existing coroutine makes it ready and disarms its timer, and leaves every other
  coroutine and timer alone; waking an id with no entry dereferences a null pointer.
\<close>

theorem set_ready_wakes:
  assumes "co_ok s" and "co_live s"
  shows "case nodes s k of
      None \<Rightarrow> CoroutineMgr_SetReady k s = Inl Null_Deref
    | Some c \<Rightarrow> (\<exists>s'. CoroutineMgr_SetReady k s = Inr s' \<and> co_ok s' \<and> co_live s' \<and>
        nodes s' = (nodes s)(k \<mapsto> c\<lparr>m_state := E_READY\<rparr>) \<and> timers s' = (timers s)(k := None) \<and>
        control s' = control s)"
proof (cases "nodes s k")
  case None
  then show ?thesis
    by (simp add: CoroutineMgr_SetReady_def SetState_def update_node_def Get_nodes [OF assms(1)])
next
  case (Some c)
  obtain s' where s': "CoroutineMgr_SetReady k s = Inr s'" "co_ok s'"
      "nodes s' = (nodes s)(k \<mapsto> c\<lparr>m_state := E_READY\<rparr>)" "timers s' = (timers s)(k := None)"
      "control s' = control s"
    using SetReady_result [OF assms(1) Some] by blast
  moreover have "co_live s'"
    using assms s'(2-4) by (auto simp: co_live_iff co_okD split: if_splits)
  ultimately show ?thesis using Some by auto
qed

theorem set_ready_wakes_witness:
  "CoroutineMgr_SetReady 5 example_main = Inl Null_Deref"
  using set_ready_wakes [OF example_main_facts(1,2), of 5] example_main_facts(3) by auto

text \<open>
  C32: \<^verbatim>\<open>Create\<close> returns the next id. When no entry has it, a ready coroutine with that id is
  added and nothing else changes; when one has it, which is after the counter has wrapped and
  then hands out the main coroutine first, the caller gets that coroutine, running or not.
\<close>

theorem create_next_id:
  assumes "co_ok s" and "co_live s"
  shows "\<exists>s' c. CoroutineMgr_Create s = (s', staticid s + 1) \<and> co_ok s' \<and> co_live s' \<and>
    nodes s' = (nodes s)(staticid s + 1 \<mapsto> c) \<and>
    (case nodes s (staticid s + 1) of None \<Rightarrow> m_state c = E_READY | Some c' \<Rightarrow> c = c') \<and>
    timers s' = timers s \<and> control s' = control s"
proof -
  obtain s' c where s': "CoroutineMgr_Create s = (s', staticid s + 1)" "co_ok s'"
      "nodes s' = (nodes s)(staticid s + 1 \<mapsto> c)"
      "case nodes s (staticid s + 1) of None \<Rightarrow> m_state c = E_READY | Some c' \<Rightarrow> c = c'"
      "timers s' = timers s" "control s' = control s"
    using Create_any [OF assms(1)] by blast
  moreover have "co_live s'"
    using assms s'(2-5) by (auto simp: co_live_iff co_okD split: if_splits option.splits)
  ultimately show ?thesis by blast
qed

theorem create_next_id_witness:
  "\<exists>s'. CoroutineMgr_Create example_main = (s', 1) \<and> co_ok s' \<and> node_state s' 1 = Some E_READY"
  using create_next_id [OF example_main_facts(1,2)] example_main_facts(3,6) by auto

text \<open>
  When its callback returns, the running coroutine is marked finished, with no timer, and
  the main coroutine runs; the next pass may destroy it, and nobody else has changed.
\<close>

theorem entry_end_finishes:
  assumes "co_ok s" and "co_live s" and "node_state s (control s) \<noteq> Some E_WAIT" and "control s \<noteq> 0"
  shows "\<exists>s' c. Entry_end s = Inr s' \<and> co_ok s' \<and> co_live s' \<and> nodes s (control s) = Some c \<and>
    nodes s' = (nodes s)(control s \<mapsto> c\<lparr>m_state := E_END\<rparr>) \<and> timers s' = timers s \<and>
    timers s' (control s) = None \<and> control s' = 0 \<and>
    (\<exists>t. CoroutineMgr_Destroy (control s) s' = (t, IO_OK) \<and> co_ok t \<and> nodes t = (nodes s)(control s := None))"
proof -
  obtain c where c: "nodes s (control s) = Some c" using co_okD(4) [OF assms(1)] by blast
  then have st: "m_state c \<noteq> E_WAIT" using assms(3) by auto
  obtain s' where s': "Entry_end s = Inr s'" "co_ok s'"
      "nodes s' = (nodes s)(control s \<mapsto> c\<lparr>m_state := E_END\<rparr>)" "timers s' = timers s" "control s' = 0"
    using Entry_end_result [OF assms(1) c st] by blast
  have live: "co_live s'"
    using assms(1,2) s'(2-4) by (auto simp: co_live_iff co_okD split: if_splits)
  have no: "timers s' (control s) = None"
    using co_okD(7) [OF assms(1), of "control s"] c st s'(4) by (cases "timers s (control s)") auto
  obtain t where "CoroutineMgr_Destroy (control s) s' = (t, IO_OK)" "co_ok t"
      "nodes t = (nodes s')(control s := None)"
    using Destroy_result [OF s'(2), of "control s"] assms(4) s'(3,5) by auto
  then show ?thesis
    using c s' live no by auto
qed

theorem entry_end_finishes_witness:
  "\<exists>s'. Entry_end example_running = Inr s' \<and> node_state s' 1 = Some E_END"
  using entry_end_finishes [OF example_running_facts(1,2)] example_running_facts(3,4) by auto

end
