(* ===== verification/FdMgr.thy ===== *)
theory FdMgr
  imports CoroutineMgr "HOL-Library.List_Lexorder" "HOL-Library.Char_ord"
begin

section \<open>The descriptor table (CFdMgr, lib/eventmgr/FdMgr.h)\<close>

text \<open>
  Connections are kept in a \<^verbatim>\<open>std::map\<close> whose key has two parts, the remote address and the
  descriptor, and whose comparator calls two keys equivalent when either part is filled in
  on both sides and equal. The code stores a key with the descriptor alone for sockets it
  listens on or accepts, and with both parts for connections it opens; it searches by one
  part, leaving the other empty.

  The lemmas show on which keys this comparator is a strict weak order, hence which searches
  find what was stored, and what exactly a search by descriptor returns when connections
  with an address are in the table. That last result holds for every shape of the tree
  behind the map, by \<open>tree_find_list\<close>.
\<close>

subsection \<open>Keys\<close>

instantiation EPORTTYPE :: linorder
begin

definition less_EPORTTYPE :: "EPORTTYPE \<Rightarrow> EPORTTYPE \<Rightarrow> bool" where
  "less_EPORTTYPE a b \<longleftrightarrow> a = PORT_TCP \<and> b = PORT_UDP"

definition less_eq_EPORTTYPE :: "EPORTTYPE \<Rightarrow> EPORTTYPE \<Rightarrow> bool" where
  "less_eq_EPORTTYPE a b \<longleftrightarrow> a = PORT_TCP \<or> b = PORT_UDP"

instance
proof
  fix x y z :: EPORTTYPE
  show "(x < y) = (x \<le> y \<and> \<not> y \<le> x)"
    by (cases x; cases y) (simp_all add: less_EPORTTYPE_def less_eq_EPORTTYPE_def)
  show "x \<le> x" by (cases x) (simp_all add: less_eq_EPORTTYPE_def)
  show "x \<le> y \<Longrightarrow> y \<le> z \<Longrightarrow> x \<le> z" by (auto simp: less_eq_EPORTTYPE_def)
  show "x \<le> y \<Longrightarrow> y \<le> x \<Longrightarrow> x = y" by (auto simp: less_eq_EPORTTYPE_def)
  show "x \<le> y \<or> y \<le> x" by (cases x; cases y) (simp_all add: less_eq_EPORTTYPE_def)
qed

end

datatype stIpPort = IpPort (ip: string) (port: u16) (type: EPORTTYPE)

definition stIpPort_new :: stIpPort where
  "stIpPort_new = IpPort [] 0 PORT_UDP"

definition stIpPort_eq :: "stIpPort \<Rightarrow> stIpPort \<Rightarrow> bool" where
  "stIpPort_eq a b \<longleftrightarrow> ip a = ip b \<and> port a = port b \<and> type a = type b"

definition stIpPort_neq :: "stIpPort \<Rightarrow> stIpPort \<Rightarrow> bool" where
  "stIpPort_neq a b \<longleftrightarrow> \<not> stIpPort_eq a b"

lemma stIpPort_eq_iff [simp]: "stIpPort_eq a b \<longleftrightarrow> a = b" "stIpPort_neq a b \<longleftrightarrow> a \<noteq> b"
  by (cases a; cases b; auto simp: stIpPort_eq_def stIpPort_neq_def)+

definition stIpPort_empty :: "stIpPort \<Rightarrow> bool" where
  "stIpPort_empty a \<longleftrightarrow> ip a = [] \<and> port a = 0"

text \<open>\<^verbatim>\<open>stIpPort::operator<\<close>: a linear order, so it is the order of the type.\<close>

definition ip_port_less :: "stIpPort \<Rightarrow> stIpPort \<Rightarrow> bool" where
  "ip_port_less a b \<longleftrightarrow>
     (if ip a \<noteq> ip b then ip a < ip b
      else if port a \<noteq> port b then port a < port b
      else if type a \<noteq> type b then type a < type b
      else False)"

instantiation stIpPort :: linorder
begin

definition less_stIpPort :: "stIpPort \<Rightarrow> stIpPort \<Rightarrow> bool" where
  "less_stIpPort a b \<longleftrightarrow> ip_port_less a b"

definition less_eq_stIpPort :: "stIpPort \<Rightarrow> stIpPort \<Rightarrow> bool" where
  "less_eq_stIpPort a b \<longleftrightarrow> a < b \<or> a = b"

instance
proof
  fix x y z :: stIpPort
  show "(x < y) = (x \<le> y \<and> \<not> y \<le> x)"
    by (auto simp: less_eq_stIpPort_def less_stIpPort_def ip_port_less_def split: if_splits)
  show "x \<le> x" by (simp add: less_eq_stIpPort_def)
  show "x \<le> y \<Longrightarrow> y \<le> z \<Longrightarrow> x \<le> z"
    unfolding less_eq_stIpPort_def less_stIpPort_def ip_port_less_def
    by (auto split: if_splits dest: less_trans)
  show "x \<le> y \<Longrightarrow> y \<le> x \<Longrightarrow> x = y"
    by (auto simp: less_eq_stIpPort_def less_stIpPort_def ip_port_less_def split: if_splits)
  show "x \<le> y \<or> y \<le> x"
    by (cases x; cases y) (auto simp: less_eq_stIpPort_def less_stIpPort_def ip_port_less_def split: if_splits)
qed

end

lemma new_less: "\<not> stIpPort_empty a \<Longrightarrow> stIpPort_new < a"
  by (cases a; cases "ip a")
    (auto simp: stIpPort_empty_def stIpPort_new_def less_stIpPort_def ip_port_less_def word_neq_0_conv)

lemma new_empty [simp]: "stIpPort_empty stIpPort_new"
  by (simp add: stIpPort_empty_def stIpPort_new_def)

datatype stFdKey = FdKey (ip_port: stIpPort) (socket_fd: int)

definition stFd_empty :: "int \<Rightarrow> bool" where
  "stFd_empty n \<longleftrightarrow> n < 0"

text \<open>\<^verbatim>\<open>stFdKey::operator<\<close>, test by test.\<close>

definition key_less :: "stFdKey \<Rightarrow> stFdKey \<Rightarrow> bool" where
  "key_less a b \<longleftrightarrow>
     (if \<not> stIpPort_empty (ip_port a) \<and> \<not> stIpPort_empty (ip_port b) \<and> ip_port a = ip_port b
      then False
      else if \<not> stFd_empty (socket_fd a) \<and> \<not> stFd_empty (socket_fd b) \<and> socket_fd a = socket_fd b
      then False
      else if ip_port a \<noteq> ip_port b then ip_port a < ip_port b
      else if socket_fd a \<noteq> socket_fd b then socket_fd a < socket_fd b
      else False)"

definition fd_key :: "int \<Rightarrow> stFdKey" where
  "fd_key n = FdKey stIpPort_new n"

definition ip_key :: "string \<Rightarrow> u16 \<Rightarrow> EPORTTYPE \<Rightarrow> stFdKey" where
  "ip_key i p t = FdKey (IpPort i p t) (-1)"

subsection \<open>The table\<close>

record stSendRecv =
  sr_id :: u32
  sr_data :: CMemData

datatype E_FD_TYPE = E_LISTEN | E_SERVER_CONN | E_OTHER | E_CONNECT

record stFdData =
  check :: fnptr
  seq :: fnptr
  seq_to_coroutine :: "(int, stSendRecv) smap"
  fd_recvdata :: CMemData
  remote :: sockaddr_in
  port_type :: EPORTTYPE
  fd_state :: E_FD_TYPE
  context_id :: u32
  last_op_ret :: EIORESULT
  fd :: int

text \<open>
  The constructor leaves \<^verbatim>\<open>remote\<close> and \<^verbatim>\<open>last_op_ret\<close> as they were in the memory it is given,
  which is the argument \<open>raw\<close>.
\<close>

definition stFdData_new :: "stFdData \<Rightarrow> stFdData" where
  "stFdData_new raw = raw\<lparr>check := 0, seq := 0, seq_to_coroutine := [], fd_recvdata := CMemData_new,
     port_type := PORT_UDP, fd_state := E_OTHER, context_id := 0, fd := -1\<rparr>"

definition stFdData_less :: "stFdData \<Rightarrow> stFdData \<Rightarrow> bool" where
  "stFdData_less d obj \<longleftrightarrow> fd d < fd obj"

definition stFdData_Clear :: "stFdData \<Rightarrow> stFdData" where
  "stFdData_Clear d = d\<lparr>last_op_ret := IO_OK\<rparr>"

record fd_state_rec = co_state +
  m_fd_to_data :: "(stFdKey, stFdData) smap"

text \<open>
  A pointer to an entry is its stored key; \<open>fd_write\<close> writes through it. \<open>raw\<close> is the memory
  a new entry is made in.
\<close>

definition fd_write ::
    "stFdKey \<Rightarrow> (stFdData \<Rightarrow> stFdData) \<Rightarrow> 'z fd_state_rec_scheme \<Rightarrow> 'z fd_state_rec_scheme" where
  "fd_write key f s =
     s\<lparr>m_fd_to_data := map (\<lambda>(k, d). if k = key then (k, f d) else (k, d)) (m_fd_to_data s)\<rparr>"

definition fd_read :: "stFdKey \<Rightarrow> 'z fd_state_rec_scheme \<Rightarrow> stFdData option" where
  "fd_read key s = map_of (m_fd_to_data s) key"

definition CFdMgr_Exist :: "int \<Rightarrow> 'z fd_state_rec_scheme \<Rightarrow> (stFdKey \<times> stFdData) option" where
  "CFdMgr_Exist n s = sm_entry key_less (fd_key n) (m_fd_to_data s)"

definition CFdMgr_Exist_ip ::
    "string \<Rightarrow> u16 \<Rightarrow> EPORTTYPE \<Rightarrow> 'z fd_state_rec_scheme \<Rightarrow> (stFdKey \<times> stFdData) option" where
  "CFdMgr_Exist_ip i p t s = sm_entry key_less (ip_key i p t) (m_fd_to_data s)"

definition CFdMgr_Get :: "int \<Rightarrow> 'z fd_state_rec_scheme \<Rightarrow> stFdKey option" where
  "CFdMgr_Get n s = map_option fst (CFdMgr_Exist n s)"

definition CFdMgr_Get_ip ::
    "string \<Rightarrow> u16 \<Rightarrow> EPORTTYPE \<Rightarrow> 'z fd_state_rec_scheme \<Rightarrow> stFdKey option" where
  "CFdMgr_Get_ip i p t s = map_option fst (CFdMgr_Exist_ip i p t s)"

definition CFdMgr_insert ::
    "stFdKey \<Rightarrow> stFdData \<Rightarrow> 'z fd_state_rec_scheme \<Rightarrow> 'z fd_state_rec_scheme \<times> stFdKey option" where
  "CFdMgr_insert key d s = (case sm_insert key_less key d (m_fd_to_data s) of
     (m, ok) \<Rightarrow> if \<not> ok then (s, None) else (s\<lparr>m_fd_to_data := m\<rparr>, Some key))"

definition CFdMgr_Add ::
    "stFdData \<Rightarrow> int \<Rightarrow> 'z fd_state_rec_scheme \<Rightarrow> 'z fd_state_rec_scheme \<times> stFdKey option" where
  "CFdMgr_Add raw n s = CFdMgr_insert (fd_key n) ((stFdData_new raw)\<lparr>fd := n\<rparr>) s"

definition CFdMgr_Add_ip ::
    "stFdData \<Rightarrow> int \<Rightarrow> string \<Rightarrow> u16 \<Rightarrow> EPORTTYPE \<Rightarrow> 'z fd_state_rec_scheme \<Rightarrow>
     'z fd_state_rec_scheme \<times> stFdKey option" where
  "CFdMgr_Add_ip raw n i p t s =
     CFdMgr_insert (FdKey (IpPort i p t) n) ((stFdData_new raw)\<lparr>fd := n\<rparr>) s"

definition CFdMgr_Destroy :: "int \<Rightarrow> 'z fd_state_rec_scheme \<Rightarrow> 'z fd_state_rec_scheme \<times> EIORESULT" where
  "CFdMgr_Destroy n s = (case CFdMgr_Exist n s of
     None \<Rightarrow> (s, IO_ERR)
   | Some _ \<Rightarrow> (s\<lparr>m_fd_to_data := sm_erase key_less (fd_key n) (m_fd_to_data s)\<rparr>, IO_OK))"

subsection \<open>Keys the comparator orders\<close>

text \<open>
  What the code stores: open descriptors, each once, alone or with an address, each address
  once.
\<close>

definition key_wf :: "stFdKey \<Rightarrow> bool" where
  "key_wf k \<longleftrightarrow> 0 \<le> socket_fd k \<and> (ip_port k = stIpPort_new \<or> \<not> stIpPort_empty (ip_port k))"

definition consistent :: "stFdKey set \<Rightarrow> bool" where
  "consistent K \<longleftrightarrow> (\<forall>a \<in> K. key_wf a) \<and>
     (\<forall>a \<in> K. \<forall>b \<in> K. a \<noteq> b \<longrightarrow> socket_fd a \<noteq> socket_fd b \<and>
        (\<not> stIpPort_empty (ip_port a) \<longrightarrow> ip_port a \<noteq> ip_port b))"

lemma consistentD:
  assumes "consistent K" and "a \<in> K" and "b \<in> K"
  shows "0 \<le> socket_fd a" and "ip_port a = stIpPort_new \<or> \<not> stIpPort_empty (ip_port a)"
    and "socket_fd a = socket_fd b \<Longrightarrow> a = b"
    and "ip_port a = ip_port b \<Longrightarrow> ip_port a \<noteq> stIpPort_new \<Longrightarrow> a = b"
  using assms unfolding consistent_def key_wf_def by blast+

lemma new_least:
  "consistent K \<Longrightarrow> a \<in> K \<Longrightarrow> stIpPort_new \<le> ip_port a"
  using consistentD(2) [of K a a] new_less [of "ip_port a"] by auto

lemma key_less_lex:
  assumes K: "consistent K" "a \<in> K" "b \<in> K"
  shows "key_less a b \<longleftrightarrow>
    ip_port a < ip_port b \<or> ip_port a = ip_port b \<and> socket_fd a < socket_fd b"
proof (cases "a = b")
  case False
  then have "socket_fd a \<noteq> socket_fd b" "ip_port a = ip_port b \<longrightarrow> ip_port a = stIpPort_new"
    using consistentD(3,4) [OF K] by blast+
  then show ?thesis
    using new_empty by (auto simp: key_less_def)
qed (simp add: key_less_def)

lemma consistent_linear: "consistent K \<Longrightarrow> strict_linear key_less K"
proof
  fix a b c
  assume K: "consistent K" and a: "a \<in> K" and b: "b \<in> K"
  show "\<not> key_less a a" by (simp add: key_less_def)
  show "a \<noteq> b \<Longrightarrow> key_less a b \<or> key_less b a"
    using consistentD(3) [OF K a b] linorder_less_linear [of "ip_port a" "ip_port b"]
      linorder_less_linear [of "socket_fd a" "socket_fd b"]
    by (auto simp: key_less_lex [OF K] a b)
  assume c: "c \<in> K"
  show "key_less a b \<Longrightarrow> key_less b c \<Longrightarrow> key_less a c"
    by (auto simp: key_less_lex [OF K] a b c)
  show "\<not> key_less a b \<Longrightarrow> \<not> key_less b a \<Longrightarrow> \<not> key_less b c \<Longrightarrow> \<not> key_less c b \<Longrightarrow> \<not> key_less a c"
    by (auto simp: key_less_lex [OF K] a b c)
qed

subsection \<open>Search by address\<close>

lemma key_less_ip:
  assumes K: "consistent K" "a \<in> K" and ne: "\<not> stIpPort_empty (IpPort i p t)"
  shows "key_less a (ip_key i p t) \<longleftrightarrow> ip_port a < IpPort i p t"
    and "key_less (ip_key i p t) a \<longleftrightarrow> IpPort i p t < ip_port a"
  using consistentD(2) [OF K K(2)] ne
  by (auto simp: key_less_def ip_key_def stFd_empty_def)

lemma ip_probe_weak:
  assumes K: "consistent K" and ne: "\<not> stIpPort_empty (IpPort i p t)"
  shows "strict_weak key_less (insert (ip_key i p t) K)"
proof -
  let ?p = "ip_key i p t"
  have pfd: "socket_fd ?p = -1" and pip: "ip_port ?p = IpPort i p t" by (simp_all add: ip_key_def)
  have notin: "?p \<notin> K" using consistentD(1) [OF K, of ?p ?p] pfd by auto
  have lex: "key_less x y \<longleftrightarrow> ip_port x < ip_port y \<or>
      ip_port x = ip_port y \<and> x \<noteq> ?p \<and> y \<noteq> ?p \<and> socket_fd x < socket_fd y"
    if "x \<in> insert ?p K" "y \<in> insert ?p K" for x y
  proof -
    consider "x = ?p" "y = ?p" | "x = ?p" "y \<noteq> ?p" "y \<in> K" | "x \<noteq> ?p" "x \<in> K" "y = ?p"
      | "x \<noteq> ?p" "x \<in> K" "y \<noteq> ?p" "y \<in> K"
      using \<open>x \<in> insert ?p K\<close> \<open>y \<in> insert ?p K\<close> by blast
    then show ?thesis
    proof cases
      case 1
      then show ?thesis by (simp add: key_less_def)
    next
      case 2
      then show ?thesis using key_less_ip(2) [OF K _ ne, of y] pip by simp
    next
      case 3
      then show ?thesis using key_less_ip(1) [OF K _ ne, of x] pip by simp
    next
      case 4
      then show ?thesis using key_less_lex [OF K, of x y] by simp
    qed
  qed
  have incomp: "ip_port x = ip_port y \<and> (x = ?p \<or> y = ?p \<or> socket_fd x = socket_fd y)"
    if "x \<in> insert ?p K" "y \<in> insert ?p K" "\<not> key_less x y" "\<not> key_less y x" for x y
    using that(3,4) linorder_less_linear [of "ip_port x" "ip_port y"]
      linorder_less_linear [of "socket_fd x" "socket_fd y"]
    unfolding lex [OF that(1,2)] lex [OF that(2,1)] by auto
  have same: "x = y" if "x \<in> K" "y \<in> K" "ip_port x = ip_port ?p" "ip_port y = ip_port ?p" for x y
    using consistentD(4) [OF K that(1,2)] that(3,4) ne pip new_empty by metis
  show ?thesis
  proof
    fix a b c
    assume a: "a \<in> insert ?p K"
    show "\<not> key_less a a" by (simp add: key_less_def)
    assume b: "b \<in> insert ?p K" and c: "c \<in> insert ?p K"
    show "key_less a b \<Longrightarrow> key_less b c \<Longrightarrow> key_less a c"
      unfolding lex [OF a b] lex [OF b c] lex [OF a c] by auto
    show "\<not> key_less a c"
      if "\<not> key_less a b" "\<not> key_less b a" "\<not> key_less b c" "\<not> key_less c b"
    proof
      assume ac: "key_less a c"
      have ab: "ip_port a = ip_port b \<and> (a = ?p \<or> b = ?p \<or> socket_fd a = socket_fd b)"
        by (rule incomp [OF a b that(1,2)])
      have bc: "ip_port b = ip_port c \<and> (b = ?p \<or> c = ?p \<or> socket_fd b = socket_fd c)"
        by (rule incomp [OF b c that(3,4)])
      have eq: "ip_port a = ip_port c" using ab bc by (elim conjE) (rule trans)
      have n: "a \<noteq> ?p" "c \<noteq> ?p" "socket_fd a < socket_fd c"
        using ac unfolding lex [OF a c] eq by simp_all
      show False
      proof (cases "b = ?p")
        case True
        then have "a = c"
          using ab eq n(1,2) a c by (intro same) simp_all
        then show ?thesis using n(3) by simp
      next
        case False
        then have "socket_fd a = socket_fd c" using ab bc n(1,2) by simp
        then show ?thesis using n(3) by simp
      qed
    qed
  qed
qed

subsection \<open>Search by descriptor\<close>

lemma key_less_fd:
  assumes K: "consistent K" "a \<in> K" and n: "0 \<le> n"
  shows "key_less a (fd_key n) \<longleftrightarrow> ip_port a = stIpPort_new \<and> socket_fd a < n"
    and "key_less (fd_key n) a \<longleftrightarrow>
      socket_fd a \<noteq> n \<and> (ip_port a \<noteq> stIpPort_new \<or> n < socket_fd a)"
  using consistentD(1,2) [OF K K(2)] n new_less [of "ip_port a"]
  by (auto simp: key_less_def fd_key_def stFd_empty_def)

definition fd_visible :: "stFdKey set \<Rightarrow> stFdKey \<Rightarrow> bool" where
  "fd_visible K k \<longleftrightarrow> ip_port k = stIpPort_new \<or>
     (\<forall>j \<in> K. if ip_port j = stIpPort_new then socket_fd j < socket_fd k
              else ip_port k \<le> ip_port j)"

lemma fd_entry_iff:
  assumes K: "consistent (fst ` set m)" and ok: "sm_ok key_less m" and n: "0 \<le> n"
  shows "sm_entry key_less (fd_key n) m = Some (k, d) \<longleftrightarrow>
    (k, d) \<in> set m \<and> socket_fd k = n \<and> fd_visible (fst ` set m) k"
proof -
  let ?q = "fd_key n" and ?K = "fst ` set m"
  note less = key_less_fd [OF K _ n]
  show ?thesis
  proof (cases "sm_lower_bound key_less ?q m")
    case Nil
    have "sm_before key_less ?q m = m" using sm_split [of m key_less ?q] Nil by simp
    then have "key_less (fst e) ?q" if "e \<in> set m" for e
      using sm_before_less [of e key_less ?q m] that by simp
    then have "\<not> ((k, d) \<in> set m \<and> socket_fd k = n)"
      using less(1) [of k] by (metis fst_conv image_eqI less_irrefl)
    then show ?thesis using Nil by (auto simp: sm_entry_def)
  next
    case (Cons f fs)
    have m: "m = sm_before key_less ?q m @ f # fs" using sm_split [of m key_less ?q] Cons by simp
    have f: "f \<in> set m" "\<not> key_less (fst f) ?q"
      using sm_lower_bound_hd [OF Cons] m by (metis in_set_conv_decomp, blast)
    have pos: "key_less (fst e) ?q \<or> e = f \<or> key_less (fst f) (fst e)" if "e \<in> set m" for e
    proof -
      have "e \<in> set (sm_before key_less ?q m) \<or> e \<in> set (f # fs)"
        using that m by (metis UnE set_append)
      moreover have "sm_ok key_less (f # fs)"
        using ok m by (metis sm_ok_append)
      ultimately show ?thesis
        using sm_before_less [of e key_less ?q m] by (auto simp: sm_ok_Cons)
    qed
    have fK: "fst f \<in> ?K" using f(1) by simp
    have entry: "sm_entry key_less ?q m = Some (k, d) \<longleftrightarrow> f = (k, d) \<and> socket_fd k = n"
      using f(2) less(1,2) [OF fK] Cons by (auto simp: sm_entry_def)
    show ?thesis
    proof (cases "f = (k, d)")
      case True
      have "fd_visible ?K k" if "socket_fd k = n" "ip_port k \<noteq> stIpPort_new"
      proof -
        have "if ip_port j = stIpPort_new then socket_fd j < socket_fd k else ip_port k \<le> ip_port j"
          if "j \<in> ?K" for j
        proof -
          obtain e where e: "e \<in> set m" "j = fst e" using \<open>j \<in> ?K\<close> by blast
          consider "key_less j ?q" | "j = k" | "key_less k j"
            using pos [OF e(1)] True e(2) by auto
          then show ?thesis
          proof cases
            case 1
            then show ?thesis using less(1) [OF \<open>j \<in> ?K\<close>] \<open>socket_fd k = n\<close> by simp
          next
            case 2
            then show ?thesis using \<open>ip_port k \<noteq> stIpPort_new\<close> by simp
          next
            case 3
            have kK: "k \<in> ?K" using fK True by simp
            have "ip_port k \<le> ip_port j" using 3 key_less_lex [OF K kK \<open>j \<in> ?K\<close>] by auto
            moreover have "stIpPort_new < ip_port k"
              using new_least [OF K kK] \<open>ip_port k \<noteq> stIpPort_new\<close> by simp
            ultimately show ?thesis by auto
          qed
        qed
        then show ?thesis by (simp add: fd_visible_def)
      qed
      then have "fd_visible ?K k" if "socket_fd k = n"
        using that by (cases "ip_port k = stIpPort_new") (simp_all add: fd_visible_def)
      then show ?thesis
        using entry True f(1) by auto
    next
      case False
      have "\<not> fd_visible ?K k" if kd: "(k, d) \<in> set m" and n: "socket_fd k = n"
      proof
        assume vis: "fd_visible ?K k"
        have kK: "k \<in> ?K" using kd by (metis fst_conv image_eqI)
        have "key_less (fst f) k"
          using pos [OF kd] False less(1) [OF kK] n by simp
        then have lex: "ip_port (fst f) < ip_port k \<or> ip_port (fst f) = ip_port k \<and> socket_fd (fst f) < n"
          using key_less_lex [OF K fK kK] n by simp
        have f2: "ip_port (fst f) \<noteq> stIpPort_new \<or> n \<le> socket_fd (fst f)"
          using f(2) less(1) [OF fK] by auto
        show False
        proof (cases "ip_port k = stIpPort_new")
          case True
          then show ?thesis using lex f2 new_least [OF K fK] by auto
        next
          case nk: False
          then have "if ip_port (fst f) = stIpPort_new then socket_fd (fst f) < n
              else ip_port k \<le> ip_port (fst f)"
            using vis fK n by (auto simp: fd_visible_def)
          then have vis': "ip_port k \<le> ip_port (fst f)" "ip_port (fst f) \<noteq> stIpPort_new"
            using f2 by (simp_all split: if_splits)
          then have "ip_port (fst f) = ip_port k \<and> socket_fd (fst f) < n"
            using lex by (meson leD)
          then have eq: "ip_port (fst f) = ip_port k" and "socket_fd (fst f) < n" by simp_all
          then show ?thesis
            using consistentD(4) [OF K fK kK eq vis'(2)] n by simp
        qed
      qed
      then show ?thesis using entry False by auto
    qed
  qed
qed

subsection \<open>Operations\<close>

abbreviation fd_table :: "'z fd_state_rec_scheme \<Rightarrow> stFdKey \<rightharpoonup> stFdData" where
  "fd_table s \<equiv> map_of (m_fd_to_data s)"

abbreviation fd_keys :: "'z fd_state_rec_scheme \<Rightarrow> stFdKey set" where
  "fd_keys s \<equiv> fst ` set (m_fd_to_data s)"

text \<open>The invariant: ordered, with consistent keys, and each entry holds the descriptor of its key.\<close>

definition fd_ok :: "'z fd_state_rec_scheme \<Rightarrow> bool" where
  "fd_ok s \<longleftrightarrow> sm_ok key_less (m_fd_to_data s) \<and> consistent (fd_keys s) \<and>
     (\<forall>(k, d) \<in> set (m_fd_to_data s). fd d = socket_fd k)"

definition fd_fresh :: "int \<Rightarrow> 'z fd_state_rec_scheme \<Rightarrow> bool" where
  "fd_fresh n s \<longleftrightarrow> 0 \<le> n \<and> n \<notin> socket_fd ` fd_keys s"

definition ip_fresh :: "stIpPort \<Rightarrow> 'z fd_state_rec_scheme \<Rightarrow> bool" where
  "ip_fresh a s \<longleftrightarrow> \<not> stIpPort_empty a \<and> a \<notin> ip_port ` fd_keys s"

lemma fd_okD:
  assumes "fd_ok s"
  shows "sm_ok key_less (m_fd_to_data s)" and "consistent (fd_keys s)"
    and "(k, d) \<in> set (m_fd_to_data s) \<Longrightarrow> fd d = socket_fd k"
  using assms by (auto simp: fd_ok_def)

lemma fd_ok_frame [simp, frame_simps]:
  "fd_ok (s\<lparr>m_idtonode := a\<rparr>) = fd_ok s" "fd_ok (s\<lparr>m_active := b\<rparr>) = fd_ok s"
  "fd_ok (s\<lparr>staticid := c\<rparr>) = fd_ok s" "fd_ok (s\<lparr>control := d\<rparr>) = fd_ok s"
  "fd_ok (s\<lparr>clock := e\<rparr>) = fd_ok s" "fd_ok (s\<lparr>m_expire_to_id := f\<rparr>) = fd_ok s"
  "fd_ok (s\<lparr>m_id_to_expire := g\<rparr>) = fd_ok s"
  by (simp_all add: fd_ok_def)

lemma consistent_subset: "consistent K \<Longrightarrow> K' \<subseteq> K \<Longrightarrow> consistent K'"
  unfolding consistent_def by blast

lemma consistent_insert:
  assumes "consistent K" and "0 \<le> socket_fd k" and "socket_fd k \<notin> socket_fd ` K"
    and "ip_port k = stIpPort_new \<or> \<not> stIpPort_empty (ip_port k) \<and> ip_port k \<notin> ip_port ` K"
  shows "consistent (insert k K)"
  using assms unfolding consistent_def key_wf_def by (auto simp: image_iff)

lemma fd_entry_distinct: "fd_ok s \<Longrightarrow> distinct (map fst (m_fd_to_data s))"
  by (rule strict_linear.distinct_keys [OF consistent_linear]) (auto dest: fd_okD)

lemma fd_table_iff: "fd_ok s \<Longrightarrow> fd_table s k = Some d \<longleftrightarrow> (k, d) \<in> set (m_fd_to_data s)"
  by (rule map_of_eq_Some_iff) (rule fd_entry_distinct)

lemma insert_result:
  assumes ok: "fd_ok s" and K: "consistent (insert key (fd_keys s))" and new: "key \<notin> fd_keys s"
    and d: "fd d = socket_fd key"
  shows "\<exists>x. CFdMgr_insert key d s = (s\<lparr>m_fd_to_data := x\<rparr>, Some key) \<and>
    fd_ok (s\<lparr>m_fd_to_data := x\<rparr>) \<and> map_of x = (fd_table s)(key \<mapsto> d) \<and>
    set x = insert (key, d) (set (m_fd_to_data s))"
proof -
  let ?m = "m_fd_to_data s" and ?K = "insert key (fd_keys s)"
  note lin = consistent_linear [OF K]
  note weak = strict_linear.axioms(1) [OF lin]
  have sub: "fd_keys s \<subseteq> ?K" and kK: "key \<in> ?K" by auto
  note m = fd_okD(1) [OF ok]
  have none: "sm_entry key_less key ?m = None"
    using strict_linear.entry_map_of [OF lin m sub kK] new by (simp add: map_of_eq_None_iff)
  let ?x = "sm_assign key_less key d ?m"
  have ins: "sm_insert key_less key d ?m = (?x, True)"
    using sm_insert_fst [of key_less key d ?m] sm_insert_snd [of key_less key d ?m] none
    by (simp add: prod_eq_iff)
  have set: "set ?x = insert (key, d) (set ?m)"
    using strict_weak.set_assign [OF weak m sub kK, of d] none by simp
  have "fd_ok (s\<lparr>m_fd_to_data := ?x\<rparr>)"
    using strict_weak.assign_ok [OF weak m sub kK, of d] set K d fd_okD(3) [OF ok]
    by (auto simp: fd_ok_def)
  moreover have "map_of ?x = (fd_table s)(key \<mapsto> d)"
    by (rule strict_linear.map_of_assign [OF lin m sub kK])
  ultimately show ?thesis
    using ins set by (auto simp: CFdMgr_insert_def)
qed

text \<open>What \<^verbatim>\<open>Get\<close> finds, by descriptor and by address.\<close>

lemma Get_iff:
  assumes ok: "fd_ok s" and n: "0 \<le> n"
  shows "CFdMgr_Get n s = Some k \<longleftrightarrow> k \<in> fd_keys s \<and> socket_fd k = n \<and> fd_visible (fd_keys s) k"
proof -
  have "CFdMgr_Get n s = Some k \<longleftrightarrow> (\<exists>d. CFdMgr_Exist n s = Some (k, d))"
    by (auto simp: CFdMgr_Get_def)
  then show ?thesis
    unfolding CFdMgr_Exist_def fd_entry_iff [OF fd_okD(2,1) [OF ok] n] by force
qed

lemma Get_ip_iff:
  assumes ok: "fd_ok s" and ne: "\<not> stIpPort_empty (IpPort i p t)"
  shows "CFdMgr_Get_ip i p t s = Some k \<longleftrightarrow> k \<in> fd_keys s \<and> ip_port k = IpPort i p t"
proof -
  note K = fd_okD(2) [OF ok]
  have "CFdMgr_Exist_ip i p t s = Some (k, d) \<longleftrightarrow>
      (k, d) \<in> set (m_fd_to_data s) \<and> ip_port k = IpPort i p t" for d
  proof -
    have "CFdMgr_Exist_ip i p t s = Some (k, d) \<longleftrightarrow> (k, d) \<in> set (m_fd_to_data s) \<and>
        \<not> key_less k (ip_key i p t) \<and> \<not> key_less (ip_key i p t) k"
      unfolding CFdMgr_Exist_ip_def
      using strict_weak.entry_iff [OF ip_probe_weak [OF K ne] fd_okD(1) [OF ok] subset_insertI insertI1]
      by simp
    moreover have "k \<in> fd_keys s" if "(k, d) \<in> set (m_fd_to_data s)"
      using that by force
    ultimately show ?thesis
      using key_less_ip [OF K _ ne, of k] linorder_less_linear [of "ip_port k" "IpPort i p t"] by auto
  qed
  then show ?thesis by (force simp: CFdMgr_Get_ip_def)
qed

lemma Add_result:
  assumes ok: "fd_ok s" and n: "fd_fresh n s"
  shows "\<exists>x. CFdMgr_Add raw n s = (s\<lparr>m_fd_to_data := x\<rparr>, Some (fd_key n)) \<and>
    fd_ok (s\<lparr>m_fd_to_data := x\<rparr>) \<and> map_of x = (fd_table s)(fd_key n \<mapsto> (stFdData_new raw)\<lparr>fd := n\<rparr>) \<and>
    set x = insert (fd_key n, (stFdData_new raw)\<lparr>fd := n\<rparr>) (set (m_fd_to_data s))"
proof -
  have "consistent (insert (fd_key n) (fd_keys s))"
    by (rule consistent_insert [OF fd_okD(2) [OF ok]]) (use n in \<open>auto simp: fd_fresh_def fd_key_def\<close>)
  moreover have "fd_key n \<notin> fd_keys s"
    using n by (force simp: fd_fresh_def fd_key_def image_iff)
  ultimately show ?thesis
    unfolding CFdMgr_Add_def by (intro insert_result ok) (simp_all add: fd_key_def)
qed

lemma Add_ip_result:
  assumes ok: "fd_ok s" and n: "fd_fresh n s" and a: "ip_fresh (IpPort i p t) s"
  shows "\<exists>x. CFdMgr_Add_ip raw n i p t s = (s\<lparr>m_fd_to_data := x\<rparr>, Some (FdKey (IpPort i p t) n)) \<and>
    fd_ok (s\<lparr>m_fd_to_data := x\<rparr>) \<and>
    map_of x = (fd_table s)(FdKey (IpPort i p t) n \<mapsto> (stFdData_new raw)\<lparr>fd := n\<rparr>) \<and>
    set x = insert (FdKey (IpPort i p t) n, (stFdData_new raw)\<lparr>fd := n\<rparr>) (set (m_fd_to_data s))"
proof -
  have "consistent (insert (FdKey (IpPort i p t) n) (fd_keys s))"
    by (rule consistent_insert [OF fd_okD(2) [OF ok]])
      (use n a in \<open>auto simp: fd_fresh_def ip_fresh_def\<close>)
  moreover have "FdKey (IpPort i p t) n \<notin> fd_keys s"
    using n by (force simp: fd_fresh_def image_iff)
  ultimately show ?thesis
    unfolding CFdMgr_Add_ip_def by (intro insert_result ok) simp_all
qed

text \<open>\<^verbatim>\<open>Destroy\<close> takes out the entry that \<^verbatim>\<open>Get\<close> finds, and fails when it finds none.\<close>

lemma Destroy_fd_result:
  assumes ok: "fd_ok s" and n: "0 \<le> n"
  shows "\<exists>x. CFdMgr_Destroy n s =
      (s\<lparr>m_fd_to_data := x\<rparr>, if CFdMgr_Get n s = None then IO_ERR else IO_OK) \<and>
    fd_ok (s\<lparr>m_fd_to_data := x\<rparr>) \<and>
    map_of x = (case CFdMgr_Get n s of None \<Rightarrow> fd_table s | Some k \<Rightarrow> (fd_table s)(k := None))"
proof (cases "CFdMgr_Exist n s")
  case None
  then show ?thesis
    using ok by (intro exI [of _ "m_fd_to_data s"]) (simp add: CFdMgr_Destroy_def CFdMgr_Get_def)
next
  case (Some e)
  let ?m = "m_fd_to_data s" and ?x = "sm_erase key_less (fd_key n) (m_fd_to_data s)"
  note weak = strict_linear.axioms(1) [OF consistent_linear [OF fd_okD(2) [OF ok]]]
  have e: "sm_entry key_less (fd_key n) ?m = Some e" using Some by (simp add: CFdMgr_Exist_def)
  have set: "set ?x = set ?m - {e}"
    using strict_weak.set_erase [OF weak fd_okD(1) [OF ok] subset_refl, of "fd_key n"] e by simp
  have x: "fd_ok (s\<lparr>m_fd_to_data := ?x\<rparr>)"
    using strict_weak.erase_ok [OF weak fd_okD(1) [OF ok], of "fd_key n"] set fd_okD(3) [OF ok]
      consistent_subset [OF fd_okD(2) [OF ok], of "fst ` (set ?m - {e})"]
    by (auto simp: fd_ok_def)
  have "map_of ?x k = ((fd_table s)(fst e := None)) k" for k
  proof -
    have "map_of ?x k = Some d \<longleftrightarrow> ((fd_table s)(fst e := None)) k = Some d" for d
      using fd_table_iff [OF x, of k d] fd_table_iff [OF ok, of k d] set
        fd_table_iff [OF ok, of "fst e" d] fd_table_iff [OF ok, of "fst e" "snd e"]
        sm_entry_in [OF e] by (cases e) (auto simp: fun_upd_def)
    then show ?thesis by (metis option.exhaust)
  qed
  then show ?thesis
    using x Some by (auto simp: CFdMgr_Destroy_def CFdMgr_Get_def fun_eq_iff)
qed

text \<open>Writing through the pointer to an entry.\<close>

lemma fd_write_table: "fd_table (fd_write key f s) = (fd_table s)(key := map_option f (fd_table s key))"
proof -
  have "map_of (map (\<lambda>(k, d). if k = key then (k, f d) else (k, d)) m) k =
      ((map_of m)(key := map_option f (map_of m key))) k" for m k
    by (induction m) auto
  then show ?thesis by (auto simp: fd_write_def fun_eq_iff)
qed

lemma fd_write_keys: "map fst (m_fd_to_data (fd_write key f s)) = map fst (m_fd_to_data s)"
  by (auto simp: fd_write_def)

lemma fd_write_ok:
  assumes "fd_ok s" and "\<And>d. fd (f d) = fd d"
  shows "fd_ok (fd_write key f s)"
proof -
  have "fd_keys (fd_write key f s) = fd_keys s"
    using arg_cong [OF fd_write_keys, of set key f s] by simp
  moreover have "sm_ok key_less (m_fd_to_data (fd_write key f s))"
    using fd_okD(1) [OF assms(1)] fd_write_keys [of key f s] by (simp add: sm_ok_def)
  moreover have "fd d = socket_fd k" if "(k, d) \<in> set (m_fd_to_data (fd_write key f s))" for k d
    using that fd_okD(3) [OF assms(1)] assms(2) by (auto simp: fd_write_def split: if_splits)
  ultimately show ?thesis
    using fd_okD(2) [OF assms(1)] by (auto simp: fd_ok_def)
qed

lemma fd_write_frame [simp, frame_simps]:
  "m_idtonode (fd_write key f s) = m_idtonode s" "m_active (fd_write key f s) = m_active s"
  "staticid (fd_write key f s) = staticid s" "control (fd_write key f s) = control s"
  "clock (fd_write key f s) = clock s" "m_expire_to_id (fd_write key f s) = m_expire_to_id s"
  "m_id_to_expire (fd_write key f s) = m_id_to_expire s"
  by (simp_all add: fd_write_def)

lemma fd_partitioned:
  assumes K: "consistent (fst ` set m)" and ok: "sm_ok key_less m" and n: "0 \<le> n"
  shows "partitioned key_less (fd_key n) m"
proof (cases "sm_lower_bound key_less (fd_key n) m")
  case (Cons f fs)
  have m: "m = sm_before key_less (fd_key n) m @ f # fs"
    using sm_split [of m key_less "fd_key n"] Cons by simp
  have in_m: "set (f # fs) \<subseteq> set m" using m by (metis Un_upper2 set_append)
  have f: "\<not> key_less (fst f) (fd_key n)" by (rule sm_lower_bound_hd [OF Cons])
  have "\<not> key_less (fst e) (fd_key n)" if e: "e \<in> set fs" for e
  proof -
    have mem: "fst f \<in> fst ` set m" "fst e \<in> fst ` set m" using in_m e by auto
    have "sm_ok key_less (f # fs)" using ok m by (metis sm_ok_append)
    then have "key_less (fst f) (fst e)" using e by (simp add: sm_ok_Cons)
    then have "ip_port (fst f) < ip_port (fst e) \<or>
        ip_port (fst f) = ip_port (fst e) \<and> socket_fd (fst f) < socket_fd (fst e)"
      using key_less_lex [OF K mem] by simp
    then show ?thesis
      using f new_least [OF K mem(1)] unfolding key_less_fd(1) [OF K mem(1) n] key_less_fd(1) [OF K mem(2) n]
      by auto
  qed
  then show ?thesis using f Cons by (simp add: partitioned_def)
qed (simp add: partitioned_def)

subsection \<open>The state at program start\<close>

text \<open>
  Every table empty, the id counter at \<^verbatim>\<open>-1\<close>, no active coroutine; \<open>now\<close> is the time of day.
\<close>

definition fd_start :: "timeval \<Rightarrow> fd_state_rec" where
  "fd_start now = \<lparr>clock = now, m_expire_to_id = [], m_id_to_expire = [], m_idtonode = [],
     m_active = None, staticid = -1, control = 0, m_fd_to_data = []\<rparr>"

lemma fd_start_ok: "fd_ok (fd_start now)"
  by (simp add: fd_ok_def fd_start_def consistent_def)

definition example_raw :: stFdData where
  "example_raw = \<lparr>check = 0, seq = 0, seq_to_coroutine = [], fd_recvdata = CMemData_new,
     remote = \<lparr>sin_addr = 0, sin_port = 0\<rparr>, port_type = PORT_TCP, fd_state = E_OTHER,
     context_id = 0, last_op_ret = IO_OK, fd = -1\<rparr>"

text \<open>A connection opened on descriptor 6, and a client accepted on 7 after it.\<close>

definition example_entry :: "int \<Rightarrow> stFdData" where
  "example_entry n = example_raw\<lparr>fd := n\<rparr>"

definition example_table :: fd_state_rec where
  "example_table = (fd_start \<lparr>tv_sec = 0, tv_usec = 0\<rparr>)\<lparr>m_fd_to_data :=
     [(fd_key 7, example_entry 7), (FdKey (IpPort ''10.0.0.1'' 80 PORT_TCP) 6, example_entry 6)]\<rparr>"

lemma example_table_ok: "fd_ok example_table"
  by (auto simp: fd_ok_def example_table_def consistent_def key_wf_def fd_key_def key_less_def
      stIpPort_empty_def stIpPort_new_def stFd_empty_def less_stIpPort_def ip_port_less_def example_entry_def sm_ok_def)

lemma example_table_keys:
  "fd_keys example_table = {fd_key 7, FdKey (IpPort ''10.0.0.1'' 80 PORT_TCP) 6}"
  by (simp add: example_table_def)

subsection \<open>Properties\<close>

text \<open>
  The comparator of the descriptor table is not a strict weak order on the keys the code
  searches with and stores: the key that searches for descriptor 5 is less than the one of a
  listening socket, which is less than the one of a connection on descriptor 5, and yet the
  search key is not less than the connection's.
\<close>

theorem key_order_not_transitive:
  "key_wf (fd_key 7) \<and> key_wf (FdKey (IpPort ''10.0.0.1'' 80 PORT_TCP) 5) \<and>
   key_less (fd_key 5) (fd_key 7) \<and>
   key_less (fd_key 7) (FdKey (IpPort ''10.0.0.1'' 80 PORT_TCP) 5) \<and>
   \<not> key_less (fd_key 5) (FdKey (IpPort ''10.0.0.1'' 80 PORT_TCP) 5)"
  by (simp add: key_wf_def key_less_def fd_key_def stFd_empty_def stIpPort_empty_def
      stIpPort_new_def less_stIpPort_def ip_port_less_def)

text \<open>
  C29: What a search by descriptor finds: the entry with that descriptor, and a connection that
  was opened with an address only when it has the least address of all connections and every
  descriptor stored without an address is smaller. Any search tree over the table gives the
  same answer.
\<close>

theorem fd_get_exact:
  assumes "fd_ok s" and "0 \<le> n" and "inorder t = m_fd_to_data s"
  shows "(CFdMgr_Get n s = Some k \<longleftrightarrow>
      k \<in> fd_keys s \<and> socket_fd k = n \<and> fd_visible (fd_keys s) k) \<and>
    tree_find key_less (fd_key n) t = map_option snd (CFdMgr_Exist n s)"
  using Get_iff [OF assms(1,2)] tree_find_list [of key_less "fd_key n" t]
    fd_partitioned [OF fd_okD(2,1) [OF assms(1)] assms(2)] assms(3)
  by (simp add: sm_find_def CFdMgr_Exist_def)

theorem fd_get_exact_witness:
  "CFdMgr_Get 7 example_table = Some (fd_key 7)"
proof -
  define t where "t = Node Leaf (fd_key 7, example_entry 7)
    (Node Leaf (FdKey (IpPort ''10.0.0.1'' 80 PORT_TCP) 6, example_entry 6) Leaf)"
  have "inorder t = m_fd_to_data example_table" by (simp add: t_def example_table_def)
  then show ?thesis
    using fd_get_exact [OF example_table_ok, of 7 t "fd_key 7"]
    unfolding example_table_keys by (simp add: fd_visible_def fd_key_def)
qed

text \<open>
  C30: A connection opened by address is lost to every search by its descriptor as soon as a
  larger descriptor is stored without an address, that is, as soon as a client is accepted
  after it: the event loop takes it for an unknown descriptor and stops watching it.
\<close>

theorem fd_get_misses_connection:
  assumes "fd_ok s" and "k \<in> fd_keys s" and "\<not> stIpPort_empty (ip_port k)"
    and "j \<in> fd_keys s" and "ip_port j = stIpPort_new" and "socket_fd k < socket_fd j"
  shows "CFdMgr_Get (socket_fd k) s = None \<and> CFdMgr_Destroy (socket_fd k) s = (s, IO_ERR)"
proof -
  have n: "0 \<le> socket_fd k" by (rule consistentD(1) [OF fd_okD(2) [OF assms(1)] assms(2,2)])
  have "ip_port k \<noteq> stIpPort_new" using assms(3) by auto
  then have "\<not> fd_visible (fd_keys s) k"
    using assms(4-6) unfolding fd_visible_def by fastforce
  moreover have "k' = k" if "k' \<in> fd_keys s" "socket_fd k' = socket_fd k" for k'
    using consistentD(3) [OF fd_okD(2) [OF assms(1)] that(1) assms(2)] that(2) by simp
  ultimately have "CFdMgr_Get (socket_fd k) s \<noteq> Some k'" for k'
    unfolding Get_iff [OF assms(1) n] by blast
  then have "CFdMgr_Get (socket_fd k) s = None" by (cases "CFdMgr_Get (socket_fd k) s") auto
  then show ?thesis
    by (simp add: CFdMgr_Get_def CFdMgr_Destroy_def)
qed

theorem fd_get_misses_connection_witness:
  "CFdMgr_Get 6 example_table = None"
  using fd_get_misses_connection [OF example_table_ok,
      of "FdKey (IpPort ''10.0.0.1'' 80 PORT_TCP) 6" "fd_key 7"]
  unfolding example_table_keys by (simp add: stIpPort_empty_def fd_key_def)

text \<open>
  A search by address finds exactly the connection with that address, and none when there
  is none, whatever else the table holds.
\<close>

theorem fd_get_ip_exact:
  assumes "fd_ok s" and "\<not> stIpPort_empty (IpPort i p t)"
  shows "CFdMgr_Get_ip i p t s = Some k \<longleftrightarrow> k \<in> fd_keys s \<and> ip_port k = IpPort i p t"
  by (rule Get_ip_iff [OF assms])

theorem fd_get_ip_exact_witness:
  "CFdMgr_Get_ip ''10.0.0.1'' 80 PORT_TCP example_table = Some (FdKey (IpPort ''10.0.0.1'' 80 PORT_TCP) 6)"
  using fd_get_ip_exact [OF example_table_ok, of "''10.0.0.1''" 80 PORT_TCP]
  unfolding example_table_keys by (simp add: stIpPort_empty_def)

text \<open>
  Adding a descriptor the table does not hold keeps the table's invariant, makes one fresh
  entry and changes no other, and the new entry is found by its descriptor.
\<close>

theorem fd_add_found:
  assumes "fd_ok s" and "fd_fresh n s"
  shows "\<exists>s'. CFdMgr_Add raw n s = (s', Some (fd_key n)) \<and> fd_ok s' \<and>
    fd_table s' = (fd_table s)(fd_key n \<mapsto> (stFdData_new raw)\<lparr>fd := n\<rparr>) \<and>
    CFdMgr_Get n s' = Some (fd_key n) \<and> CoroutineMgr_Get c s' = CoroutineMgr_Get c s"
proof -
  obtain x where x: "CFdMgr_Add raw n s = (s\<lparr>m_fd_to_data := x\<rparr>, Some (fd_key n))"
      "fd_ok (s\<lparr>m_fd_to_data := x\<rparr>)" "map_of x = (fd_table s)(fd_key n \<mapsto> (stFdData_new raw)\<lparr>fd := n\<rparr>)"
      "set x = insert (fd_key n, (stFdData_new raw)\<lparr>fd := n\<rparr>) (set (m_fd_to_data s))"
    using Add_result [OF assms, of raw] by blast
  have "CFdMgr_Get n (s\<lparr>m_fd_to_data := x\<rparr>) = Some (fd_key n)"
    using Get_iff [OF x(2), of n "fd_key n"] assms(2) x(4)
    by (simp add: fd_visible_def fd_key_def fd_fresh_def)
  then show ?thesis
    using x by (auto simp: CoroutineMgr_Get_def)
qed

theorem fd_add_found_witness:
  "\<exists>s'. CFdMgr_Add example_raw 9 example_table = (s', Some (fd_key 9)) \<and>
    CFdMgr_Get 9 s' = Some (fd_key 9)"
  using fd_add_found [OF example_table_ok, of 9 example_raw 0]
  unfolding fd_fresh_def example_table_keys by (auto simp: fd_key_def)

text \<open>
  Adding a connection under an address and a descriptor the table does not hold keeps the
  invariant, and a search for that address finds it.
\<close>

theorem fd_add_ip_found:
  assumes "fd_ok s" and "fd_fresh n s" and "ip_fresh (IpPort i p t) s"
  shows "\<exists>s'. CFdMgr_Add_ip raw n i p t s = (s', Some (FdKey (IpPort i p t) n)) \<and> fd_ok s' \<and>
    fd_table s' = (fd_table s)(FdKey (IpPort i p t) n \<mapsto> (stFdData_new raw)\<lparr>fd := n\<rparr>) \<and>
    CFdMgr_Get_ip i p t s' = Some (FdKey (IpPort i p t) n)"
proof -
  obtain x where x: "CFdMgr_Add_ip raw n i p t s = (s\<lparr>m_fd_to_data := x\<rparr>, Some (FdKey (IpPort i p t) n))"
      "fd_ok (s\<lparr>m_fd_to_data := x\<rparr>)"
      "map_of x = (fd_table s)(FdKey (IpPort i p t) n \<mapsto> (stFdData_new raw)\<lparr>fd := n\<rparr>)"
      "set x = insert (FdKey (IpPort i p t) n, (stFdData_new raw)\<lparr>fd := n\<rparr>) (set (m_fd_to_data s))"
    using Add_ip_result [OF assms, of raw] by blast
  have "CFdMgr_Get_ip i p t (s\<lparr>m_fd_to_data := x\<rparr>) = Some (FdKey (IpPort i p t) n)"
    using Get_ip_iff [OF x(2), of i p t] assms(3) x(4) by (simp add: ip_fresh_def)
  then show ?thesis using x by auto
qed

theorem fd_add_ip_found_witness:
  "\<exists>s'. CFdMgr_Add_ip example_raw 9 ''10.0.0.2'' 80 PORT_TCP example_table =
    (s', Some (FdKey (IpPort ''10.0.0.2'' 80 PORT_TCP) 9)) \<and> fd_ok s'"
  using fd_add_ip_found [OF example_table_ok, of 9 "''10.0.0.2''" 80 PORT_TCP example_raw]
  unfolding fd_fresh_def ip_fresh_def example_table_keys
  by (auto simp: fd_key_def stIpPort_empty_def stIpPort_new_def)

text \<open>
  \<^verbatim>\<open>Destroy\<close> keeps the invariant, takes out exactly the entry \<^verbatim>\<open>Get\<close> finds for the
  descriptor, and reports an error and changes nothing when it finds none.
\<close>

theorem fd_destroy_exact:
  assumes "fd_ok s" and "0 \<le> n"
  shows "\<exists>s'. CFdMgr_Destroy n s = (s', if CFdMgr_Get n s = None then IO_ERR else IO_OK) \<and> fd_ok s' \<and>
    fd_table s' = (case CFdMgr_Get n s of None \<Rightarrow> fd_table s | Some k \<Rightarrow> (fd_table s)(k := None))"
  using Destroy_fd_result [OF assms] by fastforce

theorem fd_destroy_exact_witness:
  "\<exists>s'. CFdMgr_Destroy 8 example_table =
      (s', if CFdMgr_Get 8 example_table = None then IO_ERR else IO_OK) \<and> fd_ok s'"
  using fd_destroy_exact [OF example_table_ok, of 8] by auto

end
