(* ===== verification/World.thy ===== *)
theory World
  imports FdMgr
begin

section \<open>The whole state and the operating system\<close>

text \<open>
  The state of the program: the singletons of the components so far, the callback table and the
  epoll descriptor of \<^verbatim>\<open>CMonitorEpoll\<close>, the package counter of \<^verbatim>\<open>HeadPkg\<close>, and the list of
  system calls made so far.

  The operating system is the parameter \<open>os\<close> of every operation that makes a system call: from
  the calls made before and the call at hand it gives the answer, whatever that is, so the
  results hold for every behaviour of the system and of the peers. Time passes at system calls
  only: the answer carries the time of day after the call. Where a result needs what a manual
  page promises of a call, it is a named hypothesis (\<open>recv_documented\<close>, \<open>send_documented\<close>).
\<close>

datatype ctl_op = CTL_ADD | CTL_DEL

datatype syscall =
    Sys_epoll_create int
  | Sys_epoll_ctl ctl_op int u32
  | Sys_epoll_wait int int
  | Sys_recv int nat
  | Sys_send int "u8 list"
  | Sys_accept int
  | Sys_connect int sockaddr_in
  | Sys_getsockopt int
  | Sys_socket EPORTTYPE
  | Sys_socket_blocking
  | Sys_setsockopt int
  | Sys_bind int u16
  | Sys_listen int int
  | Sys_close int
  | Sys_sleep nat
  | Sys_print string

text \<open>
  \<^verbatim>\<open>Sys_socket\<close> makes a socket with \<^verbatim>\<open>SOCK_NONBLOCK\<close> set, \<^verbatim>\<open>Sys_socket_blocking\<close> a stream socket without;
  \<^verbatim>\<open>Sys_bind\<close> binds to the address 0.0.0.0, the only one the code binds to; \<^verbatim>\<open>Sys_setsockopt\<close> sets
  \<^verbatim>\<open>SO_REUSEADDR\<close>; \<^verbatim>\<open>Sys_print\<close> writes to the standard output.

  The answer: the value returned, \<^verbatim>\<open>errno\<close>, what the call writes through its pointers (bytes
  received, a peer's address, events by descriptor), and the time.
\<close>

record answer =
  ret :: int
  errno :: int
  ret_bytes :: "u8 list"
  ret_addr :: sockaddr_in
  ret_events :: "(int \<times> u32) list"
  ret_time :: timeval

type_synonym os = "syscall list \<Rightarrow> syscall \<Rightarrow> answer"

definition EINTR :: int where "EINTR = 4"
definition EAGAIN :: int where "EAGAIN = 11"
definition EINPROGRESS :: int where "EINPROGRESS = 115"

lemmas errno_defs = EINTR_def EAGAIN_def EINPROGRESS_def

record world = fd_state_rec +
  m_pkgcallback :: "(fnptr, fnptr) smap"
  m_fd :: int
  head_id :: u32
  calls :: "syscall list"
  connecting :: "int list"

definition sys :: "os \<Rightarrow> syscall \<Rightarrow> 'z world_scheme \<Rightarrow> answer \<times> 'z world_scheme" where
  "sys os c w = (let a = os (calls w) c in (a, w\<lparr>calls := calls w @ [c], clock := ret_time a\<rparr>))"

text \<open>
  \<open>connecting\<close> lists the descriptors of which a suspended \<^verbatim>\<open>tcpconnect\<close> holds a handle beside that of
  the table.

  What the manual pages promise of the two calls that move bytes.\<close>

definition recv_documented :: "os \<Rightarrow> bool" where
  "recv_documented os \<longleftrightarrow> (\<forall>cs n len. ret (os cs (Sys_recv n len)) \<le> int len \<and>
     (0 < ret (os cs (Sys_recv n len)) \<longrightarrow>
        length (ret_bytes (os cs (Sys_recv n len))) = nat (ret (os cs (Sys_recv n len)))))"

definition send_documented :: "os \<Rightarrow> bool" where
  "send_documented os \<longleftrightarrow> (\<forall>cs n bs. ret (os cs (Sys_send n bs)) \<le> int (length bs))"

subsection \<open>Frame facts\<close>

lemma sys_frame [simp, frame_simps]:
  "m_idtonode (snd (sys os c w)) = m_idtonode w" "m_active (snd (sys os c w)) = m_active w"
  "staticid (snd (sys os c w)) = staticid w" "control (snd (sys os c w)) = control w"
  "m_expire_to_id (snd (sys os c w)) = m_expire_to_id w"
  "m_id_to_expire (snd (sys os c w)) = m_id_to_expire w"
  "m_fd_to_data (snd (sys os c w)) = m_fd_to_data w" "m_pkgcallback (snd (sys os c w)) = m_pkgcallback w"
  "m_fd (snd (sys os c w)) = m_fd w" "head_id (snd (sys os c w)) = head_id w"
  "calls (snd (sys os c w)) = calls w @ [c]" "connecting (snd (sys os c w)) = connecting w"
  by (simp_all add: sys_def Let_def)

lemma fst_sys [simp]: "fst (sys os c w) = os (calls w) c"
  by (simp add: sys_def Let_def)

text \<open>Which fields the invariants depend on.\<close>

lemma co_ok_cong:
  assumes "m_idtonode w' = m_idtonode w" and "m_active w' = m_active w" and "control w' = control w"
    and "m_expire_to_id w' = m_expire_to_id w" and "m_id_to_expire w' = m_id_to_expire w"
  shows "co_ok w' = co_ok w" and "co_live w' = co_live w"
  using assms by (simp_all add: co_ok_def exp_ok_def co_live_def)

lemma fd_ok_cong: "m_fd_to_data w' = m_fd_to_data w \<Longrightarrow> fd_ok w' = fd_ok w"
  by (simp add: fd_ok_def)

lemma sys_ok [simp]:
  "co_ok (snd (sys os c w)) = co_ok w" "co_live (snd (sys os c w)) = co_live w"
  "fd_ok (snd (sys os c w)) = fd_ok w"
  by (rule co_ok_cong co_ok_cong(2) fd_ok_cong; simp)+

text \<open>The clock is what a system call has told.\<close>

definition clock_told :: "os \<Rightarrow> 'z world_scheme \<Rightarrow> bool" where
  "clock_told os w \<longleftrightarrow> (\<exists>cs c. clock w = ret_time (os cs c))"

lemma clock_told_sys [simp]: "clock_told os (snd (sys os c w))"
  by (auto simp: clock_told_def sys_def Let_def)

lemma connecting_ok [simp]:
  "co_ok (w\<lparr>connecting := x\<rparr>) = co_ok w" "co_live (w\<lparr>connecting := x\<rparr>) = co_live w" "fd_ok (w\<lparr>connecting := x\<rparr>) = fd_ok w"
  by (rule co_ok_cong co_ok_cong(2) fd_ok_cong; simp)+

text \<open>The state at program start.\<close>

definition world_start :: "timeval \<Rightarrow> world" where
  "world_start now = \<lparr>clock = now, m_expire_to_id = [], m_id_to_expire = [], m_idtonode = [],
     m_active = None, staticid = -1, control = 0, m_fd_to_data = [], m_pkgcallback = [],
     m_fd = -1, head_id = 0, calls = [], connecting = []\<rparr>"

end
