(* ===== verification/EventMgr.thy ===== *)
theory EventMgr
  imports World
begin

unbundle bit_operations_syntax

section \<open>The event loop (CMonitorEpoll, lib/eventmgr/EventMgr.h and EventMgr.cpp)\<close>

text \<open>
  One turn of the loop serves a due timer or waits for events and handles each: a finished
  connection attempt, a new client, bytes from a client or from a server this program is a
  client of. \<open>code\<close> is the table of the callbacks \<^verbatim>\<open>Callback_TcpCheck\<close> and \<^verbatim>\<open>Callback_Seq\<close>: by
  function pointer, what they return for a buffer and a size. \<open>raw\<close> is the memory new table
  entries are made in. \<open>run\<close> is the code of resumed coroutines, as in \<open>ScheduleAll\<close>.

  A pointer to an entry of the descriptor table is its key. The results the loop ignores are
  returned all the same.
\<close>

type_synonym code = "fnptr \<Rightarrow> u8 list \<Rightarrow> u32 \<Rightarrow> int"

subsection \<open>Watching descriptors\<close>

definition CFdEpoll_Init :: "os \<Rightarrow> 'z world_scheme \<Rightarrow> 'z world_scheme \<times> EIORESULT" where
  "CFdEpoll_Init os w =
     (let (a, w1) = sys os (Sys_epoll_create 100) w in
      if ret a < 0 then (w1, IO_ERR) else (w1\<lparr>m_fd := ret a\<rparr>, IO_OK))"

text \<open>The stack registers that \<^verbatim>\<open>CMonitorEpoll::Init\<close> reads first only go into the log.\<close>

definition CMonitorEpoll_Init :: "os \<Rightarrow> 'z world_scheme \<Rightarrow> 'z world_scheme \<times> EIORESULT" where
  "CMonitorEpoll_Init os w =
     (case CFdEpoll_Init os w of (w1, r) \<Rightarrow> (w1, if EIORESULT_int r \<noteq> 0 then IO_ERR else IO_OK))"

definition CMonitorEpoll_Add :: "os \<Rightarrow> int \<Rightarrow> EFDEVENT \<Rightarrow> 'z world_scheme \<Rightarrow> 'z world_scheme \<times> EIORESULT" where
  "CMonitorEpoll_Add os n fe w =
     (let (a, w1) = sys os (Sys_epoll_ctl CTL_ADD n (EFDEVENT_mask fe)) w in
      (w1, if ret a \<noteq> 0 then IO_ERR else IO_OK))"

text \<open>The event argument of a removal is ignored by the system; it is 0 here.\<close>

definition CMonitorEpoll_Del :: "os \<Rightarrow> int \<Rightarrow> 'z world_scheme \<Rightarrow> 'z world_scheme \<times> EIORESULT" where
  "CMonitorEpoll_Del os n w =
     (let (a, w1) = sys os (Sys_epoll_ctl CTL_DEL n 0) w in
      (w1, if ret a \<noteq> 0 then IO_ERR else IO_OK))"

definition RegisterPackage :: "fnptr \<Rightarrow> fnptr \<Rightarrow> 'z world_scheme \<Rightarrow> 'z world_scheme \<times> EIORESULT" where
  "RegisterPackage chk process w =
     (if chk = 0 \<or> process = 0 then (w, IO_ARG_INVALID)
      else (w\<lparr>m_pkgcallback := sm_assign (<) chk process (m_pkgcallback w)\<rparr>, IO_OK))"

definition IsClient :: "stFdData \<Rightarrow> bool" where "IsClient d \<longleftrightarrow> fd_state d = E_SERVER_CONN"
definition IsOtherConn :: "stFdData \<Rightarrow> bool" where "IsOtherConn d \<longleftrightarrow> fd_state d = E_OTHER"
definition IsListenFd :: "stFdData \<Rightarrow> bool" where "IsListenFd d \<longleftrightarrow> fd_state d = E_LISTEN"

subsection \<open>Receiving\<close>

definition DEF_RECV_SIZE :: u32 where "DEF_RECV_SIZE = 1024"

text \<open>
  \<^verbatim>\<open>tcprecv\<close>: every path through the body of its loop returns, so the loop runs once. The two
  reference parameters come back with the result.
\<close>

definition tcprecv :: "os \<Rightarrow> code \<Rightarrow> int \<Rightarrow> CMemData \<Rightarrow> fnptr \<Rightarrow> int \<Rightarrow> 'z world_scheme \<Rightarrow>
    ('z world_scheme \<times> CMemData \<times> int \<times> EIORESULT) res" where
  "tcprecv os code server md cb_check pkgsize w =
     (if server < 0 then Inr (w, md, pkgsize, IO_ARG_INVALID)
      else bind_res
        (if CMemData_LeftSize md \<le> DEF_RECV_SIZE then CMemData_Expand DEF_RECV_SIZE md
         else Inr md)
        (\<lambda>d. let (a, w1) = sys os (Sys_recv server (unat (CMemData_LeftSize d))) w in
          if ret a < 0
          then Inr (w1, d, pkgsize, if errno a = EINTR \<or> errno a = EAGAIN then IO_OK else IO_ERR)
          else if ret a = 0 then Inr (w1, d, pkgsize, IO_REMOTE_CLOSE)
          else (case CMemData_GetAddr d of
              None \<Rightarrow> Inl Null_Deref
            | Some addr \<Rightarrow> bind_res (write_bytes addr (take (nat (ret a)) (ret_bytes a)) (m_data d))
                (\<lambda>buf. let d2 = CMemData_UpdateUse (word_of_int (ret a)) (d\<lparr>m_data := buf\<rparr>) in
                  if cb_check = 0 then Inl Null_Call
                  else let sz = code cb_check (m_data d2) (CMemData_Size d2) in
                    Inr (w1, d2, sz, if 0 < sz then IO_OK else IO_ERR)))))"

subsection \<open>Handlers\<close>

definition TcpConnect :: "os \<Rightarrow> int \<Rightarrow> u32 \<Rightarrow> stFdKey \<Rightarrow> 'z world_scheme \<Rightarrow> 'z world_scheme res" where
  "TcpConnect os n event key w =
     (let w1 = (if EPOLLERR AND event = 0 then fd_write key (\<lambda>d. d\<lparr>last_op_ret := IO_OK\<rparr>) w
                else fd_write key (\<lambda>d. d\<lparr>last_op_ret := IO_ERR\<rparr>) (snd (sys os (Sys_getsockopt n) w)))
      in (case fd_read key w1 of
            None \<Rightarrow> Inl Null_Deref
          | Some d \<Rightarrow> CoroutineMgr_SetReady (context_id d) w1))"

definition NewReq :: "os \<Rightarrow> stFdData \<Rightarrow> int \<Rightarrow> stFdKey \<Rightarrow> 'z world_scheme \<Rightarrow> ('z world_scheme \<times> EIORESULT) res" where
  "NewReq os raw ss key w = (case fd_read key w of
     None \<Rightarrow> Inl Null_Deref
   | Some d \<Rightarrow>
     if port_type d = PORT_TCP then
       (let (a, w1) = sys os (Sys_accept ss) w in
        if ret a < 0 then Inr (w1, IO_ERR)
        else (case CFdMgr_Add raw (ret a) w1 of
            (w2, None) \<Rightarrow> Inl Null_Deref
          | (w2, Some k) \<Rightarrow>
              let w3 = fd_write k (\<lambda>e. e\<lparr>remote := ret_addr a, port_type := PORT_TCP\<rparr>) w2 in
              (case CFdMgr_Get ss w3 of
                 None \<Rightarrow> Inl Null_Deref
               | Some l \<Rightarrow> (case fd_read l w3 of
                   None \<Rightarrow> Inl Null_Deref
                 | Some ld \<Rightarrow>
                     let w4 = fd_write k (\<lambda>e. e\<lparr>check := check ld, fd_state := E_SERVER_CONN\<rparr>) w3 in
                     Inr (fst (CMonitorEpoll_Add os (ret a) FD_READ w4), IO_OK)))))
     else
       (let (w1, cid) = CoroutineMgr_Create w in
        bind_res (update_node cid (\<lambda>c. c\<lparr>m_req := (m_req c)\<lparr>server_socket := ss\<rparr>\<rparr>) w1)
          (\<lambda>w2. bind_res (CoroutineMgr_SetReady cid w2)
            (\<lambda>w3. case CFdMgr_Get ss w3 of
               None \<Rightarrow> Inl Null_Deref
             | Some l \<Rightarrow> Inr (fd_write l (\<lambda>e. e\<lparr>port_type := PORT_UDP\<rparr>) w3, IO_OK)))))"

text \<open>
  The descriptor of the entry taken out is closed with it, unless a suspended \<^verbatim>\<open>tcpconnect\<close> still
  holds a handle.
\<close>

definition DelFd :: "os \<Rightarrow> int \<Rightarrow> 'z world_scheme \<Rightarrow> 'z world_scheme" where
  "DelFd os n w =
     (let w1 = CExpireMgr_Del (word_of_int n) (fst (CMonitorEpoll_Del os n w)) in
      case CFdMgr_Exist n w1 of
        None \<Rightarrow> fst (CFdMgr_Destroy n w1)
      | Some (k, d) \<Rightarrow>
          (if fd d \<in> set (connecting w1) then fst (CFdMgr_Destroy n w1)
           else snd (sys os (Sys_close (fd d)) (fst (CFdMgr_Destroy n w1)))))"

text \<open>\<^verbatim>\<open>DoReadTcp\<close>: the request of a client, and the reply of a server.\<close>

definition NewRequest :: "stFdData \<Rightarrow> int \<Rightarrow> CMemData \<Rightarrow> int \<Rightarrow> 'z world_scheme \<Rightarrow> 'z world_scheme res" where
  "NewRequest d n md pkgsize w =
     (let (w1, cid) = CoroutineMgr_Create w;
          cb = (case sm_find (<) (check d) (m_pkgcallback w1) of None \<Rightarrow> 0 | Some p \<Rightarrow> p);
          w2 = (w1\<lparr>m_pkgcallback := sm_assign (<) (check d) cb (m_pkgcallback w1)\<rparr>)
      in (case CoroutineMgr_Get cid w2 of
            None \<Rightarrow> Inl Null_Deref
          | Some c \<Rightarrow>
            bind_res (CMemData_Copy (m_data md) (word_of_int pkgsize) (recvdata (m_req c)))
              (\<lambda>buf. bind_res (CMemData_Remove (word_of_int pkgsize) md)
                (\<lambda>_. update_node cid (\<lambda>c. c\<lparr>m_req := (m_req c)\<lparr>m_cb := cb, recvdata := buf,
                       remoteaddr := remote d, server_socket := n\<rparr>\<rparr>) w2))))"

definition DeliverReply :: "os \<Rightarrow> code \<Rightarrow> stFdData \<Rightarrow> stFdKey \<Rightarrow> CMemData \<Rightarrow> int \<Rightarrow> 'z world_scheme \<Rightarrow>
    ('z world_scheme \<times> EIORESULT) res" where
  "DeliverReply os code d key md pkgsize w =
     (if seq d = 0 then Inl Null_Call
      else let sq = code (seq d) (m_data md) (word_of_int pkgsize) in
        (case sm_find (<) sq (seq_to_coroutine d) of
           None \<Rightarrow> Inr (fst (CMonitorEpoll_Del os (fd d) w), IO_ERR)
         | Some sr \<Rightarrow> (case CoroutineMgr_Get (sr_id sr) w of
             None \<Rightarrow> Inr (fst (CMonitorEpoll_Del os (fd d) w), IO_ERR)
           | Some _ \<Rightarrow>
               bind_res (CMemData_Copy (m_data md) (CMemData_Size md) (CMemData_Clear (sr_data sr)))
                 (\<lambda>buf. bind_res
                    (CoroutineMgr_SetReady (sr_id sr)
                      (fd_write key (\<lambda>e. e\<lparr>seq_to_coroutine :=
                         sm_assign (<) sq (sr\<lparr>sr_data := buf\<rparr>) (seq_to_coroutine e)\<rparr>) w))
                    (\<lambda>w1. Inr (w1, IO_OK))))))"

definition DoReadTcp :: "os \<Rightarrow> code \<Rightarrow> int \<Rightarrow> stFdKey \<Rightarrow> 'z world_scheme \<Rightarrow> ('z world_scheme \<times> EIORESULT) res" where
  "DoReadTcp os code n key w = (case fd_read key w of
     None \<Rightarrow> Inl Null_Deref
   | Some d \<Rightarrow>
     if check d = 0 then Inr (w, IO_ERR)
     else bind_res (tcprecv os code n CMemData_new (check d) 0 w)
       (\<lambda>(w1, md, pkgsize, r).
         if pkgsize \<le> 0 \<or> r \<noteq> IO_OK
         then Inr (if r = IO_REMOTE_CLOSE then DelFd os n w1 else w1, IO_ERR)
         else if IsClient d then bind_res (NewRequest d n md pkgsize w1) (\<lambda>w2. Inr (w2, IO_OK))
         else if IsOtherConn d then DeliverReply os code d key md pkgsize w1
         else Inr (w1, IO_OK)))"

definition DoReadUdp :: "int \<Rightarrow> stFdKey \<Rightarrow> 'z world_scheme \<Rightarrow> 'z world_scheme \<times> EIORESULT" where
  "DoReadUdp n key w = (w, IO_OK)"

text \<open>\<^verbatim>\<open>DoWrite\<close> is there, but the loop does not call it.\<close>

definition DoWrite :: "int \<Rightarrow> stFdKey \<Rightarrow> 'z world_scheme \<Rightarrow> 'z world_scheme \<times> EIORESULT" where
  "DoWrite n key w = (w, IO_OK)"

definition AddServerFd :: "os \<Rightarrow> stFdData \<Rightarrow> int \<Rightarrow> EPORTTYPE \<Rightarrow> fnptr \<Rightarrow> 'z world_scheme \<Rightarrow> 'z world_scheme res" where
  "AddServerFd os raw n t cb w =
     (let w1 = fst (CMonitorEpoll_Add os n FD_READ w) in
      case CFdMgr_Add raw n w1 of
        (w2, None) \<Rightarrow> Inl Null_Deref
      | (w2, Some k) \<Rightarrow>
          Inr (fd_write k (\<lambda>e. e\<lparr>port_type := t, check := cb, fd_state := E_LISTEN\<rparr>) w2))"

subsection \<open>One turn of the loop\<close>

definition process_event :: "os \<Rightarrow> code \<Rightarrow> stFdData \<Rightarrow> int \<times> u32 \<Rightarrow> 'z world_scheme \<Rightarrow> 'z world_scheme res" where
  "process_event os code raw ev w = (case CFdMgr_Get (fst ev) w of
     None \<Rightarrow> Inr (fst (CMonitorEpoll_Del os (fst ev) w))
   | Some key \<Rightarrow> (case fd_read key w of
       None \<Rightarrow> Inl Null_Deref
     | Some d \<Rightarrow>
       if fd_state d = E_CONNECT then TcpConnect os (fst ev) (snd ev) key w
       else if IsListenFd d then
         (if CanRead (snd ev) then bind_res (NewReq os raw (fst ev) key w) (\<lambda>r. Inr (fst r)) else Inr w)
       else if CanRead (snd ev) then
         (if port_type d = PORT_TCP then bind_res (DoReadTcp os code (fst ev) key w) (\<lambda>r. Inr (fst r))
          else Inr (fst (DoReadUdp (fst ev) key w)))
       else Inr w))"

fun process_events :: "os \<Rightarrow> code \<Rightarrow> stFdData \<Rightarrow> (int \<times> u32) list \<Rightarrow> 'z world_scheme \<Rightarrow> 'z world_scheme res" where
  "process_events os code raw [] w = Inr w"
| "process_events os code raw (ev # evs) w =
     bind_res (process_event os code raw ev w) (process_events os code raw evs)"

text \<open>\<^verbatim>\<open>Schedule(id)\<close> called on the main stack: the switch, and what runs until control is back.\<close>

definition resume :: "(u32 \<Rightarrow> 'z co_state_scheme \<times> 'k \<Rightarrow> ('z co_state_scheme \<times> 'k) res) \<Rightarrow> u32 \<Rightarrow>
    'z co_state_scheme \<times> 'k \<Rightarrow> ('z co_state_scheme \<times> 'k) res" where
  "resume run cid x = (case CoroutineMgr_Get cid (fst x) of
     None \<Rightarrow> Inr x
   | Some _ \<Rightarrow> bind_res (CoroutineMgr_Schedule cid (fst x)) (\<lambda>s. run cid (s, snd x)))"

definition NUM_100 :: int where "NUM_100 = 100"

definition RunOnce :: "os \<Rightarrow> code \<Rightarrow> stFdData \<Rightarrow>
    (u32 \<Rightarrow> 'z world_scheme \<times> 'k \<Rightarrow> ('z world_scheme \<times> 'k) res) \<Rightarrow>
    'z world_scheme \<times> 'k \<Rightarrow> (('z world_scheme \<times> 'k) \<times> EIORESULT) res" where
  "RunOnce os code raw run x =
     (let (ms, cid) = CExpireMgr_NextWaitTime (fst x) in
      if cid \<noteq> 0 then
        bind_res (CoroutineMgr_SetReady cid (fst x))
          (\<lambda>w. bind_res (resume run cid (w, snd x)) (\<lambda>y. Inr (y, IO_OK)))
      else
        let (a, w1) = sys os (Sys_epoll_wait (NUM_100 - 1) (to_int ms)) (fst x) in
        if ret a = 0 then Inr ((w1, snd x), IO_OK)
        else if ret a < 0 then Inr ((w1, snd x), IO_ERR)
        else bind_res (process_events os code raw (take (nat (ret a)) (ret_events a)) w1)
          (\<lambda>w2. Inr ((w2, snd x), IO_OK)))"

subsection \<open>Frame facts\<close>

text \<open>The state outside a component is untouched by its operations.\<close>

lemma Del_world_frame [simp, frame_simps]:
  "m_fd_to_data (CExpireMgr_Del c w) = m_fd_to_data w" "m_pkgcallback (CExpireMgr_Del c w) = m_pkgcallback w"
  "m_fd (CExpireMgr_Del c w) = m_fd w" "head_id (CExpireMgr_Del c w) = head_id w"
  "calls (CExpireMgr_Del c w) = calls w" "connecting (CExpireMgr_Del c w) = connecting w"
  for w :: "'z world_scheme"
  by (simp_all add: CExpireMgr_Del_def Let_def split: option.splits)

lemma epoll_ctl_connecting [simp, frame_simps]:
  "connecting (fst (CMonitorEpoll_Add os n fe w)) = connecting w" "connecting (fst (CMonitorEpoll_Del os n w)) = connecting w"
  by (simp_all add: CMonitorEpoll_Add_def CMonitorEpoll_Del_def case_prod_beta Let_def)

lemma Create_world_frame [simp, frame_simps]:
  "m_fd_to_data (fst (CoroutineMgr_Create w)) = m_fd_to_data w"
  "m_pkgcallback (fst (CoroutineMgr_Create w)) = m_pkgcallback w"
  "calls (fst (CoroutineMgr_Create w)) = calls w" "head_id (fst (CoroutineMgr_Create w)) = head_id w"
  for w :: "'z world_scheme"
  by (simp_all add: CoroutineMgr_Create_def Let_def)

lemma Init_world_frame [simp, frame_simps]:
  "m_fd_to_data (fst (CoroutineMgr_Init w)) = m_fd_to_data w"
  "m_pkgcallback (fst (CoroutineMgr_Init w)) = m_pkgcallback w"
  "calls (fst (CoroutineMgr_Init w)) = calls w" "head_id (fst (CoroutineMgr_Init w)) = head_id w"
  for w :: "'z world_scheme"
  by (simp_all add: CoroutineMgr_Init_def case_prod_beta Let_def)

lemma update_node_frame:
  "update_node k f s = Inr s' \<Longrightarrow> \<exists>x. s' = s\<lparr>m_idtonode := x\<rparr>"
  by (auto simp: update_node_def split: option.splits)

lemma SetReady_world_frame:
  assumes "CoroutineMgr_SetReady k (w :: 'z world_scheme) = Inr w'"
  shows "m_fd_to_data w' = m_fd_to_data w" and "m_pkgcallback w' = m_pkgcallback w" and "calls w' = calls w"
    and "head_id w' = head_id w"
  using assms update_node_frame [of k "\<lambda>c. c\<lparr>m_state := E_READY\<rparr>" w]
  by (auto simp: CoroutineMgr_SetReady_def SetState_def bind_res_Inr_iff)

lemma fd_write_world_frame [simp, frame_simps]:
  "m_pkgcallback (fd_write key f w) = m_pkgcallback w" "calls (fd_write key f w) = calls w"
  "connecting (fd_write key f w) = connecting w"
  for w :: "'z world_scheme"
  by (simp_all add: fd_write_def)

lemma fd_write_co [simp]: "co_ok (fd_write key f w) = co_ok w" "co_live (fd_write key f w) = co_live w"
  by (rule co_ok_cong co_ok_cong(2); simp)+

lemma update_node_result:
  assumes ok: "co_ok s" and c: "nodes s k = Some c"
    and f: "CoroutineContext_GetID (f c) = CoroutineContext_GetID c" "m_state (f c) = m_state c"
  shows "\<exists>x. update_node k f s = Inr (s\<lparr>m_idtonode := x\<rparr>) \<and> co_ok (s\<lparr>m_idtonode := x\<rparr>) \<and>
    map_of x = (nodes s)(k \<mapsto> f c)"
proof -
  let ?x = "sm_assign (<) k (f c) (m_idtonode s)"
  have n: "map_of ?x = (nodes s)(k \<mapsto> f c)" and sx: "sm_sorted ?x"
    using co_okD(2) [OF ok] by (simp_all add: sm_assign_lin)
  have "co_ok (s\<lparr>m_idtonode := ?x\<rparr>)"
    by (rule co_okI)
      (use n sx c f co_okD [OF ok] in \<open>auto simp: n split: if_splits dest!: co_okD(7) [OF ok]\<close>)
  then show ?thesis
    using n c by (auto simp: update_node_def Get_nodes [OF ok])
qed

lemma co_live_state:
  assumes "co_ok s" and "co_ok s'" and "co_live s" and "timers s' = timers s"
    and "\<And>k. node_state s' k = Some E_WAIT \<Longrightarrow> node_state s k = Some E_WAIT"
  shows "co_live s'"
  using assms by (auto simp: co_live_iff co_okD)

lemma co_live_step:
  assumes "co_ok s" and "co_ok s'" and "co_live s"
    and "\<And>j. j \<noteq> k \<Longrightarrow> node_state s' j = node_state s j \<and> timers s' j = timers s j"
    and "node_state s' k = Some E_WAIT \<Longrightarrow> timers s' k \<noteq> None"
  shows "co_live s'"
  unfolding co_live_iff [OF co_okD(2) [OF assms(2)]]
proof (intro allI impI)
  fix j
  assume j: "node_state s' j = Some E_WAIT"
  show "timers s' j \<noteq> None"
  proof (cases "j = k")
    case False
    then have "node_state s j = Some E_WAIT" using assms(4) j by simp
    then show ?thesis
      using assms(3,4) False unfolding co_live_iff [OF co_okD(2) [OF assms(1)]] by simp
  qed (use j assms(5) in simp)
qed

subsection \<open>What arrives\<close>

lemma recv_room:
  assumes "mem_ok md" and "unat (m_offset md) + 1024 < 2 ^ 32"
  shows "\<exists>d. (if CMemData_LeftSize md \<le> DEF_RECV_SIZE then CMemData_Expand DEF_RECV_SIZE md else Inr md) = Inr d \<and>
    mem_ok d \<and> contents d = contents md \<and> m_offset d = m_offset md \<and> 1024 \<le> unat (CMemData_LeftSize d)"
  using Expand_result [OF assms(1), of DEF_RECV_SIZE] assms
  by (cases "CMemData_LeftSize md \<le> DEF_RECV_SIZE")
    (auto simp: DEF_RECV_SIZE_def word_le_nat_alt)

lemma recv_store:
  assumes d: "mem_ok d" and n: "0 < n" "n \<le> int (unat (CMemData_LeftSize d))" and bs: "length bs = nat n"
  shows "\<exists>buf addr. CMemData_GetAddr d = Some addr \<and> write_bytes addr bs (m_data d) = Inr buf \<and>
    mem_ok (CMemData_UpdateUse (word_of_int n) (d\<lparr>m_data := buf\<rparr>)) \<and>
    contents (CMemData_UpdateUse (word_of_int n) (d\<lparr>m_data := buf\<rparr>)) = contents d @ bs \<and>
    CMemData_Size (CMemData_UpdateUse (word_of_int n) (d\<lparr>m_data := buf\<rparr>)) = m_offset d + word_of_int n"
proof -
  let ?o = "unat (m_offset d)" and ?len = "length (m_data d)"
  have room: "?o + nat n \<le> ?len" and len: "?len < 2 ^ 32"
    using n d unfolding unat_LeftSize [OF d] mem_ok_def by linarith+
  let ?buf = "take ?o (m_data d) @ bs @ drop (?o + nat n) (m_data d)"
  have ne: "m_data d \<noteq> []" using room n(1) by auto
  have w: "write_bytes ?o bs (m_data d) = Inr ?buf"
    using room bs by (simp add: write_bytes_def)
  have "word_of_int n = (of_nat (nat n) :: u32)" using n(1) by simp
  then have un: "unat (word_of_int n :: u32) = nat n"
    using unat_of_nat_u32 [of "nat n"] room len by simp
  then have off: "unat (m_offset d + word_of_int n) = ?o + nat n"
    using room len by (simp add: unat_add_u32)
  let ?d' = "CMemData_UpdateUse (word_of_int n) (d\<lparr>m_data := ?buf\<rparr>)"
  have o: "m_offset ?d' = m_offset d + word_of_int n" "m_data ?d' = ?buf"
    by (simp_all add: CMemData_UpdateUse_def)
  have l: "length ?buf = ?len" using room bs by simp
  have ok: "mem_ok ?d'" unfolding mem_ok_def o off l using room len by simp
  have cont: "contents ?d' = contents d @ bs"
    unfolding contents_def o off using room bs by simp
  have "CMemData_GetAddr d = Some ?o" using ne by (simp add: CMemData_GetAddr_def)
  then show ?thesis
    using w ok cont o(1) unfolding CMemData_Size_def by blast
qed

lemma tcprecv_received:
  assumes os: "recv_documented os" and server: "0 \<le> server" and cb: "cb \<noteq> 0"
    and md: "mem_ok md" "unat (m_offset md) + 1024 < 2 ^ 32"
  shows "\<exists>d len sz r. tcprecv os code server md cb p w = Inr (snd (sys os (Sys_recv server len) w), d, sz, r) \<and>
    1024 \<le> len \<and> mem_ok d \<and>
    contents d = contents md @
      (if 0 < ret (os (calls w) (Sys_recv server len)) then ret_bytes (os (calls w) (Sys_recv server len)) else []) \<and>
    (sz, r) =
      (if ret (os (calls w) (Sys_recv server len)) < 0
       then (p, if errno (os (calls w) (Sys_recv server len)) \<in> {EINTR, EAGAIN} then IO_OK else IO_ERR)
       else if ret (os (calls w) (Sys_recv server len)) = 0 then (p, IO_REMOTE_CLOSE)
       else (code cb (m_data d) (CMemData_Size d),
             if 0 < code cb (m_data d) (CMemData_Size d) then IO_OK else IO_ERR))"
proof -
  obtain d where d: "(if CMemData_LeftSize md \<le> DEF_RECV_SIZE then CMemData_Expand DEF_RECV_SIZE md else Inr md) = Inr d"
      "mem_ok d" "contents d = contents md" "m_offset d = m_offset md" "1024 \<le> unat (CMemData_LeftSize d)"
    using recv_room [OF md] by blast
  define len where "len = unat (CMemData_LeftSize d)"
  define a where "a = os (calls w) (Sys_recv server len)"
  have doc: "ret a \<le> int len" "0 < ret a \<Longrightarrow> length (ret_bytes a) = nat (ret a)"
    using os by (simp_all add: recv_documented_def a_def)
  show ?thesis
  proof (cases "0 < ret a")
    case False
    then show ?thesis
      using server d
      by (intro exI [of _ d] exI [of _ len])
        (auto simp: tcprecv_def len_def [symmetric] a_def [symmetric] Let_def case_prod_beta)
  next
    case True
    obtain buf addr where buf: "CMemData_GetAddr d = Some addr" "write_bytes addr (ret_bytes a) (m_data d) = Inr buf"
        "mem_ok (CMemData_UpdateUse (word_of_int (ret a)) (d\<lparr>m_data := buf\<rparr>))"
        "contents (CMemData_UpdateUse (word_of_int (ret a)) (d\<lparr>m_data := buf\<rparr>)) = contents d @ ret_bytes a"
      using recv_store [OF d(2) True doc(1) [unfolded len_def] doc(2) [OF True]] by blast
    let ?d = "CMemData_UpdateUse (word_of_int (ret a)) (d\<lparr>m_data := buf\<rparr>)"
    have "take (nat (ret a)) (ret_bytes a) = ret_bytes a" using doc(2) [OF True] by simp
    then show ?thesis
      using True server cb d(1,3,5) buf
      by (intro exI [of _ ?d] exI [of _ len])
        (auto simp: tcprecv_def len_def [symmetric] a_def [symmetric] Let_def case_prod_beta)
  qed
qed

subsection \<open>A client's request\<close>

lemma Create_fresh_node:
  assumes "co_ok s" and "nodes s (staticid s + 1) = None"
  shows "nodes (fst (CoroutineMgr_Create s)) (staticid s + 1) =
    Some ((CoroutineContext_new (clock s))\<lparr>m_req := stReqData_new\<lparr>req_id := staticid s + 1\<rparr>\<rparr>)"
  using assms co_okD(2) [OF assms(1)]
  by (simp add: CoroutineMgr_Create_def Let_def sm_find_lin sm_assign_lin CoroutineContext_new_def)

lemma unat_of_int_u32: "0 \<le> i \<Longrightarrow> i < 2 ^ 32 \<Longrightarrow> unat (word_of_int i :: u32) = nat i"
  using unat_of_nat_u32 [of "nat i"] by simp

lemma NewRequest_result:
  assumes ok: "co_ok w" "co_live w" and fresh: "nodes w (staticid w + 1) = None" and md: "mem_ok md"
    and sz: "0 < sz" "sz \<le> int (unat (CMemData_Size md))"
    and cb: "sm_find (<) (check d) (m_pkgcallback w) = Some cb"
  shows "\<exists>w' c. NewRequest d n md sz w = Inr w' \<and> co_ok w' \<and> co_live w' \<and>
    nodes w' = (nodes w)(staticid w + 1 \<mapsto> c) \<and> m_state c = E_READY \<and>
    contents (recvdata (m_req c)) = take (nat sz) (contents md) \<and> m_cb (m_req c) = cb \<and>
    server_socket (m_req c) = n \<and> remoteaddr (m_req c) = remote d \<and>
    timers w' = timers w \<and> control w' = control w \<and> m_fd_to_data w' = m_fd_to_data w \<and>
    mem_ok (recvdata (m_req c)) \<and> calls w' = calls w \<and> head_id w' = head_id w \<and> clock w' = clock w"
proof -
  let ?k = "staticid w + 1" and ?sz = "word_of_int sz :: u32"
  let ?c0 = "(CoroutineContext_new (clock w))\<lparr>m_req := stReqData_new\<lparr>req_id := ?k\<rparr>\<rparr>"
  obtain w1 c1 where w1: "CoroutineMgr_Create w = (w1, ?k)" "co_ok w1" "nodes w1 = (nodes w)(?k \<mapsto> c1)"
      "timers w1 = timers w" "control w1 = control w" "clock w1 = clock w"
    using Create_result [OF ok(1) fresh] by blast
  have c0: "nodes w1 ?k = Some ?c0" using Create_fresh_node [OF ok(1) fresh] w1(1) by simp
  then have n1: "nodes w1 = (nodes w)(?k \<mapsto> ?c0)" using w1(3) by simp
  have frame: "m_fd_to_data w1 = m_fd_to_data w" "m_pkgcallback w1 = m_pkgcallback w" "calls w1 = calls w" "head_id w1 = head_id w"
    using Create_world_frame [of w] w1(1) by simp_all
  define w2 where "w2 = w1\<lparr>m_pkgcallback := sm_assign (<) (check d) cb (m_pkgcallback w1)\<rparr>"
  have w2: "w1\<lparr>m_pkgcallback := sm_assign (<) (check d) cb (m_pkgcallback w)\<rparr> = w2"
    by (simp add: w2_def frame)
  have ok2: "co_ok w2" using w1(2) co_ok_cong(1) [of w2 w1] by (simp add: w2_def)
  have n2: "nodes w2 ?k = Some ?c0" using c0 by (simp add: w2_def)
  have size: "int (unat (CMemData_Size md)) < 2 ^ 32" "unat (CMemData_Size md) \<le> length (m_data md)"
    using md unsigned_less [of "CMemData_Size md", where 'a = int]
    by (simp_all add: mem_ok_def CMemData_Size_def)
  have usz: "unat ?sz = nat sz" using sz size(1) by (intro unat_of_int_u32) linarith+
  have len: "unat ?sz \<le> length (m_data md)" using usz sz size(2) by linarith
  have "unat (m_offset CMemData_new) + unat ?sz < 2 ^ 32"
    using usz sz size(1) by (simp add: CMemData_new_def)
  then obtain buf where buf: "CMemData_Copy (m_data md) ?sz CMemData_new = Inr buf"
      "contents buf = take (nat sz) (m_data md)" "mem_ok buf"
    using Copy_result [OF mem_ok_new _ len] usz by auto
  have cont: "contents buf = take (nat sz) (contents md)"
    using buf(2) sz by (simp add: contents_def CMemData_Size_def min_def nat_le_iff)
  have rem: "\<exists>m. CMemData_Remove ?sz md = Inr m" using Remove_result [OF len] by simp
  let ?f = "\<lambda>c. c\<lparr>m_req := (m_req c)\<lparr>m_cb := cb, recvdata := buf, remoteaddr := remote d, server_socket := n\<rparr>\<rparr>"
  obtain x where x: "update_node ?k ?f w2 = Inr (w2\<lparr>m_idtonode := x\<rparr>)" "co_ok (w2\<lparr>m_idtonode := x\<rparr>)"
      "map_of x = (nodes w2)(?k \<mapsto> ?f ?c0)"
    using update_node_result [OF ok2 n2, of ?f] by (auto simp: CoroutineContext_GetID_def)
  have "NewRequest d n md sz w = Inr (w2\<lparr>m_idtonode := x\<rparr>)"
    using w1(1) cb frame(2) n2 buf(1) rem x(1) Get_nodes [OF ok2] w2
    by (auto simp: NewRequest_def stReqData_new_def Let_def)
  moreover have nodes: "nodes (w2\<lparr>m_idtonode := x\<rparr>) = (nodes w)(?k \<mapsto> ?f ?c0)"
    using x(3) n1 by (simp add: w2_def)
  moreover have "co_live (w2\<lparr>m_idtonode := x\<rparr>)"
    by (rule co_live_state [OF ok(1) x(2) ok(2)])
      (use nodes w1(4) in \<open>auto simp: w2_def CoroutineContext_new_def split: if_splits\<close>)
  ultimately show ?thesis
    using x(2) w1(4-6) frame(1,3,4) cont buf(3)
    by (intro exI [of _ "w2\<lparr>m_idtonode := x\<rparr>"] exI [of _ "?f ?c0"])
      (simp add: w2_def CoroutineContext_new_def)
qed

text \<open>
  The read handlers start with an empty buffer: the answer to the one \<^verbatim>\<open>recv\<close>, the buffer after it
  and what the check function says of it.
\<close>

definition recv_answer :: "os \<Rightarrow> int \<Rightarrow> 'z world_scheme \<Rightarrow> answer" where
  "recv_answer os n w = os (calls w) (Sys_recv n 1024)"

definition recv_buffer :: "os \<Rightarrow> int \<Rightarrow> 'z world_scheme \<Rightarrow> CMemData" where
  "recv_buffer os n w =
     \<lparr>m_data = ret_bytes (recv_answer os n w) @ replicate (1024 - length (ret_bytes (recv_answer os n w))) 0,
      m_offset = of_nat (length (ret_bytes (recv_answer os n w)))\<rparr>"

definition checked_size :: "os \<Rightarrow> code \<Rightarrow> fnptr \<Rightarrow> int \<Rightarrow> 'z world_scheme \<Rightarrow> int" where
  "checked_size os code cb n w = code cb (m_data (recv_buffer os n w)) (m_offset (recv_buffer os n w))"

abbreviation after_recv :: "os \<Rightarrow> int \<Rightarrow> 'z world_scheme \<Rightarrow> 'z world_scheme" where
  "after_recv os n w \<equiv> snd (sys os (Sys_recv n 1024) w)"

lemma recv_buffer_ok:
  assumes os: "recv_documented os" and pos: "0 < ret (recv_answer os n w)"
  shows "length (ret_bytes (recv_answer os n w)) \<le> 1024" and "ret (recv_answer os n w) \<le> 1024"
    and "mem_ok (recv_buffer os n w)" and "contents (recv_buffer os n w) = ret_bytes (recv_answer os n w)"
    and "int (unat (CMemData_Size (recv_buffer os n w))) = ret (recv_answer os n w)"
    and "length (m_data (recv_buffer os n w)) = 1024"
proof -
  let ?bs = "ret_bytes (recv_answer os n w)" and ?r = "ret (recv_answer os n w)"
  have doc: "?r \<le> int 1024" "length ?bs = nat ?r"
    using os pos unfolding recv_documented_def recv_answer_def by blast+
  then show "length ?bs \<le> 1024" "?r \<le> 1024" by simp_all
  then have u: "unat (of_nat (length ?bs) :: u32) = length ?bs"
    by (intro unat_of_nat_u32) simp
  show "length (m_data (recv_buffer os n w)) = 1024"
    using \<open>length ?bs \<le> 1024\<close> by (simp add: recv_buffer_def)
  show "mem_ok (recv_buffer os n w)"
    using \<open>length ?bs \<le> 1024\<close> u by (simp add: mem_ok_def recv_buffer_def)
  show "contents (recv_buffer os n w) = ?bs"
    using u by (simp add: contents_def recv_buffer_def)
  show "int (unat (CMemData_Size (recv_buffer os n w))) = ?r"
    using u doc pos by (simp add: CMemData_Size_def recv_buffer_def)
qed

lemma tcprecv_fresh:
  assumes os: "recv_documented os" and n: "0 \<le> n" and cb: "cb \<noteq> 0" and pos: "0 < ret (recv_answer os n w)"
  shows "tcprecv os code n CMemData_new cb 0 w =
    Inr (after_recv os n w, recv_buffer os n w, checked_size os code cb n w,
         if 0 < checked_size os code cb n w then IO_OK else IO_ERR)"
proof -
  let ?a = "recv_answer os n w"
  let ?d = "\<lparr>m_data = replicate 1024 0, m_offset = 0 :: u32\<rparr>"
  note b = recv_buffer_ok [OF os pos]
  have exp: "CMemData_Expand DEF_RECV_SIZE CMemData_new = Inr ?d"
    by (simp add: CMemData_Expand_def CMemData_new_def DEF_RECV_SIZE_def read_bytes_def write_bytes_def Let_def)
  have left: "unat (CMemData_LeftSize ?d) = 1024" "CMemData_LeftSize CMemData_new \<le> DEF_RECV_SIZE"
    by (simp_all add: CMemData_LeftSize_def CMemData_new_def DEF_RECV_SIZE_def)
  have bytes: "length (ret_bytes ?a) = nat (ret ?a)"
    using os pos unfolding recv_documented_def recv_answer_def by blast
  have addr: "CMemData_GetAddr ?d = Some 0" by (simp add: CMemData_GetAddr_def)
  have wr: "write_bytes 0 (ret_bytes ?a) (replicate 1024 0) = Inr (m_data (recv_buffer os n w))"
    using b(1) by (simp add: write_bytes_def recv_buffer_def)
  have "word_of_int (ret ?a) = (of_nat (length (ret_bytes ?a)) :: u32)"
    using bytes pos by simp
  then have upd: "CMemData_UpdateUse (word_of_int (ret ?a)) (?d\<lparr>m_data := m_data (recv_buffer os n w)\<rparr>) =
      recv_buffer os n w"
    by (simp add: CMemData_UpdateUse_def recv_buffer_def)
  show ?thesis
    using n cb pos exp left bytes addr wr upd
    by (simp add: tcprecv_def case_prod_beta recv_answer_def Let_def checked_size_def CMemData_Size_def)
qed

lemma read_request:
  assumes os: "recv_documented os" and n: "0 \<le> n" and pos: "0 < ret (recv_answer os n w)"
    and d: "fd_read key w = Some d" "check d \<noteq> 0" "fd_state d = E_SERVER_CONN"
    and sz: "0 < checked_size os code (check d) n w"
  shows "DoReadTcp os code n key w =
    bind_res (NewRequest d n (recv_buffer os n w) (checked_size os code (check d) n w) (after_recv os n w))
      (\<lambda>w2. Inr (w2, IO_OK))"
  using d sz tcprecv_fresh [OF os n d(2) pos, of code] by (simp add: DoReadTcp_def IsClient_def)

lemma read_reply:
  assumes os: "recv_documented os" and n: "0 \<le> n" and pos: "0 < ret (recv_answer os n w)"
    and d: "fd_read key w = Some d" "check d \<noteq> 0" "fd_state d = E_OTHER"
    and sz: "0 < checked_size os code (check d) n w"
  shows "DoReadTcp os code n key w =
    DeliverReply os code d key (recv_buffer os n w) (checked_size os code (check d) n w) (after_recv os n w)"
  using d sz tcprecv_fresh [OF os n d(2) pos, of code]
  by (simp add: DoReadTcp_def IsClient_def IsOtherConn_def)

subsection \<open>A server's reply\<close>

lemma DeliverReply_result:
  assumes ok: "co_ok w" "co_live w" and md: "mem_ok md" and sq: "seq d \<noteq> 0"
    and sr: "map_of (seq_to_coroutine d) (code (seq d) (m_data md) (word_of_int sz)) = Some sr"
      "sm_sorted (seq_to_coroutine d)" "mem_ok (sr_data sr)"
    and c: "nodes w (sr_id sr) = Some c" and key: "fd_read key w = Some d"
  shows "\<exists>w' d' buf. DeliverReply os code d key md sz w = Inr (w', IO_OK) \<and> co_ok w' \<and> co_live w' \<and>
    nodes w' = (nodes w)(sr_id sr \<mapsto> c\<lparr>m_state := E_READY\<rparr>) \<and> timers w' = (timers w)(sr_id sr := None) \<and>
    control w' = control w \<and> fd_table w' = (fd_table w)(key \<mapsto> d') \<and> sm_sorted (seq_to_coroutine d') \<and>
    map_of (seq_to_coroutine d') =
      (map_of (seq_to_coroutine d))(code (seq d) (m_data md) (word_of_int sz) \<mapsto> sr\<lparr>sr_data := buf\<rparr>) \<and>
    contents buf = contents md \<and> mem_ok buf \<and> calls w' = calls w \<and> head_id w' = head_id w \<and> clock w' = clock w \<and>
    (fd_ok w \<longrightarrow> fd_ok w')"
proof -
  let ?sq = "code (seq d) (m_data md) (word_of_int sz)"
  let ?src = "CMemData_Clear (sr_data sr)"
  have len: "unat (CMemData_Size md) \<le> length (m_data md)"
    using md by (simp add: mem_ok_def CMemData_Size_def)
  have "unat (m_offset ?src) + unat (CMemData_Size md) < 2 ^ 32"
    using unsigned_less [of "CMemData_Size md", where 'a = nat] by (simp add: CMemData_Clear_def)
  then obtain buf where buf: "CMemData_Copy (m_data md) (CMemData_Size md) ?src = Inr buf"
      "contents buf = contents md" "mem_ok buf"
    using Copy_result [OF mem_ok_Clear [OF sr(3)] _ len] unfolding contents_Clear append_Nil
    by (auto simp: contents_def [of md] CMemData_Size_def)
  let ?f = "\<lambda>e. e\<lparr>seq_to_coroutine := sm_assign (<) ?sq (sr\<lparr>sr_data := buf\<rparr>) (seq_to_coroutine e)\<rparr>"
  let ?w1 = "fd_write key ?f w"
  obtain w' where w': "CoroutineMgr_SetReady (sr_id sr) ?w1 = Inr w'" "co_ok w'"
      "nodes w' = (nodes ?w1)(sr_id sr \<mapsto> c\<lparr>m_state := E_READY\<rparr>)" "timers w' = (timers ?w1)(sr_id sr := None)"
      "control w' = control ?w1" "clock w' = clock ?w1"
    using SetReady_result [of ?w1 "sr_id sr" c] ok(1) c by auto
  have "DeliverReply os code d key md sz w = Inr (w', IO_OK)"
    using sq sr(1,2) c buf(1) w'(1) Get_nodes [OF ok(1)]
    by (simp add: DeliverReply_def Let_def sm_find_lin)
  moreover have "co_live w'"
    using ok w'(2-4) by (auto simp: co_live_iff co_okD split: if_splits)
  moreover have "fd_table w' = (fd_table w)(key \<mapsto> ?f d)"
    using SetReady_world_frame(1) [OF w'(1)] key by (simp add: fd_write_table fd_read_def)
  moreover have "map_of (seq_to_coroutine (?f d)) = (map_of (seq_to_coroutine d))(?sq \<mapsto> sr\<lparr>sr_data := buf\<rparr>)"
    using sr(2) by (simp add: sm_assign_lin)
  moreover have "sm_sorted (seq_to_coroutine (?f d))"
    using sr(2) by simp
  moreover have "fd_ok w'" if "fd_ok w"
    using fd_write_ok [OF that, of ?f key] fd_ok_cong [OF SetReady_world_frame(1) [OF w'(1)]] by simp
  ultimately show ?thesis
    using w' buf(2,3) SetReady_world_frame(3,4) [OF w'(1)]
    by (intro exI [of _ w'] exI [of _ "?f d"] exI [of _ buf]) (simp add: fd_write_def)
qed

subsection \<open>Accepting a client\<close>

lemma fd_read_after_write: "fd_read k (fd_write k f w) = map_option f (fd_read k w)"
  by (simp add: fd_read_def fd_write_table)

lemma fd_read_other: "k \<noteq> l \<Longrightarrow> fd_read l (fd_write k f w) = fd_read l w"
  by (simp add: fd_read_def fd_write_table)

lemma fd_write_keys_eq: "fd_keys (fd_write k f w) = fd_keys w"
  using arg_cong [OF fd_write_keys, of set k f w] by simp

text \<open>The entry of a listening socket is always found, having no address.\<close>

lemma Get_listen:
  assumes "fd_ok w" and "0 \<le> n" and "fd_key n \<in> fd_keys w"
  shows "CFdMgr_Get n w = Some (fd_key n)"
  using assms Get_iff [OF assms(1,2), of "fd_key n"] by (simp add: fd_visible_def fd_key_def)

lemma NewReq_tcp_result:
  assumes ok: "fd_ok w" and ss: "0 \<le> ss" "fd_read (fd_key ss) w = Some ld" "port_type ld = PORT_TCP"
    and a: "a = os (calls w) (Sys_accept ss)" "fd_fresh (ret a) w"
  shows "\<exists>w' e. NewReq os raw ss (fd_key ss) w = Inr (w', IO_OK) \<and> fd_ok w' \<and>
    fd_table w' = (fd_table w)(fd_key (ret a) \<mapsto> e) \<and> fd e = ret a \<and> fd_state e = E_SERVER_CONN \<and>
    port_type e = PORT_TCP \<and> check e = check ld \<and> remote e = ret_addr a \<and>
    CFdMgr_Get (ret a) w' = Some (fd_key (ret a)) \<and> m_idtonode w' = m_idtonode w \<and>
    m_id_to_expire w' = m_id_to_expire w \<and> m_expire_to_id w' = m_expire_to_id w \<and>
    m_active w' = m_active w \<and> control w' = control w \<and>
    calls w' = calls w @ [Sys_accept ss, Sys_epoll_ctl CTL_ADD (ret a) (EFDEVENT_mask FD_READ)]"
proof -
  define n where "n = ret a"
  let ?k = "fd_key n" and ?l = "fd_key ss"
  define w1 where "w1 = snd (sys os (Sys_accept ss) w)"
  have ok1: "fd_ok w1" and fresh: "fd_fresh n w1" using ok a(2) by (simp_all add: w1_def n_def fd_fresh_def)
  have n0: "0 \<le> n" using fresh by (simp add: fd_fresh_def)
  have sk: "?l \<in> fd_keys w"
    using ss(2) by (auto simp: fd_read_def dest!: map_of_SomeD intro: rev_image_eqI)
  have "ss \<in> socket_fd ` fd_keys w" using imageI [OF sk, of socket_fd] by (simp only: fd_key_def stFdKey.sel)
  then have "n \<noteq> ss" using a(2) unfolding fd_fresh_def n_def by blast
  then have ne: "?k \<noteq> ?l" by (simp add: fd_key_def)
  let ?e0 = "(stFdData_new raw)\<lparr>fd := n\<rparr>"
  obtain x where x: "CFdMgr_Add raw n w1 = (w1\<lparr>m_fd_to_data := x\<rparr>, Some ?k)"
      "fd_ok (w1\<lparr>m_fd_to_data := x\<rparr>)" "map_of x = (fd_table w1)(?k \<mapsto> ?e0)"
    using Add_result [OF ok1 fresh, of raw] by blast
  define w2 where "w2 = w1\<lparr>m_fd_to_data := x\<rparr>"
  define w3 where "w3 = fd_write ?k (\<lambda>e. e\<lparr>remote := ret_addr a, port_type := PORT_TCP\<rparr>) w2"
  have ok3: "fd_ok w3" unfolding w3_def by (rule fd_write_ok) (use x(2) w2_def in simp_all)
  have r3: "fd_read ?l w3 = Some ld"
    using ss(2) ne x(3) by (simp add: w3_def w2_def fd_read_def fd_write_table w1_def)
  then have "?l \<in> fd_keys w3"
    by (auto simp: fd_read_def dest!: map_of_SomeD intro: rev_image_eqI)
  then have g3: "CFdMgr_Get ss w3 = Some ?l" by (rule Get_listen [OF ok3 ss(1)])
  define w4 where "w4 = fd_write ?k (\<lambda>e. e\<lparr>check := check ld, fd_state := E_SERVER_CONN\<rparr>) w3"
  have ok4: "fd_ok w4" unfolding w4_def by (rule fd_write_ok) (use ok3 in simp_all)
  define w5 where "w5 = fst (CMonitorEpoll_Add os n FD_READ w4)"
  have w5: "w5 = snd (sys os (Sys_epoll_ctl CTL_ADD n (EFDEVENT_mask FD_READ)) w4)"
    by (simp add: w5_def CMonitorEpoll_Add_def case_prod_beta Let_def)
  have ok5: "fd_ok w5" using ok4 by (simp add: w5)
  let ?e = "?e0\<lparr>remote := ret_addr a, port_type := PORT_TCP, check := check ld, fd_state := E_SERVER_CONN\<rparr>"
  have t5: "fd_table w5 = (fd_table w)(?k \<mapsto> ?e)"
    by (simp add: w5 w4_def w3_def w2_def fd_write_table x(3)) (simp add: w1_def)
  then have k5: "?k \<in> fd_keys w5"
    by (metis fun_upd_same map_of_SomeD fst_conv image_eqI)
  have s1: "sys os (Sys_accept ss) w = (a, w1)" by (simp add: prod_eq_iff w1_def a(1))
  have x1: "CFdMgr_Add raw n w1 = (w2, Some ?k)" using x(1) by (simp add: w2_def)
  have "NewReq os raw ss ?l w = Inr (w5, IO_OK)"
    using ss(2,3) s1 n0 x1 g3 r3
    by (simp add: NewReq_def Let_def n_def [symmetric]
        w3_def [symmetric] w4_def [symmetric] w5_def [symmetric])
  moreover have "CFdMgr_Get n w5 = Some ?k" by (rule Get_listen [OF ok5 n0 k5])
  ultimately show ?thesis
    using ok5 t5 unfolding n_def [symmetric]
    by (intro exI [of _ w5] exI [of _ ?e]) (simp add: w5 w4_def w3_def w2_def w1_def)
qed

subsection \<open>An example state\<close>

text \<open>
  After \<^verbatim>\<open>Init\<close> and one \<^verbatim>\<open>Create\<close>: a listening socket 4, a client on 7, and a connection to a
  server on 9 with one request outstanding, that of coroutine 1. The system delivers three
  bytes to every \<^verbatim>\<open>recv\<close> and accepts descriptor 8.
\<close>

definition example_os :: os where
  "example_os cs c = \<lparr>ret = (case c of Sys_recv n len \<Rightarrow> if 3 \<le> len then 3 else 0 | Sys_accept n \<Rightarrow> 8
       | Sys_send n bs \<Rightarrow> int (length bs) | _ \<Rightarrow> 0),
     errno = 0, ret_bytes = [1, 2, 3], ret_addr = \<lparr>sin_addr = 1, sin_port = 2\<rparr>, ret_events = [],
     ret_time = \<lparr>tv_sec = 1, tv_usec = 0\<rparr>\<rparr>"

definition example_code :: code where
  "example_code p bs len = (if p = 1 then uint len else if p = 2 then 5 else 2000)"

definition example_fds :: "(stFdKey, stFdData) smap" where
  "example_fds =
     [(fd_key 4, example_raw\<lparr>fd := 4, fd_state := E_LISTEN, check := 1\<rparr>),
      (fd_key 7, example_raw\<lparr>fd := 7, fd_state := E_SERVER_CONN, check := 1\<rparr>),
      (FdKey (IpPort ''10.0.0.1'' 80 PORT_TCP) 9, example_raw\<lparr>fd := 9, fd_state := E_OTHER, check := 1,
         seq := 2, seq_to_coroutine := [(5, \<lparr>sr_id = 1, sr_data = CMemData_new\<rparr>)]\<rparr>)]"

definition example_world :: world where
  "example_world = (fst (CoroutineMgr_Create (fst (CoroutineMgr_Init (world_start \<lparr>tv_sec = 1, tv_usec = 0\<rparr>)))))
     \<lparr>m_fd_to_data := example_fds, m_pkgcallback := [(1, 10), (3, 10)]\<rparr>"

lemma example_world_facts:
  "co_ok example_world" "co_live example_world" "control example_world = 0" "staticid example_world = 1"
  "timers example_world = Map.empty" "\<exists>c. nodes example_world 1 = Some c"
  "nodes example_world 2 = None" "clock example_world = \<lparr>tv_sec = 1, tv_usec = 0\<rparr>"
  "dom (nodes example_world) = {0, 1}" "calls example_world = []"
proof -
  let ?w0 = "world_start \<lparr>tv_sec = 1, tv_usec = 0\<rparr>"
  obtain w1 c1 where w1: "CoroutineMgr_Init ?w0 = (w1, IO_OK)" "co_ok w1" "co_live w1" "nodes w1 = [0 \<mapsto> c1]"
      "m_state c1 = E_READY" "timers w1 = Map.empty" "control w1 = 0" "staticid w1 = 0" "clock w1 = clock ?w0"
    using Init_result [of ?w0] by (auto simp: world_start_def)
  have fresh: "nodes w1 (staticid w1 + 1) = None" using w1(4,8) by simp
  obtain w2 c2 where w2: "CoroutineMgr_Create w1 = (w2, staticid w1 + 1)" "co_ok w2"
      "nodes w2 = (nodes w1)(staticid w1 + 1 \<mapsto> c2)" "m_state c2 = E_READY"
      "timers w2 = timers w1" "control w2 = control w1" "staticid w2 = staticid w1 + 1"
      "clock w2 = clock w1"
    using Create_result [OF w1(2) fresh] by blast
  have w: "example_world = w2\<lparr>m_fd_to_data := example_fds, m_pkgcallback := [(1, 10), (3, 10)]\<rparr>"
    by (simp add: example_world_def w1(1) w2(1))
  have live: "co_live w2"
    by (rule co_live_state [OF w1(2) w2(2) w1(3) w2(5)]) (use w2(3,4) in \<open>auto split: if_splits\<close>)
  have calls: "calls w2 = []"
    using Init_world_frame(3) [of ?w0] Create_world_frame(3) [of w1] by (simp add: w1(1) w2(1)) (simp add: world_start_def)
  show "co_ok example_world" "co_live example_world" "control example_world = 0"
    "staticid example_world = 1" "timers example_world = Map.empty" "\<exists>c. nodes example_world 1 = Some c"
    "nodes example_world 2 = None" "clock example_world = \<lparr>tv_sec = 1, tv_usec = 0\<rparr>"
    "dom (nodes example_world) = {0, 1}" "calls example_world = []"
    using w1 w2 live co_ok_cong [of example_world w2] by (simp_all add: w calls world_start_def insert_commute)
qed

lemma example_world_fds:
  "fd_ok example_world" "m_fd_to_data example_world = example_fds" "m_pkgcallback example_world = [(1, 10), (3, 10)]"
proof -
  show e: "m_fd_to_data example_world = example_fds" "m_pkgcallback example_world = [(1, 10), (3, 10)]"
    by (simp_all add: example_world_def)
  show "fd_ok example_world"
    unfolding fd_ok_def e
    by (auto simp: example_fds_def consistent_def key_wf_def fd_key_def key_less_def stIpPort_empty_def
        stIpPort_new_def stFd_empty_def less_stIpPort_def ip_port_less_def sm_ok_def)
qed

lemma example_os_documented: "recv_documented example_os"
  by (auto simp: recv_documented_def example_os_def)

lemma example_recv:
  "recv_answer example_os n w = \<lparr>ret = 3, errno = 0, ret_bytes = [1, 2, 3],
     ret_addr = \<lparr>sin_addr = 1, sin_port = 2\<rparr>, ret_events = [], ret_time = \<lparr>tv_sec = 1, tv_usec = 0\<rparr>\<rparr>"
  "checked_size example_os example_code 1 n w = 3"
  "checked_size example_os example_code 3 n w = 2000"
  by (simp_all add: recv_answer_def example_os_def checked_size_def recv_buffer_def example_code_def)

lemma example_read:
  "fd_read (fd_key 4) example_world = Some (example_raw\<lparr>fd := 4, fd_state := E_LISTEN, check := 1\<rparr>)"
  "fd_read (fd_key 7) example_world = Some (example_raw\<lparr>fd := 7, fd_state := E_SERVER_CONN, check := 1\<rparr>)"
  "fd_read (FdKey (IpPort ''10.0.0.1'' 80 PORT_TCP) 9) example_world =
     Some (example_raw\<lparr>fd := 9, fd_state := E_OTHER, check := 1,
         seq := 2, seq_to_coroutine := [(5, \<lparr>sr_id = 1, sr_data = CMemData_new\<rparr>)]\<rparr>)"
  by (simp_all add: fd_read_def example_world_fds example_fds_def fd_key_def stIpPort_new_def)

subsection \<open>A check function that claims too much\<close>

text \<open>
  Nothing compares the result of the check function with the number of bytes received, so that
  the copy of the request can run past the buffer.
\<close>

lemma oversized_request:
  assumes "recv_documented os" and "co_ok w" and "co_live w" and "fd_read key w = Some d"
    and "fd_state d = E_SERVER_CONN" and "check d \<noteq> 0" and "0 \<le> n" and "0 < ret (recv_answer os n w)"
    and "1024 < checked_size os code (check d) n w" and "checked_size os code (check d) n w < 2 ^ 31"
    and "nodes w (staticid w + 1) = None"
  shows "DoReadTcp os code n key w = Inl Out_Of_Bounds"
proof -
  let ?sz = "checked_size os code (check d) n w" and ?w1 = "after_recv os n w"
  let ?len = "word_of_int ?sz :: u32" and ?md = "recv_buffer os n w"
  note b = recv_buffer_ok [OF assms(1,8)]
  have pos: "0 < ?sz" using assms(9) by linarith
  have u: "unat ?len = nat ?sz" using assms(9,10) by (intro unat_of_int_u32) simp_all
  have ok1: "co_ok ?w1" "nodes ?w1 (staticid ?w1 + 1) = None" using assms(2,11) by simp_all
  have node: "nodes (fst (CoroutineMgr_Create ?w1)) (staticid w + 1) =
      Some ((CoroutineContext_new (clock ?w1))\<lparr>m_req := stReqData_new\<lparr>req_id := staticid w + 1\<rparr>\<rparr>)"
    using Create_fresh_node [OF ok1] by simp
  obtain w2 where w2: "CoroutineMgr_Create ?w1 = (w2, staticid w + 1)" "co_ok w2"
    using Create_result [OF ok1] by auto
  have big: "1024 < unat ?len" using u assms(9) by linarith
  have copy: "CMemData_Copy (m_data ?md) ?len CMemData_new = Inl Out_Of_Bounds"
  proof -
    have "CMemData_LeftSize CMemData_new < ?len"
      using big by (simp add: CMemData_LeftSize_def CMemData_new_def word_less_nat_alt)
    moreover have "CMemData_Expand ?len CMemData_new = Inr \<lparr>m_data = replicate (unat ?len) 0, m_offset = 0\<rparr>"
      using big by (simp add: CMemData_Expand_def CMemData_new_def read_bytes_def write_bytes_def)
    moreover have "read_bytes (unat ?len) (m_data ?md) = Inl Out_Of_Bounds"
      using big b(6) by (simp add: read_bytes_def)
    ultimately show ?thesis
      using big by (simp add: CMemData_Copy_def CMemData_GetAddr_def)
  qed
  have get: "CoroutineMgr_Get (staticid w + 1) (w2\<lparr>m_pkgcallback := y\<rparr>) =
      Some ((CoroutineContext_new (clock ?w1))\<lparr>m_req := stReqData_new\<lparr>req_id := staticid w + 1\<rparr>\<rparr>)" for y
    using node w2 Get_nodes [OF w2(2)] by (simp add: CoroutineMgr_Get_def)
  have "NewRequest d n ?md ?sz ?w1 = Inl Out_Of_Bounds"
    using w2(1) get copy by (simp add: NewRequest_def Let_def stReqData_new_def)
  then show ?thesis
    using read_request [OF assms(1,7,8,4,6,5) pos] by simp
qed

subsection \<open>A due timer\<close>

lemma RunOnce_due:
  assumes ok: "co_ok w" and main: "timers w 0 = None" and due: "timers w j = Some e" "e \<le> CExpireMgr_now w"
  shows "\<exists>i e' c w0. timers w i = Some e' \<and> e' \<le> e \<and> i \<noteq> 0 \<and> nodes w i = Some c \<and>
    (\<forall>j e''. timers w j = Some e'' \<longrightarrow> e' < e'' \<or> e' = e'' \<and> i \<le> j) \<and> CoroutineMgr_SetReady i w = Inr w0 \<and> co_ok w0 \<and> nodes w0 = (nodes w)(i \<mapsto> c\<lparr>m_state := E_READY\<rparr>) \<and>
    timers w0 = (timers w)(i := None) \<and>
    RunOnce os code raw run (w, ks) =
      bind_res (run i (w0\<lparr>m_active := Some i, control := i\<rparr>, ks)) (\<lambda>y. Inr (y, IO_OK))"
proof -
  obtain i e' where i: "CExpireMgr_NextWaitTime w = (0, i)" "timers w i = Some e'"
      "\<And>j e''. timers w j = Some e'' \<Longrightarrow> e' < e'' \<or> e' = e'' \<and> i \<le> j"
    using next_due [OF co_okD(1) [OF ok] due] by blast
  have i0: "i \<noteq> 0" using i(2) main by auto
  obtain c where c: "nodes w i = Some c" using co_okD(7) [OF ok i(2)] by auto
  obtain w0 where w0: "CoroutineMgr_SetReady i w = Inr w0" "co_ok w0"
      "nodes w0 = (nodes w)(i \<mapsto> c\<lparr>m_state := E_READY\<rparr>)" "timers w0 = (timers w)(i := None)"
    using SetReady_result [OF ok c] by blast
  have "CoroutineMgr_Schedule i w0 = Inr (w0\<lparr>m_active := Some i, control := i\<rparr>)"
    by (rule Schedule_result(1) [OF w0(2)]) (simp add: w0(3))
  then have "RunOnce os code raw run (w, ks) =
      bind_res (run i (w0\<lparr>m_active := Some i, control := i\<rparr>, ks)) (\<lambda>y. Inr (y, IO_OK))"
    using i(1) i0 w0(1,3) Get_nodes [OF w0(2)] by (simp add: RunOnce_def resume_def)
  moreover have "e' \<le> e" using i(3) [OF due(1)] by auto
  ultimately show ?thesis
    using i(2,3) i0 c w0 by (intro exI [of _ i] exI [of _ e'] exI [of _ c] exI [of _ w0]) simp
qed

subsection \<open>Properties\<close>

text \<open>A package that a client sends.\<close>

lemma request_result:
  assumes "recv_documented os" and "co_ok w" and "co_live w" and "nodes w (staticid w + 1) = None"
    and "fd_read key w = Some d" and "fd_state d = E_SERVER_CONN" and "check d \<noteq> 0" and "0 \<le> n"
    and "sz = checked_size os code (check d) n w" and "0 < sz" and "sz \<le> ret (recv_answer os n w)"
    and "sm_find (<) (check d) (m_pkgcallback w) = Some cb"
  shows "\<exists>w' c. DoReadTcp os code n key w = Inr (w', IO_OK) \<and> co_ok w' \<and> co_live w' \<and>
    nodes w' = (nodes w)(staticid w + 1 \<mapsto> c) \<and> m_state c = E_READY \<and>
    contents (recvdata (m_req c)) = take (nat sz) (ret_bytes (recv_answer os n w)) \<and>
    m_cb (m_req c) = cb \<and> server_socket (m_req c) = n \<and> remoteaddr (m_req c) = remote d \<and>
    timers w' = timers w \<and> fd_table w' = fd_table w \<and>
    control w' = control w \<and> m_fd_to_data w' = m_fd_to_data w \<and> mem_ok (recvdata (m_req c)) \<and>
    calls w' = calls w @ [Sys_recv n 1024] \<and> head_id w' = head_id w \<and> clock w' = ret_time (recv_answer os n w)"
proof -
  have pos: "0 < ret (recv_answer os n w)" using assms(10,11) by linarith
  note b = recv_buffer_ok [OF assms(1) pos]
  let ?w1 = "after_recv os n w"
  obtain w' c where r: "NewRequest d n (recv_buffer os n w) sz ?w1 = Inr w'" "co_ok w'" "co_live w'"
      "nodes w' = (nodes w)(staticid w + 1 \<mapsto> c)" "m_state c = E_READY"
      "contents (recvdata (m_req c)) = take (nat sz) (contents (recv_buffer os n w))"
      "m_cb (m_req c) = cb" "server_socket (m_req c) = n" "remoteaddr (m_req c) = remote d"
      "timers w' = timers w" "m_fd_to_data w' = m_fd_to_data w"
      "control w' = control w" "mem_ok (recvdata (m_req c))" "calls w' = calls w @ [Sys_recv n 1024]" "head_id w' = head_id w"
      "clock w' = clock ?w1"
    using NewRequest_result [of ?w1 "recv_buffer os n w" sz d cb n] assms(2-4,10-12) b(3,5) by auto
  moreover have "clock ?w1 = ret_time (recv_answer os n w)" by (simp add: sys_def Let_def recv_answer_def)
  ultimately show ?thesis
    using read_request [OF assms(1,8) pos assms(5,7,6), of code] assms(9,10) b(4) by auto
qed

text \<open>
  C15: A package a client sends starts a new coroutine: when the check function accepts the first
  \<open>sz\<close> of the bytes received, a ready coroutine with a fresh id holds exactly those bytes, the
  callback registered for the check function, the client's address and its descriptor, and no
  other coroutine, timer or table entry changes.
\<close>

theorem request_starts_coroutine:
  assumes "recv_documented os" and "co_ok w" and "co_live w" and "nodes w (staticid w + 1) = None"
    and "fd_read key w = Some d" and "fd_state d = E_SERVER_CONN" and "check d \<noteq> 0" and "0 \<le> n"
    and "sz = checked_size os code (check d) n w" and "0 < sz" and "sz \<le> ret (recv_answer os n w)"
    and "sm_find (<) (check d) (m_pkgcallback w) = Some cb"
  shows "\<exists>w' c. DoReadTcp os code n key w = Inr (w', IO_OK) \<and> co_ok w' \<and> co_live w' \<and>
    nodes w' = (nodes w)(staticid w + 1 \<mapsto> c) \<and> m_state c = E_READY \<and>
    contents (recvdata (m_req c)) = take (nat sz) (ret_bytes (recv_answer os n w)) \<and>
    m_cb (m_req c) = cb \<and> server_socket (m_req c) = n \<and> remoteaddr (m_req c) = remote d \<and>
    timers w' = timers w \<and> fd_table w' = fd_table w"
proof -
  obtain w' c where "DoReadTcp os code n key w = Inr (w', IO_OK)" "co_ok w'" "co_live w'"
      "nodes w' = (nodes w)(staticid w + 1 \<mapsto> c)" "m_state c = E_READY"
      "contents (recvdata (m_req c)) = take (nat sz) (ret_bytes (recv_answer os n w))"
      "m_cb (m_req c) = cb" "server_socket (m_req c) = n" "remoteaddr (m_req c) = remote d"
      "timers w' = timers w" "fd_table w' = fd_table w"
    using request_result [OF assms] by (elim exE conjE) (rule that; assumption)
  then show ?thesis by (intro exI [of _ w'] exI [of _ c]) simp
qed

theorem request_starts_coroutine_witness:
  "\<exists>w' c. DoReadTcp example_os example_code 7 (fd_key 7) example_world = Inr (w', IO_OK) \<and>
    nodes w' 2 = Some c \<and> m_state c = E_READY \<and> contents (recvdata (m_req c)) = [1, 2, 3] \<and>
    m_cb (m_req c) = 10"
  using request_starts_coroutine [OF example_os_documented example_world_facts(1,2) _ example_read(2),
      of 7 3 example_code 10]
  by (auto simp: example_world_facts example_recv example_world_fds sm_find_def sm_entry_def sm_lower_bound_def)

text \<open>A reply that somebody waits for.\<close>

lemma reply_result:
  assumes "recv_documented os" and "co_ok w" and "co_live w" and "fd_read key w = Some d"
    and "fd_state d = E_OTHER" and "check d \<noteq> 0" and "seq d \<noteq> 0" and "0 \<le> n"
    and "0 < ret (recv_answer os n w)" and "sz = checked_size os code (check d) n w" and "0 < sz"
    and "sq = code (seq d) (m_data (recv_buffer os n w)) (word_of_int sz)"
    and "sm_sorted (seq_to_coroutine d)" and "map_of (seq_to_coroutine d) sq = Some sr"
    and "mem_ok (sr_data sr)" and "nodes w (sr_id sr) = Some c"
  shows "\<exists>w' d' buf. DoReadTcp os code n key w = Inr (w', IO_OK) \<and> co_ok w' \<and> co_live w' \<and>
    nodes w' = (nodes w)(sr_id sr \<mapsto> c\<lparr>m_state := E_READY\<rparr>) \<and>
    timers w' = (timers w)(sr_id sr := None) \<and> fd_table w' = (fd_table w)(key \<mapsto> d') \<and> sm_sorted (seq_to_coroutine d') \<and>
    map_of (seq_to_coroutine d') = (map_of (seq_to_coroutine d))(sq \<mapsto> sr\<lparr>sr_data := buf\<rparr>) \<and>
    contents buf = ret_bytes (recv_answer os n w) \<and> mem_ok buf \<and> control w' = control w \<and>
    calls w' = calls w @ [Sys_recv n 1024] \<and> head_id w' = head_id w \<and> clock w' = ret_time (recv_answer os n w) \<and>
    (fd_ok w \<longrightarrow> fd_ok w')"
proof -
  note b = recv_buffer_ok [OF assms(1,9)]
  let ?w1 = "after_recv os n w"
  have key: "fd_read key ?w1 = Some d" using assms(4) by (simp add: fd_read_def)
  have ok1: "co_ok ?w1" "co_live ?w1" "nodes ?w1 (sr_id sr) = Some c" using assms(2,3,16) by simp_all
  have read: "DoReadTcp os code n key w = DeliverReply os code d key (recv_buffer os n w) sz ?w1"
    using read_reply [OF assms(1,8,9,4,6,5), of code] assms(10,11) by simp
  obtain w' d' buf where r: "DeliverReply os code d key (recv_buffer os n w) sz ?w1 = Inr (w', IO_OK)"
      "co_ok w'" "co_live w'" "nodes w' = (nodes ?w1)(sr_id sr \<mapsto> c\<lparr>m_state := E_READY\<rparr>)"
      "timers w' = (timers ?w1)(sr_id sr := None)" "fd_table w' = (fd_table ?w1)(key \<mapsto> d')" "sm_sorted (seq_to_coroutine d')"
      "map_of (seq_to_coroutine d') = (map_of (seq_to_coroutine d))(sq \<mapsto> sr\<lparr>sr_data := buf\<rparr>)"
      "contents buf = contents (recv_buffer os n w)" "mem_ok buf" "control w' = control ?w1" "calls w' = calls ?w1"
      "head_id w' = head_id ?w1" "clock w' = clock ?w1" "fd_ok ?w1 \<longrightarrow> fd_ok w'"
    using DeliverReply_result [of ?w1 "recv_buffer os n w" d code sz sr c key os, folded assms(12),
        OF ok1(1,2) b(3) assms(7,14,13,15) ok1(3) key] by (elim exE conjE) (rule that; assumption)
  have ck: "clock ?w1 = ret_time (recv_answer os n w)" by (simp add: sys_def Let_def recv_answer_def)
  show ?thesis
    unfolding read
    by (rule exI [of _ w'], rule exI [of _ d'], rule exI [of _ buf]) (use r b(4) ck in simp)
qed

text \<open>
  A reply is handed to the coroutine that waits for its sequence number: the data kept for
  that number becomes the bytes received, the coroutine is ready and its timer gone, and no
  other coroutine or table entry changes.
\<close>

theorem reply_wakes_waiter:
  assumes "recv_documented os" and "co_ok w" and "co_live w" and "fd_read key w = Some d"
    and "fd_state d = E_OTHER" and "check d \<noteq> 0" and "seq d \<noteq> 0" and "0 \<le> n"
    and "0 < ret (recv_answer os n w)" and "sz = checked_size os code (check d) n w" and "0 < sz"
    and "sq = code (seq d) (m_data (recv_buffer os n w)) (word_of_int sz)"
    and "sm_sorted (seq_to_coroutine d)" and "map_of (seq_to_coroutine d) sq = Some sr"
    and "mem_ok (sr_data sr)" and "nodes w (sr_id sr) = Some c"
  shows "\<exists>w' d' buf. DoReadTcp os code n key w = Inr (w', IO_OK) \<and> co_ok w' \<and> co_live w' \<and>
    nodes w' = (nodes w)(sr_id sr \<mapsto> c\<lparr>m_state := E_READY\<rparr>) \<and>
    timers w' = (timers w)(sr_id sr := None) \<and> fd_table w' = (fd_table w)(key \<mapsto> d') \<and> sm_sorted (seq_to_coroutine d') \<and>
    map_of (seq_to_coroutine d') = (map_of (seq_to_coroutine d))(sq \<mapsto> sr\<lparr>sr_data := buf\<rparr>) \<and>
    contents buf = ret_bytes (recv_answer os n w)"
proof -
  obtain w' d' buf where "DoReadTcp os code n key w = Inr (w', IO_OK)" "co_ok w'" "co_live w'"
      "nodes w' = (nodes w)(sr_id sr \<mapsto> c\<lparr>m_state := E_READY\<rparr>)" "timers w' = (timers w)(sr_id sr := None)"
      "fd_table w' = (fd_table w)(key \<mapsto> d')" "sm_sorted (seq_to_coroutine d')"
      "map_of (seq_to_coroutine d') = (map_of (seq_to_coroutine d))(sq \<mapsto> sr\<lparr>sr_data := buf\<rparr>)"
      "contents buf = ret_bytes (recv_answer os n w)"
    using reply_result [OF assms] by (elim exE conjE) (rule that; assumption)
  then show ?thesis by (intro exI [of _ w'] exI [of _ d'] exI [of _ buf]) simp
qed

theorem reply_wakes_waiter_witness:
  "\<exists>w' buf. DoReadTcp example_os example_code 9 (FdKey (IpPort ''10.0.0.1'' 80 PORT_TCP) 9) example_world =
      Inr (w', IO_OK) \<and> node_state w' 1 = Some E_READY \<and> contents buf = [1, 2, 3]"
proof -
  let ?d = "example_raw\<lparr>fd := 9, fd_state := E_OTHER, check := 1,
         seq := 2, seq_to_coroutine := [(5, \<lparr>sr_id = 1, sr_data = CMemData_new\<rparr>)]\<rparr>"
  obtain c where c: "nodes example_world 1 = Some c" using example_world_facts(6) by blast
  have p: "fd_state ?d = E_OTHER" "check ?d \<noteq> 0" "seq ?d \<noteq> 0" "(0 :: int) \<le> 9"
    "0 < ret (recv_answer example_os 9 example_world)"
    "3 = checked_size example_os example_code (check ?d) 9 example_world" "(0 :: int) < 3"
    "5 = example_code (seq ?d) (m_data (recv_buffer example_os 9 example_world)) (word_of_int 3)"
    "sm_sorted (seq_to_coroutine ?d)"
    "map_of (seq_to_coroutine ?d) 5 = Some \<lparr>sr_id = 1, sr_data = CMemData_new\<rparr>"
    "mem_ok (sr_data \<lparr>sr_id = 1, sr_data = CMemData_new\<rparr>)"
    "nodes example_world (sr_id \<lparr>sr_id = 1, sr_data = CMemData_new\<rparr>) = Some c"
    using c by (simp_all add: example_recv example_code_def)
  from reply_wakes_waiter [OF example_os_documented example_world_facts(1,2) example_read(3) p]
  obtain w' d' buf where r: "DoReadTcp example_os example_code 9 (FdKey (IpPort ''10.0.0.1'' 80 PORT_TCP) 9)
        example_world = Inr (w', IO_OK)"
      "nodes w' = (nodes example_world)(1 \<mapsto> c\<lparr>m_state := E_READY\<rparr>)"
      "contents buf = ret_bytes (recv_answer example_os 9 example_world)"
    unfolding stSendRecv.simps by blast
  show ?thesis
    by (rule exI [of _ w'], rule exI [of _ buf]) (simp add: r example_recv)
qed

text \<open>
  C28: A connection on a listening socket is accepted into the table: the new entry is a client's,
  inherits the socket's check function, records the peer, is found by its descriptor, which is
  watched for reading, and the invariants hold after it.
\<close>

theorem accept_registers_client:
  assumes "fd_ok w" and "co_ok w" and "0 \<le> ss" and "fd_read (fd_key ss) w = Some ld"
    and "port_type ld = PORT_TCP" and "a = os (calls w) (Sys_accept ss)" and "fd_fresh (ret a) w"
  shows "\<exists>w' e. NewReq os raw ss (fd_key ss) w = Inr (w', IO_OK) \<and> fd_ok w' \<and> co_ok w' \<and>
    fd_table w' = (fd_table w)(fd_key (ret a) \<mapsto> e) \<and> fd e = ret a \<and> fd_state e = E_SERVER_CONN \<and>
    port_type e = PORT_TCP \<and> check e = check ld \<and> remote e = ret_addr a \<and>
    CFdMgr_Get (ret a) w' = Some (fd_key (ret a)) \<and>
    calls w' = calls w @ [Sys_accept ss, Sys_epoll_ctl CTL_ADD (ret a) (EFDEVENT_mask FD_READ)]"
proof -
  obtain w' e where r: "NewReq os raw ss (fd_key ss) w = Inr (w', IO_OK)" "fd_ok w'"
      "fd_table w' = (fd_table w)(fd_key (ret a) \<mapsto> e)" "fd e = ret a" "fd_state e = E_SERVER_CONN"
      "port_type e = PORT_TCP" "check e = check ld" "remote e = ret_addr a"
      "CFdMgr_Get (ret a) w' = Some (fd_key (ret a))"
      "calls w' = calls w @ [Sys_accept ss, Sys_epoll_ctl CTL_ADD (ret a) (EFDEVENT_mask FD_READ)]"
      and s: "m_idtonode w' = m_idtonode w" "m_id_to_expire w' = m_id_to_expire w"
      "m_expire_to_id w' = m_expire_to_id w" "m_active w' = m_active w" "control w' = control w"
    using NewReq_tcp_result [of w ss ld a os raw, OF assms(1,3-7)] by (elim exE conjE) (rule that; assumption)
  have "co_ok w'" using co_ok_cong(1) [OF s(1,4,5,3,2)] assms(2) by simp
  with r show ?thesis by (intro exI [of _ w'] exI [of _ e]) simp
qed

theorem accept_registers_client_witness:
  "\<exists>w'. NewReq example_os example_raw 4 (fd_key 4) example_world = Inr (w', IO_OK) \<and>
    CFdMgr_Get 8 w' = Some (fd_key 8)"
proof -
  have "fd_fresh (ret (example_os (calls example_world) (Sys_accept 4))) example_world"
    by (simp add: fd_fresh_def example_os_def example_world_fds example_fds_def fd_key_def)
  from accept_registers_client [of example_world 4 _ _ example_os example_raw,
      OF example_world_fds(1) example_world_facts(1) _ example_read(1) _ refl this]
  have "\<exists>w'. NewReq example_os example_raw 4 (fd_key 4) example_world = Inr (w', IO_OK) \<and>
      CFdMgr_Get (ret (example_os (calls example_world) (Sys_accept 4))) w' =
      Some (fd_key (ret (example_os (calls example_world) (Sys_accept 4))))"
    by (simp add: example_raw_def) blast
  then show ?thesis by (simp add: example_os_def)
qed

text \<open>
  C37: Dropping a connection disarms the timer of the coroutine whose id happens to equal the
  descriptor: that coroutine goes on waiting with no timer, so only a reply can wake it, while
  the coroutine that used the connection keeps its own.
\<close>

theorem del_fd_loses_timer:
  assumes "co_ok w" and "co_live w" and "timers w (word_of_int n) = Some e"
  shows "co_ok (DelFd os n w) \<and> node_state (DelFd os n w) (word_of_int n) = Some E_WAIT \<and>
    timers (DelFd os n w) = (timers w)(word_of_int n := None) \<and> \<not> co_live (DelFd os n w)"
proof -
  let ?i = "word_of_int n :: u32"
  define w0 where "w0 = fst (CMonitorEpoll_Del os n w)"
  define w1 where "w1 = CExpireMgr_Del ?i w0"
  have w0: "w0 = snd (sys os (Sys_epoll_ctl CTL_DEL n 0) w)"
    by (simp add: w0_def CMonitorEpoll_Del_def case_prod_beta Let_def)
  have ok0: "exp_ok w0" using co_okD(1) [OF assms(1)] by (simp add: w0 exp_ok_def)
  have t1: "timers w1 = (timers w)(?i := None)"
    using Del_timers [OF ok0, of ?i] by (simp add: w1_def w0)
  have e1: "exp_ok w1" using Del_ok [OF ok0, of ?i] by (simp add: w1_def)
  have n1: "m_idtonode w1 = m_idtonode w" "m_active w1 = m_active w" "control w1 = control w"
    by (simp_all add: w1_def w0)
  have ok1: "co_ok w1"
    by (rule co_okI) (use e1 t1 n1 co_okD [OF assms(1)] in \<open>auto split: if_splits\<close>)
  have d: "m_idtonode (DelFd os n w) = m_idtonode w1" "m_active (DelFd os n w) = m_active w1"
    "control (DelFd os n w) = control w1" "m_expire_to_id (DelFd os n w) = m_expire_to_id w1"
    "m_id_to_expire (DelFd os n w) = m_id_to_expire w1"
    by (auto simp: DelFd_def Let_def w0_def [symmetric] w1_def [symmetric] CFdMgr_Destroy_def
        split: option.splits)
  have st: "node_state w ?i = Some E_WAIT" by (rule co_okD(7) [OF assms(1,3)])
  have ok: "co_ok (DelFd os n w)" using co_ok_cong(1) [OF d] ok1 by simp
  have td: "timers (DelFd os n w) = (timers w)(?i := None)" and nd: "nodes (DelFd os n w) = nodes w"
    using d t1 n1 by simp_all
  then have "\<not> co_live (DelFd os n w)"
    using st unfolding co_live_iff [OF co_okD(2) [OF ok]] by (metis fun_upd_same)
  then show ?thesis using ok st td nd by simp
qed

theorem del_fd_loses_timer_witness:
  "\<exists>w :: world. co_live w \<and> \<not> co_live (DelFd example_os 1 w)"
proof -
  have r: "nodes example_world 1 \<noteq> None" using example_world_facts(6) by auto
  obtain w where w: "CoroutineMgr_Schedule 1 example_world = Inr w" "co_ok w" "control w = 1"
      "nodes w = nodes example_world" "timers w = timers example_world"
    using Schedule_result [OF example_world_facts(1) r] by auto
  have "co_live w"
    by (rule co_live_state [OF example_world_facts(1) w(2) example_world_facts(2) w(5)]) (simp add: w(4))
  obtain c where "nodes w (control w) = Some c" using co_okD(4) [OF w(2)] by blast
  then obtain w' where w': "CoroutineMgr_WaitAndSchedule 100 w = Inr w'" "co_ok w'"
      "nodes w' = (nodes w)(control w \<mapsto> c\<lparr>m_state := E_WAIT\<rparr>)"
      "timers w' = (timers w)(control w \<mapsto> CExpireMgr_now w + ucast (100 :: u32))"
    using WaitAndSchedule_result [OF w(2)] by blast
  have live: "co_live w'"
    by (rule co_live_step [OF w(2) w'(2) \<open>co_live w\<close>, of "control w"]) (use w'(3,4) in simp_all)
  have "timers w' (word_of_int 1) = Some (CExpireMgr_now w + ucast (100 :: u32))"
    using w'(4) w(3) by simp
  from del_fd_loses_timer [OF w'(2) live this, of example_os] live show ?thesis by blast
qed

text \<open>
  When a timer is due, one turn of the loop does nothing but resume the coroutine with the
  earliest deadline: its timer is gone, it is ready and it runs; no event is asked for.
\<close>

theorem run_once_resumes_due:
  assumes "co_ok w" and "co_live w" and "timers w 0 = None"
    and "timers w j = Some e" and "e \<le> CExpireMgr_now w"
  shows "\<exists>i e' w1. timers w i = Some e' \<and> e' \<le> e \<and> co_ok w1 \<and> co_live w1 \<and> control w1 = i \<and>
    node_state w1 = (node_state w)(i \<mapsto> E_READY) \<and> timers w1 = (timers w)(i := None) \<and> calls w1 = calls w \<and>
    RunOnce os code raw run (w, ks) = bind_res (run i (w1, ks)) (\<lambda>y. Inr (y, IO_OK))"
proof -
  obtain i e' c w0 where i: "timers w i = Some e'" "e' \<le> e" "CoroutineMgr_SetReady i w = Inr w0" "co_ok w0"
      "nodes w0 = (nodes w)(i \<mapsto> c\<lparr>m_state := E_READY\<rparr>)" "timers w0 = (timers w)(i := None)"
      and run: "RunOnce os code raw run (w, ks) =
        bind_res (run i (w0\<lparr>m_active := Some i, control := i\<rparr>, ks)) (\<lambda>y. Inr (y, IO_OK))"
    using RunOnce_due [OF assms(1,3-5), of os code raw run ks] by (elim exE conjE) (rule that; assumption)
  let ?w1 = "w0\<lparr>m_active := Some i, control := i\<rparr>"
  have ok: "co_ok ?w1" by (rule Schedule_result(2) [OF i(4)]) (simp add: i(5))
  have live: "co_live ?w1"
    by (rule co_live_step [OF assms(1) ok assms(2), of i]) (use i(5,6) in simp_all)
  have st: "node_state ?w1 = (node_state w)(i \<mapsto> E_READY)" using i(5) by (auto simp: fun_eq_iff)
  show ?thesis
    using i run live st ok SetReady_world_frame(3) [OF i(3)]
    by (intro exI [of _ i] exI [of _ e'] exI [of _ ?w1]) simp
qed

definition example_sleeping :: world where
  "example_sleeping = (case CoroutineMgr_WaitAndSchedule 100 (example_world\<lparr>m_active := Some 1, control := 1\<rparr>) of
     Inr w \<Rightarrow> w | Inl _ \<Rightarrow> example_world)"

lemma example_sleeping_facts:
  "co_ok example_sleeping" "co_live example_sleeping" "timers example_sleeping = [1 \<mapsto> 1100]"
  "clock example_sleeping = \<lparr>tv_sec = 1, tv_usec = 0\<rparr>" "control example_sleeping = 0"
  "node_state example_sleeping = (node_state example_world)(1 \<mapsto> E_WAIT)"
  "CoroutineMgr_WaitAndSchedule 100 (example_world\<lparr>m_active := Some 1, control := 1\<rparr>) = Inr example_sleeping"
proof -
  let ?w = "example_world\<lparr>m_active := Some 1, control := 1\<rparr>"
  have r: "nodes example_world 1 \<noteq> None" using example_world_facts(6) by auto
  have ok: "co_ok ?w" by (rule Schedule_result(2) [OF example_world_facts(1) r])
  have live: "co_live ?w"
    by (rule co_live_state [OF example_world_facts(1) ok example_world_facts(2)]) simp_all
  obtain c where "nodes ?w (control ?w) = Some c" using co_okD(4) [OF ok] by blast
  then obtain w' where w': "CoroutineMgr_WaitAndSchedule 100 ?w = Inr w'" "co_ok w'"
      "nodes w' = (nodes ?w)(control ?w \<mapsto> c\<lparr>m_state := E_WAIT\<rparr>)"
      "timers w' = (timers ?w)(control ?w \<mapsto> CExpireMgr_now ?w + ucast (100 :: u32))" "clock w' = clock ?w"
      "control w' = 0"
    using WaitAndSchedule_result [OF ok] by blast
  have "CExpireMgr_now ?w = 1000"
    by (simp add: CExpireMgr_now_def CTimerMS_new_def CTimerMS_GetMs_def example_world_facts(8) sdiv_1000_nonneg)
  moreover have "co_live w'"
    by (rule co_live_step [OF ok w'(2) live, of 1]) (use w'(3,4) in simp_all)
  ultimately show "co_ok example_sleeping" "co_live example_sleeping" "timers example_sleeping = [1 \<mapsto> 1100]"
    "clock example_sleeping = \<lparr>tv_sec = 1, tv_usec = 0\<rparr>" "control example_sleeping = 0"
    "CoroutineMgr_WaitAndSchedule 100 (example_world\<lparr>m_active := Some 1, control := 1\<rparr>) = Inr example_sleeping"
    using w' example_world_facts(5,8) by (simp_all add: example_sleeping_def)
  show "node_state example_sleeping = (node_state example_world)(1 \<mapsto> E_WAIT)"
    using w' by (auto simp: example_sleeping_def fun_eq_iff)
qed

lemma example_late:
  "co_ok (example_sleeping\<lparr>clock := t\<rparr>)" "co_live (example_sleeping\<lparr>clock := t\<rparr>)"
  "timers (example_sleeping\<lparr>clock := t\<rparr>) = [1 \<mapsto> 1100]"
  using example_sleeping_facts co_ok_cong [of "example_sleeping\<lparr>clock := t\<rparr>" example_sleeping] by simp_all

lemma now_at: "CExpireMgr_now (w\<lparr>clock := \<lparr>tv_sec = n, tv_usec = 0\<rparr>\<rparr>) = word_of_int (n * 1000)"
  by (simp add: CExpireMgr_now_def CTimerMS_new_def CTimerMS_GetMs_def sdiv_1000_nonneg)

theorem run_once_resumes_due_witness:
  "\<exists>w1. RunOnce example_os example_code example_raw (\<lambda>k x. Inr x)
      (example_sleeping\<lparr>clock := \<lparr>tv_sec = 2, tv_usec = 0\<rparr>\<rparr>, ()) = Inr ((w1, ()), IO_OK) \<and> control w1 = 1"
proof -
  let ?w = "example_sleeping\<lparr>clock := \<lparr>tv_sec = 2, tv_usec = 0\<rparr>\<rparr>"
  have t: "timers ?w 0 = None" "timers ?w 1 = Some 1100" "1100 \<le> CExpireMgr_now ?w"
    by (simp_all add: example_sleeping_facts(3) now_at)
  from run_once_resumes_due [OF example_late(1,2) t, of example_os example_code example_raw "\<lambda>k x. Inr x" "()"]
  obtain i e' w1 where "timers ?w i = Some e'" "control w1 = i"
      "RunOnce example_os example_code example_raw (\<lambda>k x. Inr x) (?w, ()) = Inr ((w1, ()), IO_OK)"
    by auto
  moreover from this have "i = 1" by (simp add: example_sleeping_facts(3) split: if_splits)
  ultimately show ?thesis by blast
qed

text \<open>
  C38: With timers set and none due, a turn waits for events until the earliest deadline, but the
  time is passed as an \<^verbatim>\<open>int\<close>: from \<open>2 ^ 31\<close> milliseconds on the wait is negative, which means
  without end, although \<^verbatim>\<open>wait_ms\<close> accepts such times.
\<close>

theorem run_once_waits:
  assumes "co_ok w" and "\<forall>i e. timers w i = Some e \<longrightarrow> CExpireMgr_now w < e"
    and "timers w i = Some e" and "\<forall>j e'. timers w j = Some e' \<longrightarrow> e \<le> e'"
    and "gap = unat (e - CExpireMgr_now w)" and "gap < 2 ^ 32"
    and "ms = (if gap < 2 ^ 31 then int gap else int gap - 2 ^ 32)"
    and "ret (os (calls w) (Sys_epoll_wait 99 ms)) = 0"
  shows "\<exists>w'. RunOnce os code raw run (w, ks) = Inr ((w', ks), IO_OK) \<and>
    calls w' = calls w @ [Sys_epoll_wait 99 ms] \<and> nodes w' = nodes w \<and> timers w' = timers w"
proof -
  obtain i' e1 where n: "CExpireMgr_NextWaitTime w = (e1 - CExpireMgr_now w, 0)" "timers w i' = Some e1"
      "\<And>j e'. timers w j = Some e' \<Longrightarrow> e1 \<le> e'"
    using next_wait [OF co_okD(1) [OF assms(1)] assms(3,2)] by blast
  have "e1 = e" using n(2,3) assms(3,4) by (intro antisym) blast+
  let ?d = "e - CExpireMgr_now w"
  have "unat (ucast ?d :: u32) = gap"
    using assms(5,6) by (simp add: unsigned_ucast_eq take_bit_nat_eq_self)
  then have "to_int ?d = ms"
    using sint_u32_small [of "ucast ?d"] sint_u32_large [of "ucast ?d"] assms(7)
    by (simp add: to_int_def)
  then show ?thesis
    using n(1) \<open>e1 = e\<close> assms(8)
    by (intro exI [of _ "snd (sys os (Sys_epoll_wait 99 ms) w)"])
      (simp add: RunOnce_def NUM_100_def case_prod_beta Let_def)
qed

theorem run_once_waits_witness:
  "\<exists>w'. RunOnce example_os example_code example_raw (\<lambda>k x. Inr x) (example_sleeping, ()) = Inr ((w', ()), IO_OK) \<and>
    calls w' = calls example_sleeping @ [Sys_epoll_wait 99 100]"
proof -
  have now: "CExpireMgr_now example_sleeping = 1000"
    by (simp add: CExpireMgr_now_def CTimerMS_new_def CTimerMS_GetMs_def example_sleeping_facts(4) sdiv_1000_nonneg)
  have t: "\<forall>i e. timers example_sleeping i = Some e \<longrightarrow> CExpireMgr_now example_sleeping < e"
    "timers example_sleeping 1 = Some 1100" "\<forall>j e'. timers example_sleeping j = Some e' \<longrightarrow> 1100 \<le> e'"
    "(100 :: nat) = unat (1100 - CExpireMgr_now example_sleeping)"
    by (simp_all add: example_sleeping_facts(3) now)
  show ?thesis
    using run_once_waits [OF example_sleeping_facts(1) t, of 100 example_os example_code example_raw "\<lambda>k x. Inr x" "()"]
    by (auto simp: example_os_def)
qed

end
