(* ===== verification/Client.thy ===== *)
theory Client
  imports EventMgr
begin

section \<open>Code that runs in coroutines (EventMgr.cpp, EventMgr.h)\<close>

text \<open>
  \<^verbatim>\<open>tcpsend\<close>, \<^verbatim>\<open>tcpconnect\<close>, \<^verbatim>\<open>tcpsendrecv\<close> and \<^verbatim>\<open>wait_ms\<close> run on the stack of a coroutine and give
  control away in the middle, by \<^verbatim>\<open>WaitAndSchedule\<close>. Such code is a value of type \<open>co\<close>: it returns,
  faults, goes on for ever, or waits, with the state at that point and what it does with the
  state it finds when it is resumed. \<open>bind_co\<close> is the sequence of two pieces.
\<close>

datatype ('w, 'a) co =
    Return 'a 'w
  | Fail fault
  | Diverge
  | Wait u32 'w "'w \<Rightarrow> ('w, 'a) co"

primrec bind_co :: "('w, 'a) co \<Rightarrow> ('a \<Rightarrow> 'w \<Rightarrow> ('w, 'b) co) \<Rightarrow> ('w, 'b) co" where
  "bind_co (Return a w) f = f a w"
| "bind_co (Fail e) f = Fail e"
| "bind_co Diverge f = Diverge"
| "bind_co (Wait ms w k) f = Wait ms w (\<lambda>w'. bind_co (k w') f)"

lemma bind_co_assoc: "bind_co (bind_co c f) g = bind_co c (\<lambda>a w. bind_co (f a w) g)"
  by (induction c) (simp_all add: fun_eq_iff)

lemma bind_co_Return: "bind_co c (\<lambda>a w. Return a w) = c"
  by (induction c) (simp_all add: fun_eq_iff)

definition wait_ms :: "u32 \<Rightarrow> 'w \<Rightarrow> ('w, unit) co" where
  "wait_ms ms w = Wait ms w (\<lambda>w'. Return () w')"

subsection \<open>Sending\<close>

text \<open>
  \<open>src\<close> is the memory of the given length. The loop is a partial function: a system that
  reported more bytes than it was given could keep it going.
\<close>

partial_function (option) tcpsend_loop ::
    "os \<Rightarrow> int \<Rightarrow> CTimerMS \<Rightarrow> u8 list \<Rightarrow> nat \<Rightarrow> world \<Rightarrow> (world, EIORESULT) co option" where
  "tcpsend_loop os server timer src sent w =
     (if CTimerMS_IsTimeout (clock w) timer then Some (Return IO_TIMEOUT w)
      else
        let c = Sys_send server (drop sent src);
            a = fst (sys os c w);
            w1 = snd (sys os c w)
        in
        if 0 < ret a then
          (if sent + nat (ret a) = length src then Some (Return IO_OK w1)
           else tcpsend_loop os server timer src (sent + nat (ret a)) w1)
        else if ret a = 0 then Some (Return IO_REMOTE_CLOSE w1)
        else if errno a \<noteq> EINTR \<and> errno a \<noteq> EAGAIN then Some (Return IO_ERR w1)
        else
          let w2 = fst (CMonitorEpoll_Add os server FD_WRITE w1) in
          Some (Wait (ucast (CTimerMS_LeftTime (clock w2) timer)) w2
            (\<lambda>w3. Return IO_OK (fst (CMonitorEpoll_Del os server w3)))))"

definition tcpsend :: "os \<Rightarrow> int \<Rightarrow> CTimerMS \<Rightarrow> u8 list \<Rightarrow> world \<Rightarrow> (world, EIORESULT) co" where
  "tcpsend os server timer src w =
     (if server < 0 then Return IO_ARG_INVALID w
      else (case tcpsend_loop os server timer src 0 w of None \<Rightarrow> Diverge | Some c \<Rightarrow> c))"

definition udpsendrecv :: "string option \<Rightarrow> u16 \<Rightarrow> u8 list option \<Rightarrow> u8 list option \<Rightarrow> EIORESULT" where
  "udpsendrecv i p src dst =
     (if i = None \<or> p < 1000 \<or> src = None \<or> dst = None then IO_ARG_INVALID else IO_OK)"

definition DoTask :: "'t list \<Rightarrow> EIORESULT" where
  "DoTask task = IO_OK"

subsection \<open>Connecting\<close>

text \<open>\<open>inet_addr\<close> is the library's; the port goes to the system in network order.\<close>

definition htons :: "u16 \<Rightarrow> u16" where
  "htons p = word_of_int (uint p mod 256 * 256 + uint p div 256)"

definition active_id :: "'z co_state_scheme \<Rightarrow> u32 option" where
  "active_id w = (case m_active w of None \<Rightarrow> None
     | Some a \<Rightarrow> map_option CoroutineContext_GetID (CoroutineMgr_Get a w))"

text \<open>
  The end of \<^verbatim>\<open>tcpconnect\<close>, on the entry it found or made: the pointer is a key, and an entry that
  is gone by now is a fault. The sequence number passes through \<^verbatim>\<open>uint32_t\<close>.
\<close>

definition connect_finish :: "int \<Rightarrow> stFdKey \<Rightarrow> world \<Rightarrow> (world, int \<times> stFdKey option) co" where
  "connect_finish sq key w = (case fd_read key w of
     None \<Rightarrow> Fail Null_Deref
   | Some d \<Rightarrow> (case active_id w of
       None \<Rightarrow> Fail Null_Deref
     | Some me \<Rightarrow>
         let k = u32_to_int (word_of_int sq);
             old = (case sm_find (<) k (seq_to_coroutine d) of
                      None \<Rightarrow> CMemData_new | Some sr \<Rightarrow> sr_data sr);
             sr = \<lparr>sr_id = me, sr_data = CMemData_Clear old\<rparr>
         in Return (fd d, Some key)
              (fd_write key (\<lambda>e. stFdData_Clear (e\<lparr>fd_state := E_OTHER,
                 seq_to_coroutine := sm_assign (<) k sr (seq_to_coroutine e)\<rparr>)) w)))"

text \<open>
  The temporary socket and the entry share the descriptor, so it is closed when the entry is
  destroyed before the function returns. While it waits, \<^verbatim>\<open>tcpconnect\<close> has a handle of its own,
  which \<open>connecting\<close> records until it goes on.
\<close>

definition connect_resumed :: "os \<Rightarrow> int \<Rightarrow> int \<Rightarrow> stFdKey \<Rightarrow> world \<Rightarrow> (world, int \<times> stFdKey option) co" where
  "connect_resumed os n sq key w =
     (let w1 = fst (CMonitorEpoll_Del os n w) in
      case fd_read key w1 of
        None \<Rightarrow> Fail Null_Deref
      | Some d \<Rightarrow>
          let w2 = (fd_write key (\<lambda>e. e\<lparr>context_id := 0\<rparr>) w1)\<lparr>connecting := remove1 n (connecting w1)\<rparr> in
          if last_op_ret d \<noteq> IO_OK then
            (case CFdMgr_Destroy n w2 of
               (w3, IO_OK) \<Rightarrow> Return (-2, None) (snd (sys os (Sys_close n) w3))
             | (w3, _) \<Rightarrow> Return (-2, None) w3)
          else connect_finish sq key w2)"

definition tcpconnect :: "os \<Rightarrow> (string \<Rightarrow> u32) \<Rightarrow> stFdData \<Rightarrow> string \<Rightarrow> u16 \<Rightarrow> u32 \<Rightarrow> fnptr \<Rightarrow> fnptr \<Rightarrow> int \<Rightarrow>
    world \<Rightarrow> (world, int \<times> stFdKey option) co" where
  "tcpconnect os inet_addr raw i p timeout cb_seq cb_check sq w =
     (case CFdMgr_Get_ip i p PORT_TCP w of
        Some key \<Rightarrow> connect_finish sq key w
      | None \<Rightarrow>
        let (a, w1) = sys os (Sys_socket PORT_TCP) w in
        if ret a < 0 then Return (-1, None) w1
        else
          let n = ret a;
              (b, w2) = sys os (Sys_connect n \<lparr>sin_addr = inet_addr i, sin_port = htons p\<rparr>) w1;
              (w3, data) = CFdMgr_Add_ip raw n i p PORT_TCP w2
          in
          if ret b \<noteq> 0 \<and> errno b \<noteq> EINPROGRESS then Return (EIORESULT_int IO_ERR, None) w3
          else (case data of
              None \<Rightarrow> Fail Null_Deref
            | Some key \<Rightarrow>
              if ret b = 0 then connect_finish sq key w3
              else (case active_id w3 of
                  None \<Rightarrow> Fail Null_Deref
                | Some me \<Rightarrow>
                  let w4 = fd_write key (\<lambda>e. e\<lparr>fd_state := E_CONNECT, check := cb_check, seq := cb_seq,
                             port_type := PORT_TCP, context_id := me\<rparr>) w3;
                      w5 = fst (CMonitorEpoll_Add os n FD_READ_WRITE w4)
                  in Wait timeout (w5\<lparr>connecting := n # connecting w5\<rparr>) (connect_resumed os n sq key))))"

subsection \<open>Request and reply\<close>

text \<open>
  What is left of \<^verbatim>\<open>tcpsendrecv\<close> when the reply has come or the time is up: a sequence number
  that is gone makes it read through the end iterator.
\<close>

definition sendrecv_finish :: "os \<Rightarrow> int \<Rightarrow> stFdKey \<Rightarrow> int \<Rightarrow> CMemData \<Rightarrow> world \<Rightarrow>
    (world, EIORESULT \<times> CMemData) co" where
  "sendrecv_finish os n key sq dst w = (case fd_read key w of
     None \<Rightarrow> Fail Null_Deref
   | Some d \<Rightarrow> (case sm_find (<) sq (seq_to_coroutine d) of
       None \<Rightarrow> Fail Out_Of_Bounds
     | Some sr \<Rightarrow>
         if CMemData_Size (sr_data sr) = 0 then Return (IO_ERR, dst) w
         else
           let rest = sm_erase (<) sq (seq_to_coroutine d);
               w1 = fd_write key (\<lambda>e. e\<lparr>seq_to_coroutine := rest\<rparr>) w
           in Return (IO_OK, sr_data sr) (if rest = [] then fst (CMonitorEpoll_Del os n w1) else w1)))"

definition tcpsendrecv :: "os \<Rightarrow> (string \<Rightarrow> u32) \<Rightarrow> code \<Rightarrow> stFdData \<Rightarrow> string option \<Rightarrow> u16 \<Rightarrow> u8 list option \<Rightarrow>
    CMemData \<Rightarrow> u32 \<Rightarrow> fnptr \<Rightarrow> fnptr \<Rightarrow> world \<Rightarrow> (world, EIORESULT \<times> CMemData) co" where
  "tcpsendrecv os inet_addr code raw i p src dst timeoutms cb_seq cb_check w =
     (case (i, src) of
        (Some i', Some bytes) \<Rightarrow>
          if p = 0 \<or> cb_check = 0 then Return (IO_ARG_INVALID, dst) w
          else if cb_seq = 0 then Fail Null_Call
          else
            let timer = CTimerMS_new (clock w) timeoutms;
                sq = code cb_seq bytes (of_nat (length bytes))
            in bind_co (tcpconnect os inet_addr raw i' p timeoutms cb_seq cb_check sq w)
              (\<lambda>(n, pdata) w1.
                if n < 0 then Return (IO_ERR, dst) w1
                else bind_co (tcpsend os n timer bytes w1)
                  (\<lambda>r w2.
                    if r \<noteq> IO_OK then Return (r, dst) w2
                    else (case pdata of
                        None \<Rightarrow> Fail Null_Deref
                      | Some key \<Rightarrow> (case fd_read key w2 of
                          None \<Rightarrow> Fail Null_Deref
                        | Some d \<Rightarrow>
                          let w3 = (if length (seq_to_coroutine d) = 1
                                    then fst (CMonitorEpoll_Add os n FD_READ w2) else w2)
                          in Wait (ucast (CTimerMS_LeftTime (clock w3) timer)) w3
                               (sendrecv_finish os n key sq dst)))))
      | _ \<Rightarrow> Return (IO_ARG_INVALID, dst) w)"

subsection \<open>What is sent\<close>

text \<open>The bytes the system took of those offered to it, along a list of calls made after \<open>cs0\<close>.\<close>

fun accepted :: "os \<Rightarrow> syscall list \<Rightarrow> syscall list \<Rightarrow> u8 list" where
  "accepted os cs0 [] = []"
| "accepted os cs0 (c # cs) =
     (case c of Sys_send n bs \<Rightarrow> take (nat (ret (os cs0 c))) bs | _ \<Rightarrow> []) @ accepted os (cs0 @ [c]) cs"

definition sent_ok :: "os \<Rightarrow> int \<Rightarrow> syscall list \<Rightarrow> u8 list \<Rightarrow> nat \<Rightarrow> (world, EIORESULT) co \<Rightarrow> bool" where
  "sent_ok os server cs0 src n c = (case c of
     Return r w \<Rightarrow> \<exists>cs m. calls w = cs0 @ cs \<and> m \<le> length src \<and>
       take n src @ accepted os cs0 cs = take m src \<and> (r = IO_OK \<longleftrightarrow> m = length src)
   | Wait ms w k \<Rightarrow> \<exists>cs m. calls w = cs0 @ cs \<and> m < length src \<and>
       take n src @ accepted os cs0 cs = take m src \<and>
       k = (\<lambda>w'. Return IO_OK (fst (CMonitorEpoll_Del os server w')))
   | _ \<Rightarrow> False)"

lemma sent_ok_step:
  assumes "sent_ok os server (cs0 @ [c]) src (n + k) x" and "c = Sys_send server (drop n src)"
    and "nat (ret (os cs0 c)) = k"
  shows "sent_ok os server cs0 src n x"
proof -
  have acc: "take n src @ accepted os cs0 (c # cs) = take (n + k) src @ accepted os (cs0 @ [c]) cs" for cs
    using assms(2,3) by (simp add: take_add)
  show ?thesis
  proof (cases x)
    case (Return r w)
    then obtain cs m where "calls w = (cs0 @ [c]) @ cs" "m \<le> length src"
        "take (n + k) src @ accepted os (cs0 @ [c]) cs = take m src" "r = IO_OK \<longleftrightarrow> m = length src"
      using assms(1) by (auto simp: sent_ok_def)
    then have "calls w = cs0 @ (c # cs) \<and> m \<le> length src \<and> take n src @ accepted os cs0 (c # cs) = take m src \<and>
        (r = IO_OK \<longleftrightarrow> m = length src)"
      unfolding acc by simp
    then show ?thesis using Return by (simp only: sent_ok_def co.case) blast
  next
    case (Wait ms w f)
    then obtain cs m where "calls w = (cs0 @ [c]) @ cs" "m < length src"
        "take (n + k) src @ accepted os (cs0 @ [c]) cs = take m src"
        "f = (\<lambda>w'. Return IO_OK (fst (CMonitorEpoll_Del os server w')))"
      using assms(1) by (auto simp: sent_ok_def)
    then have "calls w = cs0 @ (c # cs) \<and> m < length src \<and> take n src @ accepted os cs0 (c # cs) = take m src \<and>
        f = (\<lambda>w'. Return IO_OK (fst (CMonitorEpoll_Del os server w')))"
      unfolding acc by simp
    then show ?thesis using Wait by (simp only: sent_ok_def co.case) blast
  qed (use assms(1) in \<open>simp_all add: sent_ok_def\<close>)
qed

lemma tcpsend_loop_result:
  assumes doc: "send_documented os" and "n < length src"
  shows "\<exists>c. tcpsend_loop os server timer src n w = Some c \<and> sent_ok os server (calls w) src n c"
  using assms(2)
proof (induction "length src - n" arbitrary: n w rule: less_induct)
  case less
  let ?c = "Sys_send server (drop n src)"
  let ?a = "os (calls w) ?c" and ?w1 = "snd (sys os (Sys_send server (drop n src)) w)"
  have le: "ret ?a \<le> int (length (drop n src))"
    using doc unfolding send_documented_def by blast
  show ?case
  proof (cases "CTimerMS_IsTimeout (clock w) timer")
    case True
    have "sent_ok os server (calls w) src n (Return IO_TIMEOUT w)"
      using less.prems by (auto simp: sent_ok_def intro!: exI [of _ "[]"] exI [of _ n])
    then show ?thesis using True by (subst tcpsend_loop.simps) simp
  next
    case run: False
    show ?thesis
    proof (cases "0 < ret ?a")
      case True
      define k where "k = nat (ret ?a)"
      have k: "0 < k" "n + k \<le> length src" using True le less.prems by (simp_all add: k_def)
      show ?thesis
      proof (cases "n + k = length src")
        case all: True
        have "sent_ok os server (calls w @ [?c]) src (n + k) (Return IO_OK ?w1)"
          using all by (auto simp: sent_ok_def intro!: exI [of _ "[]"] exI [of _ "n + k"])
        then have "sent_ok os server (calls w) src n (Return IO_OK ?w1)"
          by (rule sent_ok_step) (simp_all add: k_def)
        then show ?thesis
          using run True all by (subst tcpsend_loop.simps) (simp add: k_def Let_def)
      next
        case more: False
        then have "n + k < length src" "length src - (n + k) < length src - n" using k by linarith+
        then obtain c where c: "tcpsend_loop os server timer src (n + k) ?w1 = Some c"
            "sent_ok os server (calls ?w1) src (n + k) c"
          using less.hyps [of "n + k" ?w1] by blast
        have "sent_ok os server (calls w) src n c"
          by (rule sent_ok_step [of _ _ _ ?c _ _ k]) (use c(2) in \<open>simp_all add: k_def\<close>)
        then show ?thesis
          using run True more c(1) by (subst tcpsend_loop.simps) (simp add: k_def Let_def)
      qed
    next
      case False
      then have z: "nat (ret ?a) = 0" by simp
      have r: "sent_ok os server (calls w) src n (Return r ?w1)" if "r \<noteq> IO_OK" for r
        by (rule sent_ok_step [of _ _ _ ?c _ _ 0])
          (use that less.prems z in \<open>auto simp: sent_ok_def intro!: exI [of _ "[]"] exI [of _ n]\<close>)
      let ?w2 = "fst (CMonitorEpoll_Add os server FD_WRITE ?w1)"
      have w2: "calls ?w2 = (calls w @ [?c]) @ [Sys_epoll_ctl CTL_ADD server (EFDEVENT_mask FD_WRITE)]"
        by (simp add: CMonitorEpoll_Add_def case_prod_beta Let_def)
      have "sent_ok os server (calls w) src n (Wait ms ?w2 (\<lambda>w3. Return IO_OK (fst (CMonitorEpoll_Del os server w3))))" for ms
        by (rule sent_ok_step [of _ _ _ ?c _ _ 0])
          (use w2 less.prems z in \<open>auto simp: sent_ok_def intro!: exI [of _ n]\<close>)
      then show ?thesis
        using run False r by (subst tcpsend_loop.simps) (simp add: Let_def)
    qed
  qed
qed

subsection \<open>Properties\<close>

text \<open>
  C22: \<^verbatim>\<open>tcpsend\<close> always returns or waits. When it returns without waiting, the system has taken a
  prefix of the data in order, all of it exactly when the result is \<open>IO_OK\<close>. When the system
  would block, it waits with a proper prefix taken, and on resumption reports \<open>IO_OK\<close> at once: the
  rest is never sent.
\<close>

theorem tcpsend_result:
  assumes "send_documented os" and "0 \<le> server" and "src \<noteq> []"
  shows "case tcpsend os server timer src w of
      Return r w' \<Rightarrow> \<exists>cs m. calls w' = calls w @ cs \<and> accepted os (calls w) cs = take m src \<and>
        m \<le> length src \<and> (r = IO_OK \<longleftrightarrow> m = length src)
    | Wait ms w' k \<Rightarrow> \<exists>cs m. calls w' = calls w @ cs \<and> accepted os (calls w) cs = take m src \<and>
        m < length src \<and> k = (\<lambda>w''. Return IO_OK (fst (CMonitorEpoll_Del os server w'')))
    | _ \<Rightarrow> False"
proof -
  obtain c where c: "tcpsend_loop os server timer src 0 w = Some c" "sent_ok os server (calls w) src 0 c"
    using tcpsend_loop_result [OF assms(1), of 0 src server timer w] assms(3) by auto
  then have "tcpsend os server timer src w = c" using assms(2) by (simp add: tcpsend_def)
  then show ?thesis
    using c(2) by (cases c) (fastforce simp: sent_ok_def)+
qed

lemma example_send_documented: "send_documented example_os"
  by (simp add: send_documented_def example_os_def)

theorem tcpsend_result_witness:
  "case tcpsend example_os 7 (CTimerMS_new \<lparr>tv_sec = 1, tv_usec = 0\<rparr> 100) [1, 2] example_world of
      Return r w' \<Rightarrow> \<exists>cs m. calls w' = calls example_world @ cs \<and>
        accepted example_os (calls example_world) cs = take m [1, 2] \<and> m \<le> length [1::u8, 2] \<and> (r = IO_OK \<longleftrightarrow> m = length [1::u8, 2])
    | Wait ms w' k \<Rightarrow> \<exists>cs m. calls w' = calls example_world @ cs \<and>
        accepted example_os (calls example_world) cs = take m [1, 2] \<and> m < length [1::u8, 2] \<and>
        k = (\<lambda>w''. Return IO_OK (fst (CMonitorEpoll_Del example_os 7 w'')))
    | _ \<Rightarrow> False"
  by (rule tcpsend_result [OF example_send_documented]) simp_all

text \<open>The first half of a connection attempt to a new address.\<close>

lemma tcpconnect_new:
  fixes w :: world
  assumes "fd_ok w" and "ip_fresh (IpPort i p PORT_TCP) w"
    and "n = ret (os (calls w) (Sys_socket PORT_TCP))" and "fd_fresh n w"
    and "b = os (calls w @ [Sys_socket PORT_TCP]) (Sys_connect n \<lparr>sin_addr = inet_addr i, sin_port = htons p\<rparr>)"
  shows "\<exists>w3. tcpconnect os inet_addr raw i p timeout cb_seq cb_check sq w =
      (if ret b \<noteq> 0 \<and> errno b \<noteq> EINPROGRESS then Return (2, None) w3
       else if ret b = 0 then connect_finish sq (FdKey (IpPort i p PORT_TCP) n) w3
       else (case active_id w3 of
           None \<Rightarrow> Fail Null_Deref
         | Some me \<Rightarrow> Wait timeout
             ((fst (CMonitorEpoll_Add os n FD_READ_WRITE (fd_write (FdKey (IpPort i p PORT_TCP) n)
               (\<lambda>e. e\<lparr>fd_state := E_CONNECT, check := cb_check, seq := cb_seq, port_type := PORT_TCP, context_id := me\<rparr>) w3)))\<lparr>connecting := n # connecting w3\<rparr>)
             (connect_resumed os n sq (FdKey (IpPort i p PORT_TCP) n)))) \<and>
    fd_ok w3 \<and> co_ok w3 = co_ok w \<and> co_live w3 = co_live w \<and> nodes w3 = nodes w \<and> timers w3 = timers w \<and>
    control w3 = control w \<and>
    fd_table w3 = (fd_table w)(FdKey (IpPort i p PORT_TCP) n \<mapsto> (stFdData_new raw)\<lparr>fd := n\<rparr>) \<and>
    CFdMgr_Get_ip i p PORT_TCP w3 = Some (FdKey (IpPort i p PORT_TCP) n) \<and>
    calls w3 = calls w @ [Sys_socket PORT_TCP, Sys_connect n \<lparr>sin_addr = inet_addr i, sin_port = htons p\<rparr>]"
proof -
  let ?addr = "\<lparr>sin_addr = inet_addr i, sin_port = htons p\<rparr>"
  let ?key = "FdKey (IpPort i p PORT_TCP) n"
  define w1 where "w1 = snd (sys os (Sys_socket PORT_TCP) w)"
  define w2 where "w2 = snd (sys os (Sys_connect n ?addr) w1)"
  have s1: "sys os (Sys_socket PORT_TCP) w = (os (calls w) (Sys_socket PORT_TCP), w1)"
    by (simp add: w1_def prod_eq_iff)
  have s2: "sys os (Sys_connect n ?addr) w1 = (b, w2)"
    by (simp add: w2_def prod_eq_iff assms(5) w1_def)
  have ok2: "fd_ok w2" "fd_fresh n w2" "ip_fresh (IpPort i p PORT_TCP) w2"
    using assms(1,2,4) by (simp_all add: w2_def w1_def fd_fresh_def ip_fresh_def)
  obtain x where x: "CFdMgr_Add_ip raw n i p PORT_TCP w2 = (w2\<lparr>m_fd_to_data := x\<rparr>, Some ?key)"
      "fd_ok (w2\<lparr>m_fd_to_data := x\<rparr>)" "map_of x = (fd_table w2)(?key \<mapsto> (stFdData_new raw)\<lparr>fd := n\<rparr>)"
      "set x = insert (?key, (stFdData_new raw)\<lparr>fd := n\<rparr>) (set (m_fd_to_data w2))"
    using Add_ip_result [OF ok2, of raw] by blast
  have ne: "\<not> stIpPort_empty (IpPort i p PORT_TCP)" using assms(2) by (simp add: ip_fresh_def)
  have none: "CFdMgr_Get_ip i p PORT_TCP w = None"
  proof (rule ccontr)
    assume "CFdMgr_Get_ip i p PORT_TCP w \<noteq> None"
    then obtain k where "k \<in> fd_keys w" "ip_port k = IpPort i p PORT_TCP"
      using Get_ip_iff [OF assms(1) ne] by blast
    then show False using assms(2) unfolding ip_fresh_def by (metis imageI)
  qed
  let ?w3 = "w2\<lparr>m_fd_to_data := x\<rparr>"
  have "CFdMgr_Get_ip i p PORT_TCP ?w3 = Some ?key"
    using Get_ip_iff [OF x(2) ne] x(4) by simp
  moreover have "tcpconnect os inet_addr raw i p timeout cb_seq cb_check sq w =
      (if ret b \<noteq> 0 \<and> errno b \<noteq> EINPROGRESS then Return (2, None) ?w3
       else if ret b = 0 then connect_finish sq ?key ?w3
       else (case active_id ?w3 of
           None \<Rightarrow> Fail Null_Deref
         | Some me \<Rightarrow> Wait timeout
             ((fst (CMonitorEpoll_Add os n FD_READ_WRITE (fd_write ?key
               (\<lambda>e. e\<lparr>fd_state := E_CONNECT, check := cb_check, seq := cb_seq, port_type := PORT_TCP, context_id := me\<rparr>) ?w3)))\<lparr>connecting := n # connecting ?w3\<rparr>)
             (connect_resumed os n sq ?key)))"
    using none s1 s2 x(1) assms(3,4)
    by (cases "active_id ?w3") (simp_all add: tcpconnect_def Let_def fd_fresh_def)
  moreover have "co_ok ?w3 = co_ok w" "co_live ?w3 = co_live w"
    using co_ok_cong [of ?w3 w2] by (simp_all add: w2_def w1_def)
  ultimately show ?thesis
    using x(2,3) by (intro exI [of _ ?w3]) (simp add: w2_def w1_def)
qed

text \<open>
  C33: A connection attempt that fails at once returns the error code 2 in place of a negative
  descriptor: the caller goes on with descriptor 2, which is not its connection, and no entry;
  meanwhile the dead socket stays in the table under its address, where the next request to
  the same server finds it.
\<close>

theorem connect_failure_is_descriptor:
  assumes "fd_ok w" and "ip_fresh (IpPort i p PORT_TCP) w"
    and "n = ret (os (calls w) (Sys_socket PORT_TCP))" and "fd_fresh n w"
    and "b = os (calls w @ [Sys_socket PORT_TCP]) (Sys_connect n \<lparr>sin_addr = inet_addr i, sin_port = htons p\<rparr>)"
    and "ret b \<noteq> 0" and "errno b \<noteq> EINPROGRESS"
  shows "\<exists>w'. tcpconnect os inet_addr raw i p timeout cb_seq cb_check sq w = Return (2, None) w' \<and>
    fd_ok w' \<and> CFdMgr_Get_ip i p PORT_TCP w' = Some (FdKey (IpPort i p PORT_TCP) n)"
  using tcpconnect_new [where os = os and inet_addr = inet_addr, OF assms(1-5), of raw timeout cb_seq cb_check sq] assms(6,7)
  by auto

definition refusing_os :: os where
  "refusing_os cs c = (example_os cs c)\<lparr>ret := (case c of Sys_socket t \<Rightarrow> 11 | Sys_connect n a \<Rightarrow> -1 | _ \<Rightarrow> 0),
     errno := 111\<rparr>"

theorem connect_failure_is_descriptor_witness:
  "\<exists>w'. tcpconnect refusing_os (\<lambda>_. 0) example_raw ''10.0.0.9'' 80 1000 2 1 5 example_world = Return (2, None) w' \<and>
    CFdMgr_Get_ip ''10.0.0.9'' 80 PORT_TCP w' = Some (FdKey (IpPort ''10.0.0.9'' 80 PORT_TCP) 11)"
proof -
  have "ip_fresh (IpPort ''10.0.0.9'' 80 PORT_TCP) example_world" "fd_fresh 11 example_world"
    by (simp_all add: ip_fresh_def fd_fresh_def example_world_fds example_fds_def fd_key_def
        stIpPort_empty_def stIpPort_new_def)
  then show ?thesis
    using connect_failure_is_descriptor [OF example_world_fds(1), of "''10.0.0.9''" 80 11 refusing_os _ "\<lambda>_. 0"
        example_raw 1000 2 1 5]
    by (auto simp: refusing_os_def EINPROGRESS_def)
qed

lemma sendrecv_finish_result:
  assumes "fd_ok w" and "fd_read key w = Some d" and "sm_sorted (seq_to_coroutine d)"
  shows "case map_of (seq_to_coroutine d) sq of
      None \<Rightarrow> sendrecv_finish os n key sq dst w = Fail Out_Of_Bounds
    | Some sr \<Rightarrow>
        if CMemData_Size (sr_data sr) = 0 then sendrecv_finish os n key sq dst w = Return (IO_ERR, dst) w
        else \<exists>w' d'. sendrecv_finish os n key sq dst w = Return (IO_OK, sr_data sr) w' \<and> fd_ok w' \<and>
          co_ok w' = co_ok w \<and> nodes w' = nodes w \<and> timers w' = timers w \<and>
          fd_table w' = (fd_table w)(key \<mapsto> d') \<and>
          map_of (seq_to_coroutine d') = (map_of (seq_to_coroutine d))(sq := None) \<and>
          calls w' = calls w @ (if dom (map_of (seq_to_coroutine d)) = {sq} then [Sys_epoll_ctl CTL_DEL n 0] else [])"
proof (cases "map_of (seq_to_coroutine d) sq")
  case None
  then show ?thesis using assms(2,3) by (simp add: sendrecv_finish_def sm_find_lin)
next
  case (Some sr)
  show ?thesis
  proof (cases "CMemData_Size (sr_data sr) = 0")
    case True
    then show ?thesis using assms(2,3) Some by (simp add: sendrecv_finish_def sm_find_lin)
  next
    case False
    let ?rest = "sm_erase (<) sq (seq_to_coroutine d)"
    let ?f = "\<lambda>e. e\<lparr>seq_to_coroutine := ?rest\<rparr>"
    let ?w1 = "fd_write key ?f w"
    let ?w = "if ?rest = [] then fst (CMonitorEpoll_Del os n ?w1) else ?w1"
    have rest: "map_of ?rest = (map_of (seq_to_coroutine d))(sq := None)"
      using assms(3) by (simp add: sm_erase_lin)
    have empty: "?rest = [] \<longleftrightarrow> dom (map_of (seq_to_coroutine d)) = {sq}"
    proof -
      have "?rest = [] \<longleftrightarrow> dom (map_of ?rest) = {}" by (simp add: dom_map_of_conv_image_fst)
      also have "\<dots> \<longleftrightarrow> dom (map_of (seq_to_coroutine d)) - {sq} = {}" by (simp add: rest)
      finally show ?thesis using Some by auto
    qed
    have "sendrecv_finish os n key sq dst w = Return (IO_OK, sr_data sr) ?w"
      using assms(2,3) Some False by (simp add: sendrecv_finish_def sm_find_lin Let_def)
    moreover have ok1: "fd_ok ?w1" by (rule fd_write_ok [OF assms(1)]) simp
    have del: "fd_ok (fst (CMonitorEpoll_Del os n v)) = fd_ok v" for v :: world
      by (simp add: CMonitorEpoll_Del_def case_prod_beta Let_def)
    have "fd_ok ?w" by (simp only: del ok1 if_cancel simp_thms split: if_split)
    moreover have "fd_table ?w = (fd_table w)(key \<mapsto> ?f d)"
      using assms(2) by (simp add: CMonitorEpoll_Del_def case_prod_beta Let_def fd_write_table fd_read_def)
    moreover have "calls ?w = calls w @ (if ?rest = [] then [Sys_epoll_ctl CTL_DEL n 0] else [])"
      by (simp add: CMonitorEpoll_Del_def case_prod_beta Let_def)
    moreover have "co_ok ?w = co_ok w" "nodes ?w = nodes w" "timers ?w = timers w"
      by (simp_all add: CMonitorEpoll_Del_def case_prod_beta Let_def)
    ultimately show ?thesis
      using Some False rest unfolding empty by (auto intro!: exI [of _ "?f d"])
  qed
qed

lemma sendrecv_finish_frame:
  assumes "sendrecv_finish os n key sq dst w = Return r w'"
  shows "control w' = control w" and "head_id w' = head_id w"
  using assms
  by (auto simp: sendrecv_finish_def fd_write_def CMonitorEpoll_Del_def case_prod_beta Let_def split: option.splits if_splits)

text \<open>
  When \<^verbatim>\<open>tcpsendrecv\<close> is resumed, it hands over the reply stored for its sequence number and
  takes the number out of the connection's table, unwatching the connection when it was the
  last; no coroutine or timer changes. Without a reply it reports an error and leaves the number in the table for ever; and
  if the number is gone it reads through the end iterator.
\<close>

theorem sendrecv_takes_reply:
  assumes "fd_ok w" and "fd_read key w = Some d" and "sm_sorted (seq_to_coroutine d)"
  shows "case map_of (seq_to_coroutine d) sq of
      None \<Rightarrow> sendrecv_finish os n key sq dst w = Fail Out_Of_Bounds
    | Some sr \<Rightarrow>
        if CMemData_Size (sr_data sr) = 0 then sendrecv_finish os n key sq dst w = Return (IO_ERR, dst) w
        else \<exists>w' d'. sendrecv_finish os n key sq dst w = Return (IO_OK, sr_data sr) w' \<and> fd_ok w' \<and>
          co_ok w' = co_ok w \<and> nodes w' = nodes w \<and> timers w' = timers w \<and>
          fd_table w' = (fd_table w)(key \<mapsto> d') \<and>
          map_of (seq_to_coroutine d') = (map_of (seq_to_coroutine d))(sq := None) \<and>
          calls w' = calls w @ (if dom (map_of (seq_to_coroutine d)) = {sq} then [Sys_epoll_ctl CTL_DEL n 0] else [])"
  by (rule sendrecv_finish_result [OF assms])

theorem sendrecv_takes_reply_witness:
  "sendrecv_finish example_os 9 (FdKey (IpPort ''10.0.0.1'' 80 PORT_TCP) 9) 5 CMemData_new example_world =
     Return (IO_ERR, CMemData_new) example_world"
  using sendrecv_takes_reply [OF example_world_fds(1) example_read(3) _, of example_os 9 5 CMemData_new]
  by (simp add: CMemData_Size_def CMemData_new_def)

end
