(* ===== verification/Runtime.thy ===== *)
theory Runtime
  imports Client
begin

section \<open>Coroutines on their stacks (CoroutineMgr.cpp, \<^verbatim>\<open>Entry\<close>)\<close>

text \<open>
  What runs when the scheduler switches to a coroutine. A coroutine that has waited goes on
  where it did, one that has not starts in \<^verbatim>\<open>Entry\<close>, which calls the callback of its request.
  It runs until it waits again or its callback returns; both end with a switch to the main
  stack, so that the whole run is one function of the state, the parameter \<open>run\<close> of \<open>ScheduleAll\<close>
  and \<open>RunOnce\<close>. The suspended stacks are a map from ids to what is left of the code, of type
  \<open>co\<close>. Callbacks are the parameter \<open>procs\<close>: by function pointer and the id that names the
  request record.

  A finished coroutine's stack holds the return from \<^verbatim>\<open>Entry\<close>, to the address \<open>0\<close> that \<^verbatim>\<open>calloc\<close>
  left above it.

  \<open>runtime_inv\<close> is the invariant between runs, for callbacks that keep to the contract
  \<open>procs_ok\<close>: a ready coroutine has a callback or a stack, a waiting one a stack, and what is
  on the stacks keeps to the contract too. It makes \<open>run_coroutine\<close> an instance of \<open>coroutine_runtime\<close>.
\<close>

type_synonym stacks = "u32 \<rightharpoonup> (world \<Rightarrow> (world, int) co)"
type_synonym procs = "fnptr \<Rightarrow> u32 \<Rightarrow> world \<Rightarrow> (world, int) co"

definition dead_stack :: "world \<Rightarrow> (world, int) co" where
  "dead_stack w = Fail Null_Call"

text \<open>The code of coroutine \<open>k\<close>, up to its next wait or its end, and the switch there.\<close>

definition finish_run :: "u32 \<Rightarrow> stacks \<Rightarrow> (world, int) co \<Rightarrow> (world \<times> stacks) res" where
  "finish_run k ks c = (case c of
     Return r w \<Rightarrow> bind_res (Entry_end w) (\<lambda>w'. Inr (w', ks(k \<mapsto> dead_stack)))
   | Wait ms w f \<Rightarrow> bind_res (CoroutineMgr_WaitAndSchedule ms w) (\<lambda>w'. Inr (w', ks(k \<mapsto> f)))
   | Fail e \<Rightarrow> Inl e
   | Diverge \<Rightarrow> Inl No_Return)"

text \<open>\<^verbatim>\<open>Entry\<close> up to the callback, and the callback.\<close>

definition enter :: "procs \<Rightarrow> u32 \<Rightarrow> world \<Rightarrow> (world, int) co" where
  "enter procs k w = (case CoroutineMgr_Get k w of
     None \<Rightarrow> Fail Null_Deref
   | Some c \<Rightarrow> (case Entry_begin k w of
       Inl e \<Rightarrow> Fail e
     | Inr w' \<Rightarrow> procs (m_cb (m_req c)) k w'))"

definition run_coroutine :: "procs \<Rightarrow> u32 \<Rightarrow> world \<times> stacks \<Rightarrow> (world \<times> stacks) res" where
  "run_coroutine procs k x = finish_run k (snd x)
     ((case snd x k of Some f \<Rightarrow> f | None \<Rightarrow> enter procs k) (fst x))"

subsection \<open>The contract of a callback\<close>

text \<open>
  Between waits, the code leaves the coroutine table, the timers and the callback table alone,
  and if the descriptor table is in order it stays so: whatever check function it has, a
  callback is registered for it, and what is listened on is a stream socket. The code neither
  faults nor runs for ever, provided it is resumed on its own stack.
\<close>

definition entry_ok :: "(fnptr, fnptr) smap \<Rightarrow> stFdData \<Rightarrow> bool" where
  "entry_ok cbs d \<longleftrightarrow> (fd_state d = E_LISTEN \<longrightarrow> port_type d = PORT_TCP) \<and>
     (check d = 0 \<or> (\<exists>p. map_of cbs (check d) = Some p \<and> p \<noteq> 0))"

definition entries_ok :: "'z world_scheme \<Rightarrow> bool" where
  "entries_ok w \<longleftrightarrow> sm_sorted (m_pkgcallback w) \<and> (\<forall>(k, d) \<in> set (m_fd_to_data w). entry_ok (m_pkgcallback w) d)"

definition stays :: "world \<Rightarrow> world \<Rightarrow> bool" where
  "stays w0 w \<longleftrightarrow> m_idtonode w = m_idtonode w0 \<and> m_active w = m_active w0 \<and> control w = control w0 \<and>
     m_expire_to_id w = m_expire_to_id w0 \<and> m_id_to_expire w = m_id_to_expire w0 \<and>
     staticid w = staticid w0 \<and> m_pkgcallback w = m_pkgcallback w0 \<and> (entries_ok w0 \<longrightarrow> entries_ok w)"

definition on_stack :: "u32 \<Rightarrow> world \<Rightarrow> bool" where
  "on_stack k w \<longleftrightarrow> co_ok w \<and> control w = k \<and> entries_ok w"

primrec keeps :: "u32 \<Rightarrow> (world, 'a) co \<Rightarrow> world \<Rightarrow> bool" where
  "keeps k (Return a w) w0 = stays w0 w"
| "keeps k (Fail e) w0 = False"
| "keeps k Diverge w0 = False"
| "keeps k (Wait ms w f) w0 = (stays w0 w \<and> (\<forall>w'. on_stack k w' \<longrightarrow> keeps k (f w') w'))"

definition stack_ok :: "u32 \<Rightarrow> (world \<Rightarrow> (world, 'a) co) \<Rightarrow> bool" where
  "stack_ok k f \<longleftrightarrow> (\<forall>w. on_stack k w \<longrightarrow> keeps k (f w) w)"

definition procs_ok :: "procs \<Rightarrow> bool" where
  "procs_ok procs \<longleftrightarrow> (\<forall>cb k. cb \<noteq> 0 \<longrightarrow> stack_ok k (procs cb k))"

text \<open>The stack a coroutine needs, by its state.\<close>

definition node_ok :: "stacks \<Rightarrow> u32 \<Rightarrow> CoroutineContext \<Rightarrow> bool" where
  "node_ok ks k c = (case m_state c of
     E_END \<Rightarrow> True
   | E_WAIT \<Rightarrow> (\<exists>f. ks k = Some f \<and> stack_ok k f)
   | E_READY \<Rightarrow> (case ks k of None \<Rightarrow> m_cb (m_req c) \<noteq> 0 | Some f \<Rightarrow> stack_ok k f))"

definition runtime_inv :: "procs \<Rightarrow> world \<times> stacks \<Rightarrow> bool" where
  "runtime_inv procs x \<longleftrightarrow> procs_ok procs \<and> co_ok (fst x) \<and> entries_ok (fst x) \<and>
     (\<forall>k c. nodes (fst x) k = Some c \<longrightarrow> k \<noteq> 0 \<longrightarrow> node_ok (snd x) k c)"

subsection \<open>Composing code that keeps to the contract\<close>

lemma stays_refl [simp]: "stays w w"
  by (simp add: stays_def)

lemma stays_trans [trans]: "stays a b \<Longrightarrow> stays b c \<Longrightarrow> stays a c"
  by (simp add: stays_def)

lemma stays_co: "stays w0 w \<Longrightarrow> co_ok w = co_ok w0"
  unfolding stays_def by (elim conjE, rule co_ok_cong(1); assumption)

lemma stays_on_stack: "stays w0 w \<Longrightarrow> on_stack k w0 \<Longrightarrow> on_stack k w"
  using stays_co [of w0 w] by (simp add: on_stack_def stays_def)

lemma stays_sys [simp]: "stays w0 (snd (sys os c w)) = stays w0 w"
  by (simp add: stays_def entries_ok_def)

lemma stays_Add [simp]: "stays w0 (fst (CMonitorEpoll_Add os n fe w)) = stays w0 w"
  by (simp add: CMonitorEpoll_Add_def case_prod_beta Let_def)

lemma stays_Del [simp]: "stays w0 (fst (CMonitorEpoll_Del os n w)) = stays w0 w"
  by (simp add: CMonitorEpoll_Del_def case_prod_beta Let_def)

lemma stays_connecting [simp]: "stays w0 (w\<lparr>connecting := x\<rparr>) = stays w0 w"
  by (simp add: stays_def entries_ok_def)

lemma stays_head_id [simp]: "stays w0 (w\<lparr>head_id := i\<rparr>) = stays w0 w"
  by (simp add: stays_def entries_ok_def)

lemma keeps_trans: "keeps k c w \<Longrightarrow> stays w0 w \<Longrightarrow> keeps k c w0"
  by (cases c) (auto intro: stays_trans)

lemma keeps_bind:
  assumes "keeps k c w0" and "on_stack k w0"
    and "\<And>a w. on_stack k w \<Longrightarrow> keeps k (g a w) w"
  shows "keeps k (bind_co c g) w0"
  using assms(1,2)
proof (induction c arbitrary: w0)
  case (Return a w)
  then show ?case
    using assms(3) [OF stays_on_stack [of w0 w k]] by (auto intro: keeps_trans)
qed simp_all

subsection \<open>One run\<close>

text \<open>The descriptor and callback tables are not touched by a switch.\<close>

lemma Set_world_frame [simp, frame_simps]:
  "m_fd_to_data (CExpireMgr_Set ms c w) = m_fd_to_data w" "m_pkgcallback (CExpireMgr_Set ms c w) = m_pkgcallback w"
  "calls (CExpireMgr_Set ms c w) = calls w" "head_id (CExpireMgr_Set ms c w) = head_id w"
  for w :: "'z world_scheme"
  by (simp_all add: CExpireMgr_Set_def CExpireMgr_Add_def Let_def)

lemma Schedule_world_frame:
  assumes "CoroutineMgr_Schedule k (w :: 'z world_scheme) = Inr w'"
  shows "m_fd_to_data w' = m_fd_to_data w" and "m_pkgcallback w' = m_pkgcallback w" and "calls w' = calls w"
    and "head_id w' = head_id w"
  using assms by (auto simp: CoroutineMgr_Schedule_def CoroutineMgr_Switch_def split: option.splits)

lemma SetState_Schedule_frame:
  assumes "bind_res (SetState a ns (w :: 'z world_scheme)) (CoroutineMgr_Schedule 0) = Inr w'"
  shows "m_fd_to_data w' = m_fd_to_data w" and "m_pkgcallback w' = m_pkgcallback w" and "calls w' = calls w"
    and "head_id w' = head_id w"
proof -
  obtain w1 where w1: "SetState a ns w = Inr w1" "CoroutineMgr_Schedule 0 w1 = Inr w'"
    using assms by (auto simp: bind_res_Inr_iff)
  then show "m_fd_to_data w' = m_fd_to_data w" "m_pkgcallback w' = m_pkgcallback w" "calls w' = calls w"
    "head_id w' = head_id w"
    using update_node_frame [OF w1(1) [unfolded SetState_def]] Schedule_world_frame [OF w1(2)] by auto
qed

lemma Wait_world_frame:
  assumes "CoroutineMgr_WaitAndSchedule ms (w :: 'z world_scheme) = Inr w'"
  shows "m_fd_to_data w' = m_fd_to_data w" and "m_pkgcallback w' = m_pkgcallback w" and "calls w' = calls w"
    and "head_id w' = head_id w"
  using assms SetState_Schedule_frame [of _ E_WAIT "CExpireMgr_Set (ucast ms) _ w"]
  by (auto simp: CoroutineMgr_WaitAndSchedule_def Let_def split: option.splits)

lemma Entry_end_world_frame:
  assumes "Entry_end (w :: 'z world_scheme) = Inr w'"
  shows "m_fd_to_data w' = m_fd_to_data w" and "m_pkgcallback w' = m_pkgcallback w" and "calls w' = calls w"
    and "head_id w' = head_id w"
  using assms SetState_Schedule_frame [of _ E_END w]
  by (auto simp: Entry_end_def split: option.splits)

lemma entries_ok_cong:
  "m_fd_to_data w' = m_fd_to_data w \<Longrightarrow> m_pkgcallback w' = m_pkgcallback w \<Longrightarrow> entries_ok w' = entries_ok w"
  by (simp add: entries_ok_def)

text \<open>What a run comes to: the coroutine waits or has ended, and the rest is as it was.\<close>

lemma finish_run_result:
  assumes w0: "on_stack k w0" and c: "keeps k c w0" and st: "node_state w0 k = Some E_READY"
  shows "\<exists>w' g. finish_run k ks c = Inr (w', ks(k \<mapsto> g)) \<and> co_ok w' \<and> entries_ok w' \<and> control w' = 0 \<and>
    (node_state w' k = Some E_END \<or> node_state w' k = Some E_WAIT \<and> timers w' k \<noteq> None \<and> stack_ok k g) \<and>
    (\<forall>j. j \<noteq> k \<longrightarrow> nodes w' j = nodes w0 j \<and> timers w' j = timers w0 j)"
proof -
  have at: "co_ok w \<and> control w = k \<and> entries_ok w \<and> nodes w = nodes w0 \<and> timers w = timers w0"
    if "stays w0 w" for w
    using stays_on_stack [OF that w0] that by (simp add: on_stack_def stays_def)
  obtain d where d: "nodes w0 k = Some d" "m_state d = E_READY" using st by auto
  show ?thesis
  proof (cases c)
    case (Return r w)
    note a = at [OF c [unfolded Return keeps.simps]]
    have "nodes w (control w) = Some d" "m_state d \<noteq> E_WAIT" using a d by simp_all
    from Entry_end_result [OF _ this] a obtain w' where w': "Entry_end w = Inr w'" "co_ok w'"
        "nodes w' = (nodes w)(control w \<mapsto> d\<lparr>m_state := E_END\<rparr>)" "timers w' = timers w" "control w' = 0"
      by blast
    have "entries_ok w'" using entries_ok_cong [OF Entry_end_world_frame(1,2) [OF w'(1)]] a by simp
    then show ?thesis
      using w' a Return by (intro exI [of _ w'] exI [of _ dead_stack]) (simp add: finish_run_def)
  next
    case (Wait ms w f)
    have s: "stays w0 w" and f: "stack_ok k f" using c Wait by (simp_all add: stack_ok_def)
    note a = at [OF s]
    have "nodes w (control w) = Some d" using a d by simp
    from WaitAndSchedule_result [OF _ this] a obtain w' where w': "CoroutineMgr_WaitAndSchedule ms w = Inr w'" "co_ok w'"
        "nodes w' = (nodes w)(control w \<mapsto> d\<lparr>m_state := E_WAIT\<rparr>)"
        "timers w' = (timers w)(control w \<mapsto> CExpireMgr_now w + ucast ms)" "control w' = 0"
      by blast
    have "entries_ok w'" using entries_ok_cong [OF Wait_world_frame(1,2) [OF w'(1)]] a by simp
    then show ?thesis
      using w' a Wait f by (intro exI [of _ w'] exI [of _ f]) (simp add: finish_run_def)
  qed (use c in simp_all)
qed

lemma on_stack_switch:
  assumes "co_ok w" and "entries_ok w" and "nodes w k \<noteq> None"
  shows "on_stack k (w\<lparr>m_active := Some k, control := k\<rparr>)"
  using Schedule_result(2) [OF assms(1,3)] assms(2) entries_ok_cong [of "w\<lparr>m_active := Some k, control := k\<rparr>" w]
  by (simp add: on_stack_def)

lemma enter_keeps:
  assumes "procs_ok procs" and "on_stack k w" and "nodes w k = Some c" and "m_cb (m_req c) \<noteq> 0"
  shows "keeps k (enter procs k w) w"
proof -
  have ok: "co_ok w" "control w = k" using assms(2) by (simp_all add: on_stack_def)
  then have "CoroutineMgr_SetActive k w = w"
    using co_okD(3) [OF ok(1)] by (simp add: CoroutineMgr_SetActive_def)
  then have "Entry_begin k w = Inr w"
    using assms(3,4) by (simp add: Entry_begin_def Get_nodes [OF ok(1)])
  then have "enter procs k w = procs (m_cb (m_req c)) k w"
    using assms(3) by (simp add: enter_def Get_nodes [OF ok(1)])
  then show ?thesis
    using assms(1,2,4) by (simp add: procs_ok_def stack_ok_def)
qed

text \<open>The contract of the scheduler's runs, and with it the facts of \<open>coroutine_runtime\<close>.\<close>

lemma run_result:
  assumes inv: "runtime_inv procs x" and k: "k \<noteq> 0" "node_state (fst x) k = Some E_READY"
  shows "\<exists>w' g. run_coroutine procs k ((fst x)\<lparr>m_active := Some k, control := k\<rparr>, snd x) = Inr (w', (snd x)(k \<mapsto> g)) \<and>
    runtime_inv procs (w', (snd x)(k \<mapsto> g)) \<and> control w' = 0 \<and>
    (node_state w' k = Some E_WAIT \<and> timers w' k \<noteq> None \<or> node_state w' k = Some E_END) \<and>
    (\<forall>j. j \<noteq> k \<longrightarrow> nodes w' j = nodes (fst x) j \<and> timers w' j = timers (fst x) j)"
proof -
  let ?w = "(fst x)\<lparr>m_active := Some k, control := k\<rparr>"
  obtain c where c: "nodes (fst x) k = Some c" "m_state c = E_READY" using k(2) by auto
  have i: "procs_ok procs" "co_ok (fst x)" "entries_ok (fst x)" "node_ok (snd x) k c"
    using inv c(1) k(1) by (simp_all add: runtime_inv_def)
  have on: "on_stack k ?w" by (rule on_stack_switch [OF i(2,3)]) (simp add: c)
  have "keeps k ((case snd x k of Some f \<Rightarrow> f | None \<Rightarrow> enter procs k) ?w) ?w"
  proof (cases "snd x k")
    case None
    then show ?thesis using enter_keeps [OF i(1) on, of c] i(4) c by (simp add: node_ok_def)
  next
    case (Some f)
    then show ?thesis using i(4) c on by (simp add: node_ok_def stack_ok_def)
  qed
  from finish_run_result [OF on this, of "snd x"] k(2)
  obtain w' g where w': "run_coroutine procs k (?w, snd x) = Inr (w', (snd x)(k \<mapsto> g))" "co_ok w'" "entries_ok w'" "control w' = 0"
      "node_state w' k = Some E_END \<or> node_state w' k = Some E_WAIT \<and> timers w' k \<noteq> None \<and> stack_ok k g"
      "\<forall>j. j \<noteq> k \<longrightarrow> nodes w' j = nodes (fst x) j \<and> timers w' j = timers (fst x) j"
    by (auto simp: run_coroutine_def)
  have "node_ok ((snd x)(k \<mapsto> g)) j e" if "nodes w' j = Some e" "j \<noteq> 0" for j e
  proof (cases "j = k")
    case True
    then show ?thesis using w'(5) that by (auto simp: node_ok_def)
  next
    case False
    then have "node_ok (snd x) j e" using inv that w'(6) by (auto simp: runtime_inv_def)
    then show ?thesis using False by (cases "m_state e") (simp_all add: node_ok_def)
  qed
  then have "runtime_inv procs (w', (snd x)(k \<mapsto> g))"
    using w'(2,3) i(1) by (simp add: runtime_inv_def)
  then show ?thesis using w' by blast
qed

interpretation runtime: coroutine_runtime "run_coroutine procs" "runtime_inv procs" for procs
proof
  fix x :: "world \<times> stacks" and k :: u32
  assume inv: "runtime_inv procs x"
  show "co_ok (fst x)" using inv by (simp add: runtime_inv_def)
  assume c0: "control (fst x) = 0" and k0: "k \<noteq> 0"
  show "\<exists>x'. run_coroutine procs k ((fst x)\<lparr>m_active := Some k, control := k\<rparr>, snd x) = Inr x' \<and> runtime_inv procs x' \<and>
        control (fst x') = 0 \<and>
        (node_state (fst x') k = Some E_WAIT \<or> node_state (fst x') k = Some E_END) \<and>
        (\<forall>j. j \<noteq> k \<longrightarrow> node_state (fst x') j = node_state (fst x) j)"
    if r: "node_state (fst x) k = Some E_READY"
  proof -
    obtain w' g where "run_coroutine procs k ((fst x)\<lparr>m_active := Some k, control := k\<rparr>, snd x) = Inr (w', (snd x)(k \<mapsto> g))"
        "runtime_inv procs (w', (snd x)(k \<mapsto> g))" "control w' = 0"
        "node_state w' k = Some E_WAIT \<and> timers w' k \<noteq> None \<or> node_state w' k = Some E_END"
        "\<forall>j. j \<noteq> k \<longrightarrow> nodes w' j = nodes (fst x) j \<and> timers w' j = timers (fst x) j"
      using run_result [OF inv k0 r] by (elim exE conjE) (rule that; assumption)
    then show ?thesis by (intro exI [of _ "(w', (snd x)(k \<mapsto> g))"]) auto
  qed
  show "runtime_inv procs (fst (CoroutineMgr_Destroy k (fst x)), snd x)"
    if r: "node_state (fst x) k = Some E_END"
  proof -
    have ok: "co_ok (fst x)" using inv by (simp add: runtime_inv_def)
    have kc: "k \<noteq> control (fst x)" using c0 k0 by simp
    obtain s' where s': "CoroutineMgr_Destroy k (fst x) = (s', IO_OK)" "co_ok s'" "nodes s' = (nodes (fst x))(k := None)"
      using Destroy_result [OF ok k0 kc r] by blast
    moreover have "m_fd_to_data s' = m_fd_to_data (fst x)" "m_pkgcallback s' = m_pkgcallback (fst x)"
      using s'(1) by (auto simp: CoroutineMgr_Destroy_def split: option.splits)
    then have "entries_ok s' = entries_ok (fst x)" by (rule entries_ok_cong)
    ultimately show ?thesis
      using inv by (auto simp: runtime_inv_def split: if_splits)
  qed
qed

text \<open>The same runs keep every sleeper's timer.\<close>

definition live_inv :: "procs \<Rightarrow> world \<times> stacks \<Rightarrow> bool" where
  "live_inv procs x \<longleftrightarrow> runtime_inv procs x \<and> co_live (fst x)"

interpretation live: coroutine_runtime "run_coroutine procs" "live_inv procs" for procs
proof
  fix x :: "world \<times> stacks" and k :: u32
  assume inv: "live_inv procs x"
  then have i: "runtime_inv procs x" and ok: "co_ok (fst x)" and live: "co_live (fst x)"
    by (simp_all add: live_inv_def runtime_inv_def)
  show "co_ok (fst x)" by (rule ok)
  assume c0: "control (fst x) = 0" and k0: "k \<noteq> 0"
  show "\<exists>x'. run_coroutine procs k ((fst x)\<lparr>m_active := Some k, control := k\<rparr>, snd x) = Inr x' \<and> live_inv procs x' \<and>
        control (fst x') = 0 \<and>
        (node_state (fst x') k = Some E_WAIT \<or> node_state (fst x') k = Some E_END) \<and>
        (\<forall>j. j \<noteq> k \<longrightarrow> node_state (fst x') j = node_state (fst x) j)"
    if r: "node_state (fst x) k = Some E_READY"
  proof -
    obtain w' g where w': "run_coroutine procs k ((fst x)\<lparr>m_active := Some k, control := k\<rparr>, snd x) = Inr (w', (snd x)(k \<mapsto> g))"
        "runtime_inv procs (w', (snd x)(k \<mapsto> g))" "control w' = 0"
        "node_state w' k = Some E_WAIT \<and> timers w' k \<noteq> None \<or> node_state w' k = Some E_END"
        "\<forall>j. j \<noteq> k \<longrightarrow> nodes w' j = nodes (fst x) j \<and> timers w' j = timers (fst x) j"
      using run_result [OF i k0 r] by (elim exE conjE) (rule that; assumption)
    have "co_live w'"
      by (rule co_live_step [OF ok _ live, of w' k]) (use w' in \<open>auto simp: runtime_inv_def\<close>)
    then show ?thesis
      using w' by (intro exI [of _ "(w', (snd x)(k \<mapsto> g))"]) (auto simp: live_inv_def)
  qed
  show "live_inv procs (fst (CoroutineMgr_Destroy k (fst x)), snd x)"
    if r: "node_state (fst x) k = Some E_END"
  proof -
    have kc: "k \<noteq> control (fst x)" using c0 k0 by simp
    obtain s' where s': "CoroutineMgr_Destroy k (fst x) = (s', IO_OK)" "co_ok s'" "nodes s' = (nodes (fst x))(k := None)"
        "timers s' = timers (fst x)"
      using Destroy_result [OF ok k0 kc r] by blast
    have "co_live s'"
      by (rule co_live_state [OF ok s'(2) live s'(4)]) (use s'(3) in \<open>auto split: if_splits\<close>)
    then show ?thesis
      using s' runtime.destroy_inv [OF i c0 k0 r] by (simp add: live_inv_def)
  qed
qed

end
