(* ===== verification/Turn.thy ===== *)
theory Turn
  imports Runtime
begin

section \<open>The main loop\<close>

text \<open>
  Both programs run the same loop for ever: one turn of the event loop, one pass of the
  scheduler. \<open>main_turn\<close> is one round of it; the stacks of the coroutines a pass destroys are
  freed with them. \<open>main_step\<close> is the step relation and \<open>loop_inv\<close> its invariant, which adds to
  \<open>runtime_inv\<close> that the main stack runs and every coroutine sleeps.

  The lemmas show that every handler of the event loop that does not fault keeps the
  invariant \<open>event_inv\<close>, for any system, any check function and any bytes; the pass that follows
  then ends and puts every coroutine to sleep, by the facts of \<open>runtime\<close>.
\<close>

definition free_stacks :: "world \<times> stacks \<Rightarrow> world \<times> stacks" where
  "free_stacks x = (fst x, snd x |` dom (nodes (fst x)))"

definition main_turn :: "os \<Rightarrow> code \<Rightarrow> stFdData \<Rightarrow> procs \<Rightarrow> world \<times> stacks \<Rightarrow> (world \<times> stacks) res option" where
  "main_turn os code raw procs x = (case RunOnce os code raw (run_coroutine procs) x of
     Inl e \<Rightarrow> Some (Inl e)
   | Inr (y, r) \<Rightarrow> map_option (\<lambda>z. bind_res z (\<lambda>z. Inr (free_stacks z))) (ScheduleAll (run_coroutine procs) y))"

inductive main_step :: "os \<Rightarrow> code \<Rightarrow> stFdData \<Rightarrow> procs \<Rightarrow> world \<times> stacks \<Rightarrow> world \<times> stacks \<Rightarrow> bool"
  for os code raw procs where
  round: "main_turn os code raw procs x = Some (Inr y) \<Longrightarrow> main_step os code raw procs x y"

inductive_cases main_stepE [elim!]: "main_step os code raw procs x y"

inductive main_reach :: "os \<Rightarrow> code \<Rightarrow> stFdData \<Rightarrow> procs \<Rightarrow> world \<times> stacks \<Rightarrow> world \<times> stacks \<Rightarrow> bool"
  for os code raw procs x where
  start: "main_reach os code raw procs x x"
| more: "main_reach os code raw procs x y \<Longrightarrow> main_step os code raw procs y z \<Longrightarrow> main_reach os code raw procs x z"

subsection \<open>The invariants\<close>

definition event_inv :: "procs \<Rightarrow> world \<times> stacks \<Rightarrow> bool" where
  "event_inv procs x \<longleftrightarrow> runtime_inv procs x \<and> control (fst x) = 0 \<and>
     (\<forall>k. k \<noteq> 0 \<longrightarrow> node_state (fst x) k \<noteq> Some E_END) \<and> dom (snd x) \<subseteq> dom (nodes (fst x))"

definition asleep :: "world \<Rightarrow> bool" where
  "asleep w \<longleftrightarrow> (\<forall>k. k \<noteq> 0 \<longrightarrow> node_state w k = None \<or> node_state w k = Some E_WAIT)"

definition loop_inv :: "procs \<Rightarrow> world \<times> stacks \<Rightarrow> bool" where
  "loop_inv procs x \<longleftrightarrow> event_inv procs x \<and> asleep (fst x)"

lemma event_invD:
  assumes "event_inv procs (w, ks)"
  shows "procs_ok procs" and "co_ok w" and "entries_ok w" and "control w = 0"
    and "nodes w k = Some c \<Longrightarrow> k \<noteq> 0 \<Longrightarrow> node_ok ks k c" and "nodes w k = Some c \<Longrightarrow> k \<noteq> 0 \<Longrightarrow> m_state c \<noteq> E_END"
    and "nodes w k = None \<Longrightarrow> ks k = None"
  using assms unfolding event_inv_def runtime_inv_def by (auto simp: domIff)

lemma event_invI:
  assumes "procs_ok procs" and "co_ok w" and "entries_ok w" and "control w = 0"
    and "\<And>k c. nodes w k = Some c \<Longrightarrow> k \<noteq> 0 \<Longrightarrow> node_ok ks k c \<and> m_state c \<noteq> E_END"
    and "\<And>k. nodes w k = None \<Longrightarrow> ks k = None"
  shows "event_inv procs (w, ks)"
proof -
  have "dom ks \<subseteq> dom (nodes w)" using assms(6) by (metis domIff subsetI)
  then show ?thesis using assms(1-5) unfolding event_inv_def runtime_inv_def by auto
qed

text \<open>One changed entry of the table, with the same stacks.\<close>

lemma event_inv_node:
  assumes inv: "event_inv procs (w, ks)" and ok: "co_ok w'" "entries_ok w'" "control w' = 0"
    and n: "nodes w' = (nodes w)(k \<mapsto> c)"
    and c: "k \<noteq> 0 \<Longrightarrow> node_ok ks k c \<and> m_state c \<noteq> E_END"
  shows "event_inv procs (w', ks)"
  by (rule event_invI [OF event_invD(1) [OF inv] ok])
    (use n c event_invD(5-7) [OF inv] in \<open>auto split: if_splits\<close>)

lemma event_inv_cong:
  assumes "m_idtonode w' = m_idtonode w" and "m_active w' = m_active w" and "control w' = control w"
    and "m_expire_to_id w' = m_expire_to_id w" and "m_id_to_expire w' = m_id_to_expire w" and "entries_ok w'"
    and "event_inv procs (w, ks)"
  shows "event_inv procs (w', ks)"
proof (rule event_invI)
  show "co_ok w'" using event_invD(2) [OF assms(7)] co_ok_cong(1) [OF assms(1-5)] by simp
qed (use assms event_invD [OF assms(7)] in auto)

lemma event_inv_sys: "event_inv procs (w, ks) \<Longrightarrow> event_inv procs (snd (sys os c w), ks)"
  by (rule event_inv_cong) (use event_invD(3) [of procs w ks] in \<open>simp_all add: entries_ok_def\<close>)

lemma event_inv_Add: "event_inv procs (w, ks) \<Longrightarrow> event_inv procs (fst (CMonitorEpoll_Add os n fe w), ks)"
  by (simp add: CMonitorEpoll_Add_def case_prod_beta Let_def event_inv_sys)

lemma event_inv_Del: "event_inv procs (w, ks) \<Longrightarrow> event_inv procs (fst (CMonitorEpoll_Del os n w), ks)"
  by (simp add: CMonitorEpoll_Del_def case_prod_beta Let_def event_inv_sys)

lemmas event_inv_calls = event_inv_sys event_inv_Add event_inv_Del

subsection \<open>The descriptor table\<close>

lemma entries_okD:
  "entries_ok w \<Longrightarrow> fd_read key w = Some d \<Longrightarrow> entry_ok (m_pkgcallback w) d"
  by (auto simp: entries_ok_def fd_read_def dest: map_of_SomeD)

lemma event_inv_fds:
  assumes "event_inv procs (w, ks)" and "\<forall>(k, d) \<in> set x. entry_ok (m_pkgcallback w) d"
  shows "event_inv procs (w\<lparr>m_fd_to_data := x\<rparr>, ks)"
  by (rule event_inv_cong [OF _ _ _ _ _ _ assms(1)])
    (use assms event_invD(3) [OF assms(1)] in \<open>simp_all add: entries_ok_def\<close>)

lemma event_inv_write:
  assumes "event_inv procs (w, ks)" and "\<And>d. entry_ok (m_pkgcallback w) d \<Longrightarrow> entry_ok (m_pkgcallback w) (f d)"
  shows "event_inv procs (fd_write key f w, ks)"
proof -
  have "entry_ok (m_pkgcallback w) (snd e)" if "e \<in> set (m_fd_to_data w)" for e
    using that event_invD(3) [OF assms(1)] by (auto simp: entries_ok_def)
  then have "\<forall>(k, d) \<in> set (map (\<lambda>(k, d). if k = key then (k, f d) else (k, d)) (m_fd_to_data w)).
      entry_ok (m_pkgcallback w) d"
    using assms(2) by (auto simp: case_prod_beta)
  then show ?thesis unfolding fd_write_def by (rule event_inv_fds [OF assms(1)])
qed

lemma set_sm_insert: "set (fst (sm_insert lt k v m)) \<subseteq> insert (k, v) (set m)"
  using arg_cong [OF sm_split [of m lt k], of set] by (auto simp: sm_insert_def split: option.splits)

lemma set_sm_erase: "set (sm_erase lt k m) \<subseteq> set m"
  using arg_cong [OF sm_split [of m lt k], of set]
  by (cases "sm_lower_bound lt k m") (auto simp: sm_erase_def split: option.splits)

lemma Add_entries:
  assumes "event_inv procs (w, ks)"
  shows "event_inv procs (fst (CFdMgr_Add raw n w), ks)"
proof -
  have new: "entry_ok (m_pkgcallback w) ((stFdData_new raw)\<lparr>fd := n\<rparr>)"
    by (simp add: entry_ok_def stFdData_new_def)
  have "event_inv procs (w\<lparr>m_fd_to_data := fst (sm_insert key_less (fd_key n) ((stFdData_new raw)\<lparr>fd := n\<rparr>) (m_fd_to_data w))\<rparr>, ks)"
    by (rule event_inv_fds [OF assms])
      (use new set_sm_insert event_invD(3) [OF assms] in \<open>fastforce simp: entries_ok_def\<close>)
  then show ?thesis using assms by (simp add: CFdMgr_Add_def CFdMgr_insert_def case_prod_beta)
qed

lemma Destroy_entries:
  assumes "event_inv procs (w, ks)"
  shows "event_inv procs (fst (CFdMgr_Destroy n w), ks)"
proof -
  have "event_inv procs (w\<lparr>m_fd_to_data := sm_erase key_less (fd_key n) (m_fd_to_data w)\<rparr>, ks)"
    by (rule event_inv_fds [OF assms])
      (use set_sm_erase event_invD(3) [OF assms] in \<open>fastforce simp: entries_ok_def\<close>)
  then show ?thesis using assms by (simp add: CFdMgr_Destroy_def split: option.splits)
qed

subsection \<open>Handlers\<close>

lemma Expire_Del_co:
  assumes "co_ok s"
  shows "co_ok (CExpireMgr_Del i s)"
  by (rule co_okI)
    (use Del_ok [OF co_okD(1) [OF assms], of i] Del_timers [OF co_okD(1) [OF assms], of i] co_okD [OF assms]
      in \<open>auto split: if_splits\<close>)

lemma event_inv_SetReady:
  assumes inv: "event_inv procs (w, ks)" and r: "CoroutineMgr_SetReady k w = Inr w'"
  shows "event_inv procs (w', ks)"
proof (cases "nodes w k")
  case None
  then show ?thesis
    using r by (simp add: CoroutineMgr_SetReady_def SetState_def update_node_def Get_nodes [OF event_invD(2) [OF inv]])
next
  case (Some c)
  obtain s' where s': "CoroutineMgr_SetReady k w = Inr s'" "co_ok s'" "nodes s' = (nodes w)(k \<mapsto> c\<lparr>m_state := E_READY\<rparr>)"
      "control s' = control w"
    using SetReady_result [OF event_invD(2) [OF inv] Some] by blast
  have "entries_ok w'"
    using entries_ok_cong [OF SetReady_world_frame(1,2) [OF r]] event_invD(3) [OF inv] by simp
  moreover have "node_ok ks k (c\<lparr>m_state := E_READY\<rparr>)" if "k \<noteq> 0"
    using event_invD(5,6) [OF inv Some that] by (cases "m_state c") (auto simp: node_ok_def split: option.splits)
  ultimately show ?thesis
    using s' r event_invD(4) [OF inv] by (intro event_inv_node [OF inv, where k = k]) auto
qed

lemma event_inv_NewRequest:
  assumes inv: "event_inv procs (w, ks)" and d: "entry_ok (m_pkgcallback w) d" "check d \<noteq> 0"
    and r: "NewRequest d n md sz w = Inr w'"
  shows "event_inv procs (w', ks)"
proof -
  let ?k = "staticid w + 1"
  obtain p where p: "map_of (m_pkgcallback w) (check d) = Some p" "p \<noteq> 0"
    using d by (auto simp: entry_ok_def)
  have sorted: "sm_sorted (m_pkgcallback w)" using event_invD(3) [OF inv] by (simp add: entries_ok_def)
  obtain w1 c where w1: "CoroutineMgr_Create w = (w1, ?k)" "co_ok w1" "nodes w1 = (nodes w)(?k \<mapsto> c)"
      "case nodes w ?k of None \<Rightarrow> m_state c = E_READY | Some c' \<Rightarrow> c = c'" "control w1 = control w"
    using Create_any [OF event_invD(2) [OF inv]] by blast
  have f1: "m_fd_to_data w1 = m_fd_to_data w" "m_pkgcallback w1 = m_pkgcallback w"
    using Create_world_frame [of w] w1(1) by simp_all
  define cbs where "cbs = sm_assign (<) (check d) p (m_pkgcallback w)"
  have cbs: "map_of cbs = map_of (m_pkgcallback w)" "sm_sorted cbs"
    using p(1) sorted by (simp_all add: cbs_def sm_assign_lin fun_upd_idem)
  define w2 where "w2 = w1\<lparr>m_pkgcallback := cbs\<rparr>"
  have ok2: "co_ok w2" using w1(2) co_ok_cong(1) [of w2 w1] by (simp add: w2_def)
  have n2: "nodes w2 ?k = Some c" using w1(3) by (simp add: w2_def)
  obtain f where f: "update_node ?k f w2 = Inr w'" "\<And>c. CoroutineContext_GetID (f c) = CoroutineContext_GetID c"
      "\<And>c. m_state (f c) = m_state c" "\<And>c. m_cb (m_req (f c)) = p"
  proof -
    obtain buf where "update_node ?k (\<lambda>c. c\<lparr>m_req := (m_req c)\<lparr>m_cb := p, recvdata := buf,
        remoteaddr := remote d, server_socket := n\<rparr>\<rparr>) w2 = Inr w'"
      using r w1(1) p(1) sorted f1 by (auto simp: NewRequest_def w2_def cbs_def Let_def sm_find_lin bind_res_Inr_iff
          split: option.splits)
    then show ?thesis by (rule that) (simp_all add: CoroutineContext_GetID_def)
  qed
  obtain x where x: "w' = w2\<lparr>m_idtonode := x\<rparr>" "co_ok w'" "map_of x = (nodes w2)(?k \<mapsto> f c)"
    using update_node_result [of w2 ?k c f, OF ok2 n2 f(2) f(3)] f(1) by auto
  have e: "entries_ok w'"
    using event_invD(3) [OF inv] cbs f1 by (simp add: x(1) w2_def entries_ok_def entry_ok_def)
  have "node_ok ks ?k (f c) \<and> m_state (f c) \<noteq> E_END" if "?k \<noteq> 0"
  proof (cases "nodes w ?k")
    case None
    then show ?thesis
      using w1(4) event_invD(7) [OF inv None] f(3,4) p(2) by (simp add: node_ok_def)
  next
    case (Some c')
    then show ?thesis
      using w1(4) event_invD(5,6) [OF inv Some that] f(3,4) p(2)
      by (cases "m_state c") (auto simp: node_ok_def split: option.splits)
  qed
  then show ?thesis
    using x w1(3,5) e event_invD(4) [OF inv] by (intro event_inv_node [OF inv, where k = ?k]) (auto simp: w2_def)
qed

lemma event_inv_DeliverReply:
  assumes inv: "event_inv procs (w, ks)" and r: "DeliverReply os code d key md sz w = Inr (w', q)"
  shows "event_inv procs (w', ks)"
proof -
  have wr: "event_inv procs (fd_write key (\<lambda>e. e\<lparr>seq_to_coroutine := g e\<rparr>) w, ks)" for g
    by (rule event_inv_write [OF inv]) (simp add: entry_ok_def)
  show ?thesis
    using r
    by (auto simp: DeliverReply_def Let_def bind_res_Inr_iff intro!: event_inv_calls inv
        elim!: event_inv_SetReady [OF wr] split: if_splits option.splits)
qed

lemma event_inv_DelFd:
  assumes inv: "event_inv procs (w, ks)"
  shows "event_inv procs (DelFd os n w, ks)"
proof -
  let ?w = "fst (CMonitorEpoll_Del os n w)"
  have i: "event_inv procs (?w, ks)" by (rule event_inv_Del [OF inv])
  have "event_inv procs (CExpireMgr_Del (word_of_int n) ?w, ks)"
    by (rule event_invI)
      (use event_invD [OF i] Expire_Del_co entries_ok_cong [of "CExpireMgr_Del (word_of_int n) ?w" ?w] in auto)
  then show ?thesis
    by (auto simp: DelFd_def Let_def intro!: event_inv_sys Destroy_entries split: option.split)
qed

lemma tcprecv_world:
  assumes "event_inv procs (w, ks)" and "tcprecv os code n md cb p w = Inr (w', md', p', r)"
  shows "event_inv procs (w', ks) \<and> m_fd_to_data w' = m_fd_to_data w \<and> m_pkgcallback w' = m_pkgcallback w"
  using assms
  by (auto simp: tcprecv_def case_prod_beta Let_def bind_res_Inr_iff event_inv_sys split: if_splits option.splits)

lemma event_inv_DoReadTcp:
  assumes inv: "event_inv procs (w, ks)" and r: "DoReadTcp os code n key w = Inr (w', q)"
  shows "event_inv procs (w', ks)"
proof -
  obtain d where d: "fd_read key w = Some d" using r by (auto simp: DoReadTcp_def split: option.splits)
  have e: "entry_ok (m_pkgcallback w) d" by (rule entries_okD [OF event_invD(3) [OF inv] d])
  show ?thesis
  proof (cases "check d = 0")
    case True
    then show ?thesis using r d inv by (simp add: DoReadTcp_def)
  next
    case False
    then obtain w1 md p t where t: "tcprecv os code n CMemData_new (check d) 0 w = Inr (w1, md, p, t)"
      using r d by (auto simp: DoReadTcp_def bind_res_Inr_iff)
    have i1: "event_inv procs (w1, ks)" "m_pkgcallback w1 = m_pkgcallback w"
      using tcprecv_world [OF inv t] by simp_all
    then show ?thesis
      using r d False t e
      by (auto simp: DoReadTcp_def bind_res_Inr_iff intro: event_inv_DelFd event_inv_DeliverReply
          event_inv_NewRequest split: if_splits)
  qed
qed

lemma entry_ok_client:
  "entry_ok cbs l \<Longrightarrow> entry_ok cbs (e\<lparr>check := check l, fd_state := E_SERVER_CONN\<rparr>)"
  by (simp add: entry_ok_def)

lemma event_inv_NewReq:
  assumes inv: "event_inv procs (w, ks)" and d: "fd_read key w = Some d" "fd_state d = E_LISTEN"
    and r: "NewReq os raw ss key w = Inr (w', q)"
  shows "event_inv procs (w', ks)"
proof -
  let ?a = "os (calls w) (Sys_accept ss)"
  have tcp: "port_type d = PORT_TCP"
    using entries_okD [OF event_invD(3) [OF inv] d(1)] d(2) by (simp add: entry_ok_def)
  show ?thesis
  proof (cases "ret ?a < 0")
    case True
    then show ?thesis using r d tcp event_inv_sys [OF inv] by (auto simp: NewReq_def case_prod_beta Let_def)
  next
    case False
    define w2 where "w2 = fst (CFdMgr_Add raw (ret ?a) (snd (sys os (Sys_accept ss) w)))"
    obtain k where k: "CFdMgr_Add raw (ret ?a) (snd (sys os (Sys_accept ss) w)) = (w2, Some k)"
      using r d tcp False
      by (cases "CFdMgr_Add raw (ret ?a) (snd (sys os (Sys_accept ss) w))")
        (auto simp: NewReq_def case_prod_beta Let_def w2_def split: option.splits)
    define w3 where "w3 = fd_write k (\<lambda>e. e\<lparr>remote := ret_addr ?a, port_type := PORT_TCP\<rparr>) w2"
    have i3: "event_inv procs (w3, ks)"
      unfolding w3_def w2_def
      by (rule event_inv_write [OF Add_entries [OF event_inv_sys [OF inv]]]) (simp add: entry_ok_def)
    obtain l where l: "CFdMgr_Get ss w3 = Some l" "fd_read l w3 \<noteq> None"
      using r d tcp False k
      by (auto simp: NewReq_def case_prod_beta Let_def w3_def split: option.splits)
    then obtain ld where ld: "fd_read l w3 = Some ld" by blast
    define w4 where "w4 = fd_write k (\<lambda>e. e\<lparr>check := check ld, fd_state := E_SERVER_CONN\<rparr>) w3"
    have "event_inv procs (w4, ks)"
      unfolding w4_def
      by (rule event_inv_write [OF i3], rule entry_ok_client [OF entries_okD [OF event_invD(3) [OF i3] ld]])
    moreover have "w' = fst (CMonitorEpoll_Add os (ret ?a) FD_READ w4)"
      using r d tcp False k l(1) ld
      by (simp add: NewReq_def case_prod_beta Let_def w3_def w4_def)
    ultimately show ?thesis by (simp add: event_inv_Add)
  qed
qed

lemma event_inv_TcpConnect:
  assumes inv: "event_inv procs (w, ks)" and r: "TcpConnect os n event key w = Inr w'"
  shows "event_inv procs (w', ks)"
proof -
  have "event_inv procs (fd_write key (\<lambda>d. d\<lparr>last_op_ret := t\<rparr>) w, ks)" if "event_inv procs (w, ks)" for t w
    by (rule event_inv_write [OF that]) (simp add: entry_ok_def)
  then show ?thesis
    using r inv event_inv_sys [OF inv] unfolding TcpConnect_def Let_def
    by (auto split: option.splits if_splits elim!: event_inv_SetReady [rotated])
qed

lemma event_inv_event:
  assumes inv: "event_inv procs (w, ks)" and r: "process_event os code raw ev w = Inr w'"
  shows "event_inv procs (w', ks)"
  using r inv
  by (auto simp: process_event_def bind_res_Inr_iff DoReadUdp_def IsListenFd_def intro: event_inv_Del event_inv_TcpConnect
      event_inv_NewReq event_inv_DoReadTcp split: option.splits if_splits)

lemma event_inv_events:
  "event_inv procs (w, ks) \<Longrightarrow> process_events os code raw evs w = Inr w' \<Longrightarrow> event_inv procs (w', ks)"
  by (induction evs arbitrary: w) (auto simp: bind_res_Inr_iff intro: event_inv_event)

subsection \<open>A whole round\<close>

text \<open>What the turn leaves for the pass.\<close>

lemma RunOnce_inv:
  assumes inv: "loop_inv procs (w, ks)" and r: "RunOnce os code raw (run_coroutine procs) (w, ks) = Inr (y, q)"
  shows "runtime_inv procs y" and "control (fst y) = 0"
proof -
  have ev: "event_inv procs (w, ks)" using inv by (simp add: loop_inv_def)
  obtain ms cid where n: "CExpireMgr_NextWaitTime w = (ms, cid)" by (cases "CExpireMgr_NextWaitTime w")
  have "runtime_inv procs y \<and> control (fst y) = 0"
  proof (cases "cid = 0")
    case True
    then show ?thesis
      using r n event_inv_sys [OF ev]
      by (auto simp: RunOnce_def case_prod_beta Let_def bind_res_Inr_iff event_inv_def dest!: event_inv_events [rotated]
          split: if_splits)
  next
    case False
    obtain w1 where w1: "CoroutineMgr_SetReady cid w = Inr w1" "resume (run_coroutine procs) cid (w1, ks) = Inr y"
      using r n False by (auto simp: RunOnce_def bind_res_Inr_iff)
    note e1 = event_inv_SetReady [OF ev w1(1)]
    obtain c where "nodes w cid = Some c"
      using w1(1) event_invD(2) [OF ev]
      by (cases "nodes w cid") (auto simp: CoroutineMgr_SetReady_def SetState_def update_node_def Get_nodes)
    then have st: "node_state w1 cid = Some E_READY"
      using SetReady_result [OF event_invD(2) [OF ev]] w1(1) by fastforce
    then have run: "run_coroutine procs cid (w1\<lparr>m_active := Some cid, control := cid\<rparr>, ks) = Inr y"
      using w1(2) Get_nodes [OF event_invD(2) [OF e1]] Schedule_result(1) [OF event_invD(2) [OF e1], of cid]
      by (auto simp: resume_def)
    have "runtime_inv procs (w1, ks)" using e1 by (simp add: event_inv_def)
    from run_result [OF this False] st run show ?thesis by auto
  qed
  then show "runtime_inv procs y" "control (fst y) = 0" by simp_all
qed

lemma pass_result:
  assumes "runtime_inv procs y" and "control (fst y) = 0"
  shows "\<exists>z. ScheduleAll (run_coroutine procs) y = Some (Inr z) \<and> loop_inv procs (free_stacks z) \<and>
    settled (\<lambda>_. True) (fst y) (fst z) \<and> (co_live (fst y) \<longrightarrow> co_live (fst z))"
proof -
  obtain z where z: "ScheduleAll (run_coroutine procs) y = Some (Inr z)" "runtime_inv procs z" "settled (\<lambda>_. True) (fst y) (fst z)"
    using runtime.pass_settles [OF assms] by blast
  have sl: "asleep (fst z)"
    unfolding asleep_def
  proof (intro allI impI)
    fix k :: u32
    assume "k \<noteq> 0"
    then show "node_state (fst z) k = None \<or> node_state (fst z) k = Some E_WAIT"
      using settledD(2) [OF z(3), of k] by (auto simp: settled_at_def split: option.splits ENodeState.splits)
  qed
  have i: "node_ok (snd (free_stacks z)) k c" if "nodes (fst z) k = Some c" "k \<noteq> 0" for k c
    using z(2) that by (auto simp: runtime_inv_def node_ok_def free_stacks_def restrict_map_def split: ENodeState.splits)
  have "event_inv procs (fst z, snd (free_stacks z))"
    by (rule event_invI)
      (use z(2) i sl settledD(1) [OF z(3)] in \<open>auto simp: runtime_inv_def asleep_def free_stacks_def restrict_map_def domIff\<close>)
  then have "loop_inv procs (free_stacks z)" using sl by (simp add: loop_inv_def free_stacks_def)
  moreover have "co_live (fst z)" if "co_live (fst y)"
    using live.pass_settles [of procs y] assms that z(1) by (auto simp: live_inv_def)
  ultimately show ?thesis using z by blast
qed

lemma main_turn_result:
  assumes inv: "loop_inv procs x" and r: "RunOnce os code raw (run_coroutine procs) x = Inr (y, q)"
  shows "\<exists>z. main_turn os code raw procs x = Some (Inr z) \<and> loop_inv procs z \<and>
    settled (\<lambda>_. True) (fst y) (fst z) \<and> (co_live (fst y) \<longrightarrow> co_live (fst z))"
proof -
  have i: "loop_inv procs (fst x, snd x)" "RunOnce os code raw (run_coroutine procs) (fst x, snd x) = Inr (y, q)"
    using inv r by simp_all
  obtain z where "ScheduleAll (run_coroutine procs) y = Some (Inr z)" "loop_inv procs (free_stacks z)"
      "settled (\<lambda>_. True) (fst y) (fst z)" "co_live (fst y) \<longrightarrow> co_live (fst z)"
    using pass_result [OF RunOnce_inv [OF i]] by blast
  then show ?thesis
    by (intro exI [of _ "free_stacks z"]) (auto simp: main_turn_def r free_stacks_def settled_def)
qed

lemma loop_invD:
  assumes "loop_inv procs x"
  shows "co_ok (fst x)" and "control (fst x) = 0"
    and "k \<noteq> 0 \<Longrightarrow> node_state (fst x) k \<noteq> None \<Longrightarrow> node_state (fst x) k = Some E_WAIT \<and> snd x k \<noteq> None"
    and "nodes (fst x) k = None \<Longrightarrow> timers (fst x) k = None \<and> snd x k = None"
proof -
  have inv: "event_inv procs (fst x, snd x)" and sl: "asleep (fst x)" using assms by (simp_all add: loop_inv_def)
  show "co_ok (fst x)" "control (fst x) = 0" using event_invD [OF inv] by simp_all
  show "node_state (fst x) k = Some E_WAIT \<and> snd x k \<noteq> None" if k: "k \<noteq> 0" "node_state (fst x) k \<noteq> None"
  proof -
    obtain c where c: "nodes (fst x) k = Some c" using k(2) by auto
    have "m_state c = E_WAIT" using sl k(1) c by (auto simp: asleep_def)
    then show ?thesis using event_invD(5) [OF inv c k(1)] c by (auto simp: node_ok_def)
  qed
  show "timers (fst x) k = None \<and> snd x k = None" if "nodes (fst x) k = None"
    using event_invD(7) [OF inv that] co_okD(7) [OF event_invD(2) [OF inv], of k] that
    by (cases "timers (fst x) k") auto
qed

text \<open>Rule induction on reachability.\<close>

lemma reach_loop_inv:
  assumes "main_reach os code raw procs x y" and "loop_inv procs x"
  shows "loop_inv procs y"
  using assms
proof (induction rule: main_reach.induct)
  case (more y z)
  then have y: "loop_inv procs y" by simp
  obtain p where "RunOnce os code raw (run_coroutine procs) y = Inr p"
    using more.hyps(2) by (auto simp: main_turn_def split: sum.splits)
  then show ?case
    using main_turn_result [OF y, of os code raw "fst p" "snd p"] more.hyps(2) by auto
qed

text \<open>
  What becomes of a coroutine's run, exactly: it ends where its code returns, and where the code waits,
  it sleeps on the rest of the code, with the deadline that wait asks for.
\<close>

definition run_outcome :: "u32 \<Rightarrow> (world, int) co \<Rightarrow> world \<Rightarrow> (world \<Rightarrow> (world, int) co) \<Rightarrow> bool" where
  "run_outcome k c w' g = (case c of
     Return r v \<Rightarrow> node_state w' k = Some E_END \<and> timers w' k = None \<and> calls w' = calls v \<and> g = dead_stack
   | Wait ms v f \<Rightarrow> node_state w' k = Some E_WAIT \<and> timers w' k = Some (CExpireMgr_now v + ucast ms) \<and>
       calls w' = calls v \<and> g = f
   | _ \<Rightarrow> False)"

lemma finish_run_outcome:
  assumes w0: "on_stack k w0" and c: "keeps k c w0" and st: "node_state w0 k = Some E_READY" and t: "timers w0 k = None"
    and r: "finish_run k ks c = Inr (w', ks')"
  shows "\<exists>g. ks' = ks(k \<mapsto> g) \<and> run_outcome k c w' g"
proof -
  have at: "co_ok w \<and> control w = k \<and> nodes w = nodes w0 \<and> timers w = timers w0" if "stays w0 w" for w
    using stays_on_stack [OF that w0] that by (simp add: on_stack_def stays_def)
  obtain d where d: "nodes w0 k = Some d" "m_state d = E_READY" using st by auto
  show ?thesis
  proof (cases c)
    case (Return a v)
    note v = at [OF c [unfolded Return keeps.simps]]
    have "nodes v (control v) = Some d" "m_state d \<noteq> E_WAIT" using v d by simp_all
    from Entry_end_result [OF _ this] v obtain u where u: "Entry_end v = Inr u" "nodes u = (nodes v)(control v \<mapsto> d\<lparr>m_state := E_END\<rparr>)"
        "timers u = timers v"
      by blast
    then have "u = w'" "ks' = ks(k \<mapsto> dead_stack)" using r Return by (simp_all add: finish_run_def)
    then show ?thesis using u v t Entry_end_world_frame(3) [OF u(1)] Return by (simp add: run_outcome_def)
  next
    case (Wait ms v f)
    have "stays w0 v" using c Wait by simp
    note v = at [OF this]
    have "nodes v (control v) = Some d" using v d by simp
    from WaitAndSchedule_result [OF _ this] v obtain u where u: "CoroutineMgr_WaitAndSchedule ms v = Inr u"
        "nodes u = (nodes v)(control v \<mapsto> d\<lparr>m_state := E_WAIT\<rparr>)" "timers u = (timers v)(control v \<mapsto> CExpireMgr_now v + ucast ms)"
      by blast
    then have "u = w'" "ks' = ks(k \<mapsto> f)" using r Wait by (simp_all add: finish_run_def)
    then show ?thesis using u v Wait_world_frame(3) [OF u(1)] Wait by (simp add: run_outcome_def)
  qed (use c in simp_all)
qed

lemma due_round:
  assumes "loop_inv procs (w, ks)" and "co_live w" and "timers w 0 = None"
    and "timers w j = Some e" and "e \<le> CExpireMgr_now w"
  shows "\<exists>i e' f w0 w1 g z. timers w i = Some e' \<and> (\<forall>k e''. timers w k = Some e'' \<longrightarrow> e' < e'' \<or> e' = e'' \<and> i \<le> k) \<and>
    ks i = Some f \<and> CoroutineMgr_SetReady i w = Inr w0 \<and>
    RunOnce os code raw (run_coroutine procs) (w, ks) = Inr ((w1, ks(i \<mapsto> g)), IO_OK) \<and>
    run_outcome i (f (w0\<lparr>m_active := Some i, control := i\<rparr>)) w1 g \<and>
    (\<forall>k. k \<noteq> i \<longrightarrow> node_state w1 k = node_state w k \<and> timers w1 k = timers w k) \<and>
    main_turn os code raw procs (w, ks) = Some (Inr z) \<and> loop_inv procs z \<and> co_live (fst z) \<and>
    node_state (fst z) i = (if node_state w1 i = Some E_END then None else Some E_WAIT)"
proof -
  have ev: "event_inv procs (w, ks)" using assms(1) by (simp add: loop_inv_def)
  obtain i e' c w0 where i: "timers w i = Some e'" "i \<noteq> 0" "nodes w i = Some c"
        "\<forall>k e''. timers w k = Some e'' \<longrightarrow> e' < e'' \<or> e' = e'' \<and> i \<le> k"
      and w0: "CoroutineMgr_SetReady i w = Inr w0" "co_ok w0"
      "nodes w0 = (nodes w)(i \<mapsto> c\<lparr>m_state := E_READY\<rparr>)" "timers w0 = (timers w)(i := None)"
      and run: "RunOnce os code raw (run_coroutine procs) (w, ks) =
        bind_res (run_coroutine procs i (w0\<lparr>m_active := Some i, control := i\<rparr>, ks)) (\<lambda>y. Inr (y, IO_OK))"
    using RunOnce_due [OF event_invD(2) [OF ev] assms(3-5), of os code raw "run_coroutine procs" ks]
    by (elim exE conjE) (rule that; assumption)
  let ?u = "w0\<lparr>m_active := Some i, control := i\<rparr>"
  have inv0: "runtime_inv procs (w0, ks)"
    using event_inv_SetReady [OF ev w0(1)] by (simp add: event_inv_def)
  from run_result [OF inv0 i(2)] w0(3)
  obtain w1 g0 where w1: "run_coroutine procs i (?u, ks) = Inr (w1, ks(i \<mapsto> g0))"
      "runtime_inv procs (w1, ks(i \<mapsto> g0))"
      "node_state w1 i = Some E_WAIT \<and> timers w1 i \<noteq> None \<or> node_state w1 i = Some E_END"
      "\<forall>j. j \<noteq> i \<longrightarrow> nodes w1 j = nodes w0 j \<and> timers w1 j = timers w0 j"
    by auto
  have "m_state c = E_WAIT" using assms(1) i(2,3) by (auto simp: loop_inv_def asleep_def)
  then obtain f where f: "ks i = Some f" "stack_ok i f"
    using event_invD(5) [OF ev i(3,2)] by (auto simp: node_ok_def)
  have on: "on_stack i ?u"
    by (rule on_stack_switch) (use inv0 w0(2,3) in \<open>simp_all add: runtime_inv_def\<close>)
  have fin: "finish_run i ks (f ?u) = Inr (w1, ks(i \<mapsto> g0))" using w1(1) f(1) by (simp add: run_coroutine_def)
  have "keeps i (f ?u) ?u" using f(2) on by (simp add: stack_ok_def)
  from finish_run_outcome [OF on this _ _ fin] w0(3,4)
  obtain g where g: "ks(i \<mapsto> g0) = ks(i \<mapsto> g)" "run_outcome i (f ?u) w1 g" by auto
  have R: "RunOnce os code raw (run_coroutine procs) (w, ks) = Inr ((w1, ks(i \<mapsto> g)), IO_OK)"
    using run w1(1) g(1) by simp
  have ok1: "co_ok w1" using w1(2) by (simp add: runtime_inv_def)
  have "co_live w1"
    by (rule co_live_step [OF event_invD(2) [OF ev] ok1 assms(2), of i]) (use w1(3,4) w0(3,4) in auto)
  then obtain z where z: "main_turn os code raw procs (w, ks) = Some (Inr z)" "loop_inv procs z" "co_live (fst z)"
      "settled (\<lambda>_. True) w1 (fst z)"
    using main_turn_result [OF assms(1) R] by auto
  have "node_state (fst z) i = (if node_state w1 i = Some E_END then None else Some E_WAIT)"
    using settledD(2) [OF z(4), of i] i(2) w1(3) by (auto simp: settled_at_def)
  moreover have "node_state w1 k = node_state w k \<and> timers w1 k = timers w k" if "k \<noteq> i" for k
    using w1(4) w0(3,4) that by simp
  ultimately show ?thesis
    using i(1,4) f(1) w0(1) R g(2) z(1-3)
    by (intro exI [of _ i] exI [of _ e'] exI [of _ f] exI [of _ w0] exI [of _ w1] exI [of _ g] exI [of _ z]) simp
qed

subsection \<open>A program to try the loop on\<close>

text \<open>Every callback waits a tenth of a second and is done.\<close>

definition example_procs :: procs where
  "example_procs cb k w = Wait 100 w (\<lambda>w'. Return 0 w')"

definition example_stacks :: stacks where
  "example_stacks = [1 \<mapsto> (\<lambda>w'. Return 0 w')]"

lemma example_procs_ok: "procs_ok example_procs"
  by (simp add: procs_ok_def stack_ok_def example_procs_def)

lemma example_entries_ok:
  assumes "m_fd_to_data w = example_fds" and "m_pkgcallback w = [(1, 10), (3, 10)]"
  shows "entries_ok w"
  using assms by (simp add: entries_ok_def entry_ok_def example_fds_def example_raw_def sm_ok_def)

lemma sleeping_loop_inv:
  assumes "procs_ok procs" and "stack_ok 1 f"
  shows "loop_inv procs (example_sleeping\<lparr>clock := t\<rparr>, [1 \<mapsto> f])"
proof -
  let ?w = "example_sleeping\<lparr>clock := t\<rparr>"
  note f = Wait_world_frame(1,2) [OF example_sleeping_facts(7)]
  have st: "node_state ?w = (node_state example_world)(1 \<mapsto> E_WAIT)"
    using example_sleeping_facts(6) by simp
  have dom: "k = 0 \<or> k = 1" if "nodes ?w k = Some c" for k c
  proof -
    have "nodes example_world k \<noteq> None" if "k \<noteq> 1"
      using fun_cong [OF st, of k] \<open>nodes ?w k = Some c\<close> that by (cases "nodes example_world k") auto
    then have "k \<noteq> 1 \<Longrightarrow> k \<in> dom (nodes example_world)" by (simp add: domIff)
    then show ?thesis unfolding example_world_facts(9) by auto
  qed
  have "nodes ?w k = None \<Longrightarrow> [1 \<mapsto> f] k = None" for k
    using fun_cong [OF st, of k] by (auto split: if_splits)
  moreover have "entries_ok ?w"
    using f example_world_fds by (intro example_entries_ok) simp_all
  moreover have "m_state c = E_WAIT \<and> node_ok [1 \<mapsto> f] k c" if "nodes ?w k = Some c" "k \<noteq> 0" for k c
  proof -
    have k: "k = 1" using dom [OF that(1)] that(2) by simp
    then have "m_state c = E_WAIT" using fun_cong [OF st, of 1] that(1) by simp
    then show ?thesis using k assms(2) by (simp add: node_ok_def)
  qed
  ultimately have "event_inv procs (?w, [1 \<mapsto> f])"
    using example_late(1) [of t] example_sleeping_facts(5)
    by (intro event_invI) (auto simp: assms(1))
  moreover have "asleep ?w"
    unfolding asleep_def
  proof (intro allI impI)
    fix k :: u32
    assume k: "k \<noteq> 0"
    show "node_state ?w k = None \<or> node_state ?w k = Some E_WAIT"
      using dom [of k] k fun_cong [OF st, of 1] by (cases "nodes ?w k") auto
  qed
  ultimately show ?thesis by (simp add: loop_inv_def)
qed

lemma example_loop_inv: "loop_inv example_procs (example_sleeping\<lparr>clock := t\<rparr>, example_stacks)"
  unfolding example_stacks_def
  by (rule sleeping_loop_inv [OF example_procs_ok]) (simp add: stack_ok_def)

lemma example_due:
  "timers (example_sleeping\<lparr>clock := \<lparr>tv_sec = 2, tv_usec = 0\<rparr>\<rparr>) 0 = None"
  "timers (example_sleeping\<lparr>clock := \<lparr>tv_sec = 2, tv_usec = 0\<rparr>\<rparr>) 1 = Some 1100"
  "1100 \<le> CExpireMgr_now (example_sleeping\<lparr>clock := \<lparr>tv_sec = 2, tv_usec = 0\<rparr>\<rparr>)"
  by (simp_all add: example_sleeping_facts(3) now_at)

subsection \<open>Properties\<close>

text \<open>
  C3: A pass of the scheduler always ends, whatever the callbacks do within their contract, and
  without a fault: coroutines that were ready have run and now sleep or are gone, finished ones
  are gone, sleepers still sleep, no coroutine is new, and every sleeper that had a timer, and
  every one that has run, has one.
\<close>

theorem pass_terminates:
  assumes "runtime_inv procs x" and "control (fst x) = 0"
  shows "\<exists>z. ScheduleAll (run_coroutine procs) x = Some (Inr z) \<and> runtime_inv procs z \<and> control (fst z) = 0 \<and>
    (\<forall>k. k \<noteq> 0 \<longrightarrow>
       (node_state (fst x) k = None \<or> node_state (fst x) k = Some E_END \<longrightarrow> node_state (fst z) k = None) \<and>
       (node_state (fst x) k = Some E_WAIT \<longrightarrow> node_state (fst z) k = Some E_WAIT) \<and>
       (node_state (fst x) k = Some E_READY \<longrightarrow> node_state (fst z) k = None \<or> node_state (fst z) k = Some E_WAIT)) \<and>
    (co_live (fst x) \<longrightarrow> co_live (fst z))"
proof -
  obtain z where z: "ScheduleAll (run_coroutine procs) x = Some (Inr z)" "runtime_inv procs z" "settled (\<lambda>_. True) (fst x) (fst z)"
    using runtime.pass_settles [OF assms] by blast
  have "co_live (fst z)" if "co_live (fst x)"
    using live.pass_settles [of procs x] assms that z(1) by (auto simp: live_inv_def)
  moreover have "(node_state (fst x) k = None \<or> node_state (fst x) k = Some E_END \<longrightarrow> node_state (fst z) k = None) \<and>
      (node_state (fst x) k = Some E_WAIT \<longrightarrow> node_state (fst z) k = Some E_WAIT) \<and>
      (node_state (fst x) k = Some E_READY \<longrightarrow> node_state (fst z) k = None \<or> node_state (fst z) k = Some E_WAIT)"
    if "k \<noteq> 0" for k
    using settledD(2) [OF z(3), of k] that by (auto simp: settled_at_def)
  ultimately show ?thesis
    using z(1,2) settledD(1) [OF z(3)] by blast
qed

theorem pass_terminates_witness:
  "\<exists>z. ScheduleAll (run_coroutine example_procs) (example_sleeping, example_stacks) = Some (Inr z) \<and>
    node_state (fst z) 1 = Some E_WAIT"
proof -
  have "loop_inv example_procs (example_sleeping, example_stacks)"
    using example_loop_inv [of "clock example_sleeping"] by simp
  then have i: "runtime_inv example_procs (example_sleeping, example_stacks)"
    "control (fst (example_sleeping, example_stacks)) = 0"
    by (simp_all add: loop_inv_def event_inv_def)
  have "node_state example_sleeping 1 = Some E_WAIT"
    by (rule trans [OF fun_cong [OF example_sleeping_facts(6)]]) simp
  then show ?thesis
    using pass_terminates [OF i] by (elim exE conjE) (rule exI, rule conjI, assumption, drule spec [of _ 1], simp)
qed

text \<open>
  C7: The loop keeps its invariant: a turn of the event loop, whatever the system reports and the
  peers send, either faults or leaves a state from which the pass completes, and after the round
  every coroutine sleeps, with its stack, and the tables agree again.
\<close>

theorem main_turn_keeps:
  assumes "loop_inv procs x"
  shows "case RunOnce os code raw (run_coroutine procs) x of
      Inl e \<Rightarrow> main_turn os code raw procs x = Some (Inl e)
    | Inr y \<Rightarrow> (\<exists>z. main_turn os code raw procs x = Some (Inr z) \<and> loop_inv procs z)"
proof (cases "RunOnce os code raw (run_coroutine procs) x")
  case (Inl e)
  then show ?thesis by (simp add: main_turn_def)
next
  case (Inr y)
  then show ?thesis
    using main_turn_result [OF assms, of os code raw "fst y" "snd y"] by auto
qed

theorem main_turn_keeps_witness:
  "case RunOnce example_os example_code example_raw (run_coroutine example_procs) (example_sleeping, example_stacks) of
      Inl e \<Rightarrow> main_turn example_os example_code example_raw example_procs (example_sleeping, example_stacks) = Some (Inl e)
    | Inr y \<Rightarrow> (\<exists>z. main_turn example_os example_code example_raw example_procs (example_sleeping, example_stacks) =
        Some (Inr z) \<and> loop_inv example_procs z)"
  by (rule main_turn_keeps) (use example_loop_inv [of "clock example_sleeping"] in simp)

text \<open>
  C6: Every state the main loop reaches from one in order is in order: only the main coroutine
  and sleepers exist, the main stack runs, every sleeper has a stack that can be resumed, and
  no coroutine that has none is left a timer.
\<close>

theorem reachable_in_order:
  assumes "main_reach os code raw procs x y" and "loop_inv procs x"
  shows "loop_inv procs y \<and> co_ok (fst y) \<and> control (fst y) = 0 \<and>
    (\<forall>k. k \<noteq> 0 \<longrightarrow> node_state (fst y) k \<noteq> None \<longrightarrow> node_state (fst y) k = Some E_WAIT \<and> snd y k \<noteq> None) \<and>
    (\<forall>k. nodes (fst y) k = None \<longrightarrow> timers (fst y) k = None \<and> snd y k = None)"
  using assms
proof -
  have "loop_inv procs y" by (rule reach_loop_inv [OF assms])
  then show ?thesis using loop_invD [of procs y] by blast
qed

theorem reachable_in_order_witness:
  "\<exists>y. main_reach example_os example_code example_raw example_procs
      (example_sleeping\<lparr>clock := \<lparr>tv_sec = 2, tv_usec = 0\<rparr>\<rparr>, example_stacks) y \<and>
    loop_inv example_procs y \<and> control (fst y) = 0"
proof -
  let ?x = "(example_sleeping\<lparr>clock := \<lparr>tv_sec = 2, tv_usec = 0\<rparr>\<rparr>, example_stacks)"
  have inv: "loop_inv example_procs ?x" by (rule example_loop_inv)
  obtain z where "main_turn example_os example_code example_raw example_procs ?x = Some (Inr z)"
    using due_round [OF inv example_late(2) example_due, of example_os example_code example_raw] by blast
  then have "main_reach example_os example_code example_raw example_procs ?x z"
    by (intro main_reach.more [OF main_reach.start] main_step.round)
  from reachable_in_order [OF this inv] this show ?thesis by blast
qed

text \<open>
  C5: A sleeper whose time has come is served: as long as any timer is due, a round makes the
  coroutine with the earliest deadline ready, its timer taken out, and switches to it; its code goes
  on where it had waited, in just that state, and runs to its end or to its next wait, where it gets
  a new timer for as long as that wait asks; the calls made are those of its code, and the
  coroutine sleeps on the rest of it, or has ended. Nobody else is touched by that; the round completes,
  a coroutine that ended is gone after it, and no sleeper is without a timer.
\<close>

theorem due_coroutine_served:
  assumes "loop_inv procs (w, ks)" and "co_live w" and "timers w 0 = None"
    and "timers w j = Some e" and "e \<le> CExpireMgr_now w"
  shows "\<exists>i e' f w0 w1 g z. timers w i = Some e' \<and> (\<forall>k e''. timers w k = Some e'' \<longrightarrow> e' < e'' \<or> e' = e'' \<and> i \<le> k) \<and>
    ks i = Some f \<and> CoroutineMgr_SetReady i w = Inr w0 \<and>
    node_state w0 = (node_state w)(i \<mapsto> E_READY) \<and> timers w0 = (timers w)(i := None) \<and>
    RunOnce os code raw (run_coroutine procs) (w, ks) = Inr ((w1, ks(i \<mapsto> g)), IO_OK) \<and>
    (case f (w0\<lparr>m_active := Some i, control := i\<rparr>) of
        Return r v \<Rightarrow> node_state w1 i = Some E_END \<and> timers w1 i = None \<and> calls w1 = calls v \<and> node_state (fst z) i = None
      | Wait ms v f' \<Rightarrow> node_state w1 i = Some E_WAIT \<and> timers w1 i = Some (CExpireMgr_now v + ucast ms) \<and>
          calls w1 = calls v \<and> g = f' \<and> node_state (fst z) i = Some E_WAIT
      | _ \<Rightarrow> False) \<and>
    (\<forall>k. k \<noteq> i \<longrightarrow> node_state w1 k = node_state w k \<and> timers w1 k = timers w k) \<and>
    main_turn os code raw procs (w, ks) = Some (Inr z) \<and> loop_inv procs z \<and> co_live (fst z)"
proof -
  obtain i e' f w0 w1 g z where i: "timers w i = Some e'" "\<forall>k e''. timers w k = Some e'' \<longrightarrow> e' < e'' \<or> e' = e'' \<and> i \<le> k"
      "ks i = Some f" "CoroutineMgr_SetReady i w = Inr w0"
      "RunOnce os code raw (run_coroutine procs) (w, ks) = Inr ((w1, ks(i \<mapsto> g)), IO_OK)"
      and out: "run_outcome i (f (w0\<lparr>m_active := Some i, control := i\<rparr>)) w1 g"
      and z: "\<forall>k. k \<noteq> i \<longrightarrow> node_state w1 k = node_state w k \<and> timers w1 k = timers w k"
      "main_turn os code raw procs (w, ks) = Some (Inr z)" "loop_inv procs z" "co_live (fst z)"
      "node_state (fst z) i = (if node_state w1 i = Some E_END then None else Some E_WAIT)"
    using due_round [OF assms, of os code raw] by (elim exE conjE) (rule that; assumption)
  have ok: "co_ok w" using assms(1) by (simp add: loop_inv_def event_inv_def runtime_inv_def)
  obtain c where "nodes w i = Some c" using co_okD(7) [OF ok i(1)] by auto
  then have w0: "node_state w0 = (node_state w)(i \<mapsto> E_READY)" "timers w0 = (timers w)(i := None)"
    using SetReady_result [OF ok, of i c] i(4) by (auto simp: fun_eq_iff)
  have "case f (w0\<lparr>m_active := Some i, control := i\<rparr>) of
        Return r v \<Rightarrow> node_state w1 i = Some E_END \<and> timers w1 i = None \<and> calls w1 = calls v \<and> node_state (fst z) i = None
      | Wait ms v f' \<Rightarrow> node_state w1 i = Some E_WAIT \<and> timers w1 i = Some (CExpireMgr_now v + ucast ms) \<and>
          calls w1 = calls v \<and> g = f' \<and> node_state (fst z) i = Some E_WAIT
      | _ \<Rightarrow> False"
    using out z(5) by (cases "f (w0\<lparr>m_active := Some i, control := i\<rparr>)") (auto simp: run_outcome_def)
  then show ?thesis
    using i w0 z(1-4)
    by (intro exI [of _ i] exI [of _ e'] exI [of _ f] exI [of _ w0] exI [of _ w1] exI [of _ g] exI [of _ z]) blast
qed

text \<open>The coroutine that was asleep returns; the round leaves nothing of it.\<close>

theorem due_coroutine_served_witness:
  "\<exists>w1 g z. RunOnce example_os example_code example_raw (run_coroutine example_procs)
      (example_sleeping\<lparr>clock := \<lparr>tv_sec = 2, tv_usec = 0\<rparr>\<rparr>, example_stacks) = Inr ((w1, example_stacks(1 \<mapsto> g)), IO_OK) \<and>
    node_state w1 1 = Some E_END \<and> timers w1 1 = None \<and>
    main_turn example_os example_code example_raw example_procs
      (example_sleeping\<lparr>clock := \<lparr>tv_sec = 2, tv_usec = 0\<rparr>\<rparr>, example_stacks) = Some (Inr z) \<and>
    node_state (fst z) 1 = None \<and> co_live (fst z)"
proof -
  let ?w = "example_sleeping\<lparr>clock := \<lparr>tv_sec = 2, tv_usec = 0\<rparr>\<rparr>"
  obtain i e' f w0 w1 g z where i: "timers ?w i = Some e'" "example_stacks i = Some f"
      "RunOnce example_os example_code example_raw (run_coroutine example_procs) (?w, example_stacks) =
        Inr ((w1, example_stacks(i \<mapsto> g)), IO_OK)"
      "case f (w0\<lparr>m_active := Some i, control := i\<rparr>) of
        Return r v \<Rightarrow> node_state w1 i = Some E_END \<and> timers w1 i = None \<and> calls w1 = calls v \<and> node_state (fst z) i = None
      | Wait ms v f' \<Rightarrow> node_state w1 i = Some E_WAIT \<and> timers w1 i = Some (CExpireMgr_now v + ucast ms) \<and>
          calls w1 = calls v \<and> g = f' \<and> node_state (fst z) i = Some E_WAIT
      | _ \<Rightarrow> False"
      "main_turn example_os example_code example_raw example_procs (?w, example_stacks) = Some (Inr z)" "co_live (fst z)"
    using due_coroutine_served [OF example_loop_inv example_late(2) example_due, of example_os example_code example_raw]
    by (elim exE conjE) (rule that; assumption)
  have "i = 1" "f = (\<lambda>w'. Return 0 w')" using i(1,2) by (auto simp: example_stacks_def split: if_splits)
  then show ?thesis using i(3-6) by auto
qed

subsection \<open>Datagrams\<close>

text \<open>
  C36: A datagram on a UDP socket makes a coroutine with no callback: it is ready, so the next pass
  switches to it, and \<^verbatim>\<open>Entry\<close> calls through the null pointer.
\<close>

theorem datagram_null_callback:
  assumes "co_ok w" and "nodes w (staticid w + 1) = None" and "ks (staticid w + 1) = None"
    and "fd_read key w = Some d" and "port_type d = PORT_UDP" and "CFdMgr_Get ss w = Some l"
  shows "\<exists>w'. NewReq os raw ss key w = Inr (w', IO_OK) \<and> co_ok w' \<and> control w' = control w \<and>
    node_state w' (staticid w + 1) = Some E_READY \<and>
    bind_res (CoroutineMgr_Switch (staticid w + 1) w') (\<lambda>v. run_coroutine procs (staticid w + 1) (v, ks)) = Inl Null_Call"
proof -
  let ?k = "staticid w + 1"
  obtain w1 c where w1: "CoroutineMgr_Create w = (w1, ?k)" "co_ok w1" "nodes w1 = (nodes w)(?k \<mapsto> c)" "m_state c = E_READY"
      "CoroutineContext_GetID c = ?k" "m_cb (m_req c) = 0" "control w1 = control w"
    using Create_result [OF assms(1,2)] by blast
  let ?f = "\<lambda>c :: CoroutineContext. c\<lparr>m_req := (m_req c)\<lparr>server_socket := ss\<rparr>\<rparr>"
  have c1: "nodes w1 ?k = Some c" by (simp add: w1(3))
  obtain x where x: "update_node ?k ?f w1 = Inr (w1\<lparr>m_idtonode := x\<rparr>)" "co_ok (w1\<lparr>m_idtonode := x\<rparr>)"
      "map_of x = (nodes w1)(?k \<mapsto> ?f c)"
    using update_node_result [OF w1(2) c1, of ?f] by (auto simp: CoroutineContext_GetID_def)
  have c2: "nodes (w1\<lparr>m_idtonode := x\<rparr>) ?k = Some (?f c)" by (simp add: x(3))
  obtain w3 where w3: "CoroutineMgr_SetReady ?k (w1\<lparr>m_idtonode := x\<rparr>) = Inr w3" "co_ok w3"
      "nodes w3 = (nodes (w1\<lparr>m_idtonode := x\<rparr>))(?k \<mapsto> (?f c)\<lparr>m_state := E_READY\<rparr>)" "control w3 = control w1"
    using SetReady_result [OF x(2) c2] by auto
  have "m_fd_to_data w3 = m_fd_to_data w"
    using SetReady_world_frame(1) [OF w3(1)] Create_world_frame(1) [of w] w1(1) by simp
  then have get: "CFdMgr_Get ss w3 = Some l" using assms(6) by (simp add: CFdMgr_Get_def CFdMgr_Exist_def)
  define w' where "w' = fd_write l (\<lambda>e. e\<lparr>port_type := PORT_UDP\<rparr>) w3"
  have w': "co_ok w'" "nodes w' ?k = Some ((?f c)\<lparr>m_state := E_READY\<rparr>)" "control w' = control w"
    using w3(2,3,4) w1(7) by (simp_all add: w'_def)
  have "NewReq os raw ss key w = Inr (w', IO_OK)"
    using assms(4,5) w1(1) x(1) w3(1) get by (simp add: NewReq_def w'_def)
  moreover have "bind_res (CoroutineMgr_Switch ?k w') (\<lambda>v. run_coroutine procs ?k (v, ks)) = Inl Null_Call"
  proof -
    let ?v = "w'\<lparr>m_active := Some ?k, control := ?k\<rparr>"
    have v: "co_ok ?v" using Schedule_result(2) [OF w'(1), of ?k] w'(2) by simp
    have "Entry_begin ?k ?v = Inl Null_Call"
      using w'(2) w1(6) by (simp add: Entry_begin_def Get_nodes [OF v] Let_def)
    then have "enter procs ?k ?v = Fail Null_Call"
      using w'(2) by (simp add: enter_def Get_nodes [OF v])
    then show ?thesis
      using assms(3) by (simp add: Switch_result [OF w'(1)] run_coroutine_def finish_run_def)
  qed
  ultimately show ?thesis using w' by (intro exI [of _ w']) simp
qed

theorem datagram_null_callback_witness:
  "\<exists>w'. NewReq example_os example_raw 4 (fd_key 4)
      (fd_write (fd_key 4) (\<lambda>e. e\<lparr>port_type := PORT_UDP\<rparr>) example_world) = Inr (w', IO_OK) \<and>
    bind_res (CoroutineMgr_Switch 2 w') (\<lambda>v. run_coroutine example_procs 2 (v, Map.empty)) = Inl Null_Call"
proof -
  let ?w = "fd_write (fd_key 4) (\<lambda>e. e\<lparr>port_type := PORT_UDP\<rparr>) example_world"
  have ok: "fd_ok ?w" by (rule fd_write_ok [OF example_world_fds(1)]) simp
  have "fd_keys ?w = fd_keys example_world" by (rule fd_write_keys_eq)
  then have "fd_key 4 \<in> fd_keys ?w \<and> socket_fd (fd_key 4) = 4 \<and> fd_visible (fd_keys ?w) (fd_key 4)"
    using example_world_fds(2) by (simp add: fd_visible_def example_fds_def fd_key_def)
  then have "CFdMgr_Get 4 ?w = Some (fd_key 4)"
    using Get_iff [OF ok, of 4 "fd_key 4"] by simp
  then show ?thesis
    using datagram_null_callback [of ?w Map.empty "fd_key 4" _ 4 "fd_key 4" example_os example_raw example_procs]
      example_world_facts(1,4,7) example_read(1) by (simp add: fd_read_after_write) blast
qed

end
