(* ===== verification/Socket.thy ===== *)
theory Socket
  imports Client
begin

section \<open>Descriptor handles and sockets (Fd.h, Fd.cpp)\<close>

text \<open>
  A \<^verbatim>\<open>CFd\<close> object shares the descriptor it holds with its copies through a \<^verbatim>\<open>shared_ptr\<close>; the
  destructor of \<^verbatim>\<open>stFd\<close> closes it. The heap has the objects by name, each pointing to a block, the
  blocks with the descriptor in them, and the use counts that \<^verbatim>\<open>shared_ptr\<close> keeps. Operations take
  and return the heap and the state, which records the \<^verbatim>\<open>close\<close> calls. A moved-from or null
  pointer does not occur: every constructor fills \<^verbatim>\<open>m_fd\<close>.

  \<open>heap_ok\<close> is the invariant: the count of a block is the number of objects that point to it, and
  a block lives as long as its count is not zero. \<open>handle_run\<close> is any sequence of operations; the
  result for it is that no descriptor is closed twice, too early or never.
\<close>

type_synonym var = nat

record fd_heap =
  m_ptr :: "var \<rightharpoonup> nat"
  stfd :: "nat \<rightharpoonup> int"
  use_count :: "nat \<Rightarrow> nat"
  fresh :: nat

definition heap_empty :: fd_heap where
  "heap_empty = \<lparr>m_ptr = Map.empty, stfd = Map.empty, use_count = (\<lambda>_. 0), fresh = 0\<rparr>"

type_synonym 'z hw = "fd_heap \<times> 'z world_scheme"

subsection \<open>Handles\<close>

text \<open>\<^verbatim>\<open>~stFd\<close>; the result of \<^verbatim>\<open>close\<close> is only logged.\<close>

definition stFd_destroy :: "os \<Rightarrow> int \<Rightarrow> 'z world_scheme \<Rightarrow> 'z world_scheme" where
  "stFd_destroy os n w = (if n < 0 then w else snd (sys os (Sys_close n) w))"

text \<open>\<^verbatim>\<open>shared_ptr\<close>: a reference given up, the last one destroying the block.\<close>

definition ref_drop :: "os \<Rightarrow> nat option \<Rightarrow> 'z hw \<Rightarrow> 'z hw" where
  "ref_drop os p x = (case p of
     None \<Rightarrow> x
   | Some b \<Rightarrow> let (h, w) = x in
       if use_count h b = 1
       then (h\<lparr>use_count := (use_count h)(b := 0), stfd := (stfd h)(b := None)\<rparr>,
             case stfd h b of None \<Rightarrow> w | Some n \<Rightarrow> stFd_destroy os n w)
       else (h\<lparr>use_count := (use_count h)(b := use_count h b - 1)\<rparr>, w))"

definition ref_new :: "var \<Rightarrow> int \<Rightarrow> fd_heap \<Rightarrow> fd_heap" where
  "ref_new v n h = h\<lparr>m_ptr := (m_ptr h)(v \<mapsto> fresh h), stfd := (stfd h)(fresh h \<mapsto> n),
     use_count := (use_count h)(fresh h := 1), fresh := fresh h + 1\<rparr>"

definition ref_copy :: "var \<Rightarrow> nat option \<Rightarrow> fd_heap \<Rightarrow> fd_heap" where
  "ref_copy v p h = (case p of
     None \<Rightarrow> h\<lparr>m_ptr := (m_ptr h)(v := None)\<rparr>
   | Some b \<Rightarrow> h\<lparr>m_ptr := (m_ptr h)(v \<mapsto> b), use_count := (use_count h)(b := use_count h b + 1)\<rparr>)"

text \<open>The constructors of \<^verbatim>\<open>CFd\<close>: \<^verbatim>\<open>CFd()\<close> and \<^verbatim>\<open>CFd(int)\<close>, and the copy.\<close>

definition CFd_default :: "var \<Rightarrow> fd_heap \<Rightarrow> fd_heap" where
  "CFd_default v = ref_new v (-1)"

definition CFd_of :: "var \<Rightarrow> int \<Rightarrow> fd_heap \<Rightarrow> fd_heap" where
  "CFd_of v n = ref_new v n"

definition CFd_copy :: "var \<Rightarrow> var \<Rightarrow> fd_heap \<Rightarrow> fd_heap" where
  "CFd_copy v u h = ref_copy v (m_ptr h u) h"

definition CFd_assign :: "os \<Rightarrow> var \<Rightarrow> var \<Rightarrow> 'z hw \<Rightarrow> 'z hw" where
  "CFd_assign os v u x =
     (if u = v then x
      else ref_drop os (m_ptr (fst x) v) (ref_copy v (m_ptr (fst x) u) (fst x), snd x))"

definition CFd_destroy :: "os \<Rightarrow> var \<Rightarrow> 'z hw \<Rightarrow> 'z hw" where
  "CFd_destroy os v x =
     ref_drop os (m_ptr (fst x) v) ((fst x)\<lparr>m_ptr := (m_ptr (fst x))(v := None)\<rparr>, snd x)"

definition CFd_SetNewfd :: "os \<Rightarrow> var \<Rightarrow> int \<Rightarrow> 'z hw \<Rightarrow> 'z hw" where
  "CFd_SetNewfd os v n x = ref_drop os (m_ptr (fst x) v) (ref_new v n (fst x), snd x)"

definition CFd_Get :: "var \<Rightarrow> fd_heap \<Rightarrow> int option" where
  "CFd_Get v h = (case m_ptr h v of None \<Rightarrow> None | Some b \<Rightarrow> stfd h b)"

definition CFd_empty :: "var \<Rightarrow> fd_heap \<Rightarrow> bool option" where
  "CFd_empty v h = map_option (\<lambda>n. n < 0) (CFd_Get v h)"

definition CFd_less :: "var \<Rightarrow> var \<Rightarrow> fd_heap \<Rightarrow> bool option" where
  "CFd_less v u h = (case (CFd_Get v h, CFd_Get u h) of (Some m, Some n) \<Rightarrow> Some (m < n) | _ \<Rightarrow> None)"

definition CFd_neq :: "var \<Rightarrow> var \<Rightarrow> fd_heap \<Rightarrow> bool" where
  "CFd_neq v u h \<longleftrightarrow> m_ptr h v \<noteq> m_ptr h u"

subsection \<open>Sockets\<close>

text \<open>A socket object is the name of its \<^verbatim>\<open>CFd\<close> part and its own members.\<close>

record CServerSocket =
  ss_fd :: var
  ss_port :: u16
  ss_type :: EPORTTYPE
  ss_check :: fnptr

text \<open>The default constructor leaves \<^verbatim>\<open>m_cb_check\<close> as it was in memory, \<open>raw\<close>.\<close>

definition CServerSocket_default :: "fnptr \<Rightarrow> var \<Rightarrow> fd_heap \<Rightarrow> fd_heap \<times> CServerSocket" where
  "CServerSocket_default raw v h = (CFd_default v h, \<lparr>ss_fd = v, ss_port = 0, ss_type = PORT_TCP, ss_check = raw\<rparr>)"

definition CServerSocket_new :: "var \<Rightarrow> u16 \<Rightarrow> EPORTTYPE \<Rightarrow> fnptr \<Rightarrow> fd_heap \<Rightarrow> fd_heap \<times> CServerSocket" where
  "CServerSocket_new v p t cb h = (CFd_default v h, \<lparr>ss_fd = v, ss_port = p, ss_type = t, ss_check = cb\<rparr>)"

definition CServerSocket_copy :: "var \<Rightarrow> CServerSocket \<Rightarrow> fd_heap \<Rightarrow> fd_heap \<times> CServerSocket" where
  "CServerSocket_copy v s h = (CFd_copy v (ss_fd s) h, s\<lparr>ss_fd := v\<rparr>)"

definition CServerSocket_assign :: "os \<Rightarrow> CServerSocket \<Rightarrow> CServerSocket \<Rightarrow> 'z hw \<Rightarrow> 'z hw \<times> CServerSocket" where
  "CServerSocket_assign os s obj x =
     (if ss_fd obj = ss_fd s then (x, s)
      else (CFd_assign os (ss_fd s) (ss_fd obj) x, obj\<lparr>ss_fd := ss_fd s\<rparr>))"

definition CServerSocket_Init :: "os \<Rightarrow> CServerSocket \<Rightarrow> 'z hw \<Rightarrow> 'z hw \<times> EIORESULT" where
  "CServerSocket_Init os s x =
     (let (a, w1) = sys os (Sys_socket (ss_type s)) (snd x) in
      if ret a < 0 then ((fst x, w1), IO_ERR)
      else
        let n = ret a;
            (h2, w2) = CFd_SetNewfd os (ss_fd s) n (fst x, w1);
            (b, w3) = sys os (Sys_setsockopt n) w2 in
        if ret b \<noteq> 0 then ((h2, w3), IO_ERR)
        else
          let (c, w4) = sys os (Sys_bind n (htons (ss_port s))) w3 in
          if ret c = -1 then ((h2, w4), IO_ERR)
          else
            let (d, w5) = sys os (Sys_listen n 20) w4 in
            ((h2, w5), if ret d \<noteq> 0 then IO_ERR else IO_OK))"

definition CServerSocket_GetType :: "CServerSocket \<Rightarrow> EPORTTYPE" where
  "CServerSocket_GetType s = ss_type s"

definition CServerSocket_GetCbCheck :: "CServerSocket \<Rightarrow> fnptr" where
  "CServerSocket_GetCbCheck s = ss_check s"

definition CUdpClientSocket_default :: "var \<Rightarrow> fd_heap \<Rightarrow> fd_heap" where
  "CUdpClientSocket_default v h = CFd_default v h"

definition CUdpClientSocket_copy :: "var \<Rightarrow> var \<Rightarrow> fd_heap \<Rightarrow> fd_heap" where
  "CUdpClientSocket_copy v u h = CFd_copy v u h"

definition CUdpClientSocket_Init :: "os \<Rightarrow> var \<Rightarrow> 'z hw \<Rightarrow> 'z hw \<times> EIORESULT" where
  "CUdpClientSocket_Init os v x =
     (let (a, w1) = sys os (Sys_socket PORT_UDP) (snd x) in
      if ret a < 0 then ((fst x, w1), IO_ERR) else (CFd_SetNewfd os v (ret a) (fst x, w1), IO_OK))"

text \<open>\<^verbatim>\<open>CUdpClientSocket::operator=\<close> returns without assigning anything.\<close>

definition CUdpClientSocket_assign :: "os \<Rightarrow> var \<Rightarrow> var \<Rightarrow> 'z hw \<Rightarrow> 'z hw" where
  "CUdpClientSocket_assign os v obj x = x"

record CTcpClientSocket =
  cs_fd :: var
  m_remote :: sockaddr_in

definition CTcpClientSocket_new :: "(string \<Rightarrow> u32) \<Rightarrow> var \<Rightarrow> string \<Rightarrow> u16 \<Rightarrow> fd_heap \<Rightarrow> fd_heap \<times> CTcpClientSocket" where
  "CTcpClientSocket_new inet_addr v i p h =
     (CFd_default v h, \<lparr>cs_fd = v, m_remote = \<lparr>sin_addr = inet_addr i, sin_port = htons p\<rparr>\<rparr>)"

definition CTcpClientSocket_copy :: "var \<Rightarrow> CTcpClientSocket \<Rightarrow> fd_heap \<Rightarrow> fd_heap \<times> CTcpClientSocket" where
  "CTcpClientSocket_copy v s h = (CFd_copy v (cs_fd s) h, s\<lparr>cs_fd := v\<rparr>)"

definition CTcpClientSocket_assign :: "os \<Rightarrow> CTcpClientSocket \<Rightarrow> CTcpClientSocket \<Rightarrow> 'z hw \<Rightarrow> 'z hw \<times> CTcpClientSocket" where
  "CTcpClientSocket_assign os s obj x =
     (if cs_fd obj = cs_fd s then (x, s)
      else (CFd_assign os (cs_fd s) (cs_fd obj) x, s\<lparr>m_remote := m_remote obj\<rparr>))"

definition CTcpClientSocket_Init :: "os \<Rightarrow> CTcpClientSocket \<Rightarrow> 'z hw \<Rightarrow> 'z hw \<times> EIORESULT" where
  "CTcpClientSocket_Init os s x =
     (let (a, w1) = sys os (Sys_socket PORT_TCP) (snd x) in
      if ret a < 0 then ((fst x, w1), IO_ERR) else (CFd_SetNewfd os (cs_fd s) (ret a) (fst x, w1), IO_OK))"

subsection \<open>The invariant\<close>

abbreviation holders :: "fd_heap \<Rightarrow> nat \<Rightarrow> var set" where
  "holders h b \<equiv> {v. m_ptr h v = Some b}"

text \<open>
  The invariant with one reference more than there are objects: the one an operation has taken
  out of an object and still has to give up.
\<close>

definition heap_but :: "nat option \<Rightarrow> fd_heap \<Rightarrow> bool" where
  "heap_but p h \<longleftrightarrow> finite (dom (m_ptr h)) \<and> finite (dom (stfd h)) \<and>
     (\<forall>b. use_count h b = card (holders h b) + (if p = Some b then 1 else 0)) \<and>
     (\<forall>b. stfd h b = None \<longleftrightarrow> use_count h b = 0) \<and> (\<forall>b. fresh h \<le> b \<longrightarrow> use_count h b = 0)"

abbreviation heap_ok :: "fd_heap \<Rightarrow> bool" where
  "heap_ok h \<equiv> heap_but None h"

lemma finite_holders: "finite (dom (m_ptr h)) \<Longrightarrow> finite (holders h b)"
  by (rule finite_subset [of _ "dom (m_ptr h)"]) auto

lemma heap_ok_empty: "heap_ok heap_empty"
  by (simp add: heap_but_def heap_empty_def)

lemma heap_butD:
  assumes "heap_but p h"
  shows "finite (dom (m_ptr h))" and "finite (dom (stfd h))" and "finite (holders h b)"
    and "use_count h b = card (holders h b) + (if p = Some b then 1 else 0)"
    and "stfd h b = None \<longleftrightarrow> use_count h b = 0" and "fresh h \<le> b \<Longrightarrow> use_count h b = 0"
    and "m_ptr h v = Some b \<Longrightarrow> stfd h b \<noteq> None"
proof -
  show a: "finite (dom (m_ptr h))" "finite (dom (stfd h))" "finite (holders h b)"
    "use_count h b = card (holders h b) + (if p = Some b then 1 else 0)"
    "stfd h b = None \<longleftrightarrow> use_count h b = 0" "fresh h \<le> b \<Longrightarrow> use_count h b = 0"
    using assms finite_holders [of h b] unfolding heap_but_def by blast+
  show "stfd h b \<noteq> None" if "m_ptr h v = Some b"
    using a(3-5) that card_gt_0_iff [of "holders h b"] by auto
qed

text \<open>Pointing an object elsewhere takes a reference out of it.\<close>

lemma card_holders_upd:
  assumes "finite (dom (m_ptr h))"
  shows "card {v'. ((m_ptr h)(v := q)) v' = Some b} + (if m_ptr h v = Some b then 1 else 0) =
    card (holders h b) + (if q = Some b then 1 else 0)"
proof -
  let ?H = "holders h b"
  have fin: "finite ?H" by (rule finite_holders [OF assms])
  have "{v'. ((m_ptr h)(v := q)) v' = Some b} = (if q = Some b then insert v (?H - {v}) else ?H - {v})"
    by auto
  then show ?thesis
    using fin card_Suc_Diff1 [OF fin, of v] insert_absorb [of v ?H]
    by (cases "m_ptr h v = Some b") (auto simp del: fun_upd_apply)
qed

lemma heap_but_new:
  assumes h: "heap_ok h"
  shows "heap_but (m_ptr h v) (ref_new v n h)"
proof -
  have f: "holders h (fresh h) = {}" "use_count h (fresh h) = 0" "m_ptr h v \<noteq> Some (fresh h)"
    using heap_butD(3,4,6) [OF h, of "fresh h"] by auto
  then have "use_count (ref_new v n h) b = card (holders (ref_new v n h) b) + (if m_ptr h v = Some b then 1 else 0)" for b
    using card_holders_upd [OF heap_butD(1) [OF h], of v "Some (fresh h)" b] heap_butD(4) [OF h, of b]
    by (auto simp: ref_new_def)
  moreover have "stfd (ref_new v n h) b = None \<longleftrightarrow> use_count (ref_new v n h) b = 0" for b
    using heap_butD(5) [OF h, of b] by (simp add: ref_new_def)
  moreover have "use_count (ref_new v n h) b = 0" if "fresh (ref_new v n h) \<le> b" for b
    using heap_butD(6) [OF h, of b] that by (simp add: ref_new_def)
  ultimately show ?thesis
    using heap_butD(1,2) [OF h] unfolding heap_but_def by (simp add: ref_new_def)
qed

lemma heap_but_copy:
  assumes h: "heap_ok h" and q: "q \<noteq> None \<Longrightarrow> \<exists>u. u \<noteq> v \<and> m_ptr h u = q"
  shows "heap_but (m_ptr h v) (ref_copy v q h)"
proof (cases q)
  case None
  have "use_count h b = card {v'. ((m_ptr h)(v := None)) v' = Some b} + (if m_ptr h v = Some b then 1 else 0)" for b
    using card_holders_upd [OF heap_butD(1) [OF h], of v None b] heap_butD(4) [OF h, of b] by simp
  then show ?thesis
    using heap_butD [OF h] None unfolding heap_but_def ref_copy_def by simp
next
  case (Some a)
  obtain u where u: "m_ptr h u = Some a" using q Some by blast
  have "use_count (ref_copy v q h) b = card (holders (ref_copy v q h) b) + (if m_ptr h v = Some b then 1 else 0)" for b
    using card_holders_upd [OF heap_butD(1) [OF h], of v "Some a" b] heap_butD(4) [OF h, of b] Some
    by (auto simp: ref_copy_def)
  moreover have st: "stfd h a \<noteq> None" by (rule heap_butD(7) [OF h u])
  moreover from st have "use_count h a \<noteq> 0" using heap_butD(5) [OF h, of a] by simp
  then have "\<not> fresh h \<le> a" using heap_butD(6) [OF h, of a] by (rule contrapos_nn)
  moreover have "stfd (ref_copy v q h) b = None \<longleftrightarrow> use_count (ref_copy v q h) b = 0" for b
    using heap_butD(5) [OF h, of b] st Some by (auto simp: ref_copy_def)
  moreover have "use_count (ref_copy v q h) b = 0" if "fresh (ref_copy v q h) \<le> b" for b
    using heap_butD(6) [OF h, of b] that \<open>\<not> fresh h \<le> a\<close> Some by (auto simp: ref_copy_def)
  ultimately show ?thesis
    using heap_butD(1,2) [OF h] Some unfolding heap_but_def by (simp add: ref_copy_def)
qed

lemma heap_ok_drop:
  assumes h: "heap_but p h"
  shows "heap_ok (fst (ref_drop os p (h, w)))"
proof (cases p)
  case None
  then show ?thesis using h by (simp add: ref_drop_def)
next
  case (Some b)
  have c: "use_count h b = card (holders h b) + 1" using heap_butD(4) [OF h, of b] Some by simp
  have d: "use_count h a = card (holders h a)" if "a \<noteq> b" for a using heap_butD(4) [OF h, of a] Some that by simp
  show ?thesis
    using heap_butD(1,2,5,6) [OF h] Some c d
    by (auto simp: heap_but_def ref_drop_def dom_def intro: finite_subset [of _ "dom (stfd h)"])
qed

subsection \<open>What is closed\<close>

definition live :: "int \<Rightarrow> fd_heap \<Rightarrow> nat" where
  "live n h = card {b. stfd h b = Some n}"

abbreviation closes :: "int \<Rightarrow> 'z world_scheme \<Rightarrow> nat" where
  "closes n w \<equiv> count_list (calls w) (Sys_close n)"

lemma finite_live: "finite (dom (stfd h)) \<Longrightarrow> finite {b. stfd h b = Some n}"
  by (rule finite_subset [of _ "dom (stfd h)"]) auto

lemma drop_balance:
  assumes h: "heap_but p h" and n: "0 \<le> n"
  shows "closes n (snd (ref_drop os p (h, w))) + live n (fst (ref_drop os p (h, w))) = closes n w + live n h"
proof (cases "\<exists>b. p = Some b \<and> use_count h b = 1")
  case False
  then show ?thesis by (auto simp: ref_drop_def live_def split: option.splits)
next
  case True
  then obtain b m where b: "p = Some b" "use_count h b = 1" "stfd h b = Some m"
    using heap_butD(5) [OF h] by (metis not_Some_eq one_neq_zero)
  let ?L = "{a. stfd h a = Some n}"
  have "{a. ((stfd h)(b := None)) a = Some n} = ?L - {b}" by auto
  moreover have "finite ?L" by (rule finite_live [OF heap_butD(2) [OF h]])
  ultimately have "card {a. ((stfd h)(b := None)) a = Some n} + (if m = n then 1 else 0) = card ?L"
    using b(3) card_Suc_Diff1 [of ?L b] by auto
  moreover have "live n (fst (ref_drop os p (h, w))) = card {a. ((stfd h)(b := None)) a = Some n}"
    using b by (simp add: ref_drop_def live_def del: fun_upd_apply)
  moreover have "closes n (snd (ref_drop os p (h, w))) = closes n w + (if m = n then 1 else 0)"
    using b n by (auto simp: ref_drop_def stFd_destroy_def)
  ultimately show ?thesis by (simp add: live_def)
qed

lemma new_balance:
  assumes h: "heap_ok h"
  shows "live n (ref_new v m h) = live n h + (if m = n then 1 else 0)"
proof -
  have "stfd h (fresh h) = None" using heap_butD(5,6) [OF h, of "fresh h"] by simp
  then have "{b. stfd (ref_new v m h) b = Some n} =
      (if m = n then insert (fresh h) {b. stfd h b = Some n} else {b. stfd h b = Some n})"
    by (auto simp: ref_new_def)
  then show ?thesis
    using finite_live [OF heap_butD(2) [OF h], of n] \<open>stfd h (fresh h) = None\<close> by (simp add: live_def)
qed

lemma copy_live [simp]: "live n (ref_copy v q h) = live n h"
  by (simp add: live_def ref_copy_def split: option.split)

text \<open>Another object's descriptor is not affected.\<close>

lemma drop_Get:
  assumes h: "heap_but p h"
  shows "CFd_Get u (fst (ref_drop os p (h, w))) = CFd_Get u h"
proof (cases "\<exists>b. p = Some b \<and> use_count h b = 1")
  case False
  then show ?thesis by (auto simp: ref_drop_def CFd_Get_def split: option.splits)
next
  case True
  then obtain b where b: "p = Some b" "use_count h b = 1" by blast
  then have "holders h b = {}" using heap_butD(3,4) [OF h, of b] by simp
  then have "m_ptr h u \<noteq> Some b" by blast
  then show ?thesis using b by (auto simp: ref_drop_def CFd_Get_def split: option.splits)
qed

subsection \<open>Runs of operations\<close>

text \<open>
  Any sequence of operations on objects, from none; \<open>ns\<close> are the descriptors handed to handles, the
  latest first. Constructors need an unused name, copies an object to copy, and no one else
  closes descriptors.
\<close>

inductive handle_run :: "os \<Rightarrow> 'z world_scheme \<Rightarrow> 'z hw \<Rightarrow> int list \<Rightarrow> bool" for os w0 where
  start: "handle_run os w0 (heap_empty, w0) []"
| default: "handle_run os w0 (h, w) ns \<Longrightarrow> m_ptr h v = None \<Longrightarrow> handle_run os w0 (CFd_default v h, w) (-1 # ns)"
| of_int: "handle_run os w0 (h, w) ns \<Longrightarrow> m_ptr h v = None \<Longrightarrow> handle_run os w0 (CFd_of v n h, w) (n # ns)"
| copy: "handle_run os w0 (h, w) ns \<Longrightarrow> m_ptr h v = None \<Longrightarrow> m_ptr h u \<noteq> None \<Longrightarrow> handle_run os w0 (CFd_copy v u h, w) ns"
| assign: "handle_run os w0 (h, w) ns \<Longrightarrow> m_ptr h u \<noteq> None \<Longrightarrow> handle_run os w0 (CFd_assign os v u (h, w)) ns"
| destroy: "handle_run os w0 (h, w) ns \<Longrightarrow> handle_run os w0 (CFd_destroy os v (h, w)) ns"
| newfd: "handle_run os w0 (h, w) ns \<Longrightarrow> handle_run os w0 (CFd_SetNewfd os v n (h, w)) (n # ns)"
| other: "handle_run os w0 (h, w) ns \<Longrightarrow> \<forall>n. c \<noteq> Sys_close n \<Longrightarrow> handle_run os w0 (h, snd (sys os c w)) ns"

lemma heap_but_unset: "heap_ok h \<Longrightarrow> heap_but (m_ptr h v) (h\<lparr>m_ptr := (m_ptr h)(v := None)\<rparr>)"
  using heap_but_copy [of h None v] by (simp add: ref_copy_def)

lemma live_ptr [simp]: "live n (h\<lparr>m_ptr := q\<rparr>) = live n h"
  by (simp add: live_def)

definition balanced :: "'z world_scheme \<Rightarrow> 'z hw \<Rightarrow> int list \<Rightarrow> bool" where
  "balanced w0 x ns \<longleftrightarrow> heap_ok (fst x) \<and>
     (\<forall>n. 0 \<le> n \<longrightarrow> closes n (snd x) + live n (fst x) = closes n w0 + count_list ns n)"

lemma balanced_drop:
  assumes "heap_but p h" and "\<And>n. 0 \<le> n \<Longrightarrow> closes n w + live n h = closes n w0 + count_list ns n"
  shows "balanced w0 (ref_drop os p (h, w)) ns"
  unfolding balanced_def
  using heap_ok_drop [OF assms(1), of os w] drop_balance [OF assms(1), of _ os w] assms(2) by auto

lemma run_balanced: "handle_run os w0 x ns \<Longrightarrow> balanced w0 x ns"
proof (induction rule: handle_run.induct)
  case start
  have "live n heap_empty = 0" for n by (simp add: live_def heap_empty_def)
  then show ?case by (simp add: balanced_def heap_ok_empty)
next
  case (default h w ns v)
  then show ?case
    using heap_but_new [of h v "-1"] new_balance [of h] by (simp add: balanced_def CFd_default_def)
next
  case (of_int h w ns v n)
  then show ?case
    using heap_but_new [of h v n] new_balance [of h] by (simp add: balanced_def CFd_of_def)
next
  case (copy h w ns v u)
  then show ?case
    using heap_but_copy [of h "m_ptr h u" v] by (cases "u = v") (auto simp: balanced_def CFd_copy_def)
next
  case (assign h w ns u v)
  then have h: "heap_ok h" "closes n w + live n h = closes n w0 + count_list ns n" if "0 \<le> n" for n
    using that by (simp_all add: balanced_def)
  show ?case
  proof (cases "u = v")
    case False
    have "heap_but (m_ptr h v) (ref_copy v (m_ptr h u) h)"
      by (rule heap_but_copy [OF h(1) [of 0]]) (use False in auto)
    then have "balanced w0 (ref_drop os (m_ptr h v) (ref_copy v (m_ptr h u) h, w)) ns"
      by (rule balanced_drop) (simp add: h(2))
    then show ?thesis using False by (simp add: CFd_assign_def)
  qed (use assign in \<open>simp add: CFd_assign_def\<close>)
next
  case (destroy h w ns v)
  then show ?case
    unfolding CFd_destroy_def fst_conv snd_conv
    by (intro balanced_drop [OF heap_but_unset]) (auto simp: balanced_def)
next
  case (newfd h w ns v n)
  then show ?case
    unfolding CFd_SetNewfd_def fst_conv snd_conv
    by (intro balanced_drop [OF heap_but_new]) (auto simp: balanced_def new_balance)
next
  case (other h w ns c)
  then show ?case by (auto simp: balanced_def)
qed

text \<open>The descriptor handed to an object that held none.\<close>

lemma SetNewfd_empty:
  assumes h: "heap_ok h" and v: "CFd_Get v h = Some (-1)"
  shows "\<exists>h'. CFd_SetNewfd os v n (h, w) = (h', w) \<and> heap_ok h' \<and> CFd_Get v h' = Some n \<and>
    (\<forall>u. u \<noteq> v \<longrightarrow> CFd_Get u h' = CFd_Get u h)"
proof -
  obtain b where b: "m_ptr h v = Some b" "stfd h b = Some (-1)"
    using v by (auto simp: CFd_Get_def split: option.splits)
  have ne: "m_ptr h u \<noteq> Some (fresh h)" for u
    using heap_butD(5,6) [OF h, of "fresh h"] heap_butD(7) [OF h, of u "fresh h"] by auto
  then have "fresh h \<noteq> b" using b by blast
  then have "snd (CFd_SetNewfd os v n (h, w)) = w"
    using b by (simp add: CFd_SetNewfd_def ref_drop_def ref_new_def stFd_destroy_def)
  moreover have "heap_ok (fst (CFd_SetNewfd os v n (h, w)))"
    using heap_ok_drop [OF heap_but_new [OF h]] by (simp add: CFd_SetNewfd_def)
  moreover have "CFd_Get u (fst (CFd_SetNewfd os v n (h, w))) = (if u = v then Some n else CFd_Get u h)" for u
    using drop_Get [OF heap_but_new [OF h, of v n], of u os w] ne [of u]
    by (auto simp: CFd_SetNewfd_def CFd_Get_def ref_new_def split: option.splits)
  ultimately show ?thesis
    by (intro exI [of _ "fst (CFd_SetNewfd os v n (h, w))"]) (simp add: prod_eq_iff)
qed

subsection \<open>Properties\<close>

text \<open>
  C21: Handles close descriptors exactly once: along any sequence of constructions, copies,
  assignments, \<^verbatim>\<open>SetNewfd\<close>s and destructions, a descriptor has been closed as often as it was
  handed to a handle and no object holds that handle any more; so one that was handed out once
  is not closed while an object holds it, and is closed once when none does.
\<close>

theorem descriptor_closed_once:
  assumes "handle_run os w0 x ns" and "0 \<le> n" and "count_list ns n = 1" and "closes n w0 = 0"
  shows "closes n (snd x) = (if \<exists>v. CFd_Get v (fst x) = Some n then 0 else 1)"
proof -
  have b: "heap_ok (fst x)" "closes n (snd x) + live n (fst x) = 1"
    using run_balanced [OF assms(1)] assms(2-4) by (simp_all add: balanced_def)
  have fin: "finite {b. stfd (fst x) b = Some n}" by (rule finite_live [OF heap_butD(2) [OF b(1)]])
  have "(\<exists>v. CFd_Get v (fst x) = Some n) \<longleftrightarrow> {b. stfd (fst x) b = Some n} \<noteq> {}"
  proof
    assume "{b. stfd (fst x) b = Some n} \<noteq> {}"
    then obtain b' where b': "stfd (fst x) b' = Some n" by blast
    then have "holders (fst x) b' \<noteq> {}"
      using heap_butD(4,5) [OF b(1), of b'] by (metis add.right_neutral card.empty option.distinct(1))
    then obtain v where "m_ptr (fst x) v = Some b'" by blast
    then show "\<exists>v. CFd_Get v (fst x) = Some n" using b' by (intro exI [of _ v]) (simp add: CFd_Get_def)
  qed (auto simp: CFd_Get_def split: option.splits)
  moreover have "0 < live n (fst x) \<longleftrightarrow> {b. stfd (fst x) b = Some n} \<noteq> {}"
    using fin by (simp only: live_def card_gt_0_iff) simp
  ultimately show ?thesis using b(2) by (cases "\<exists>v. CFd_Get v (fst x) = Some n") auto
qed

theorem descriptor_closed_once_witness:
  "count_list (calls (snd (CFd_destroy example_os 2 (CFd_destroy example_os 1
     (CFd_copy 2 1 (CFd_of 1 7 heap_empty), example_world))))) (Sys_close 7) = 1"
proof -
  let ?h1 = "CFd_of 1 7 heap_empty"
  let ?h2 = "CFd_copy 2 1 ?h1"
  have r1: "handle_run example_os example_world (?h1, example_world) [7]"
    by (rule handle_run.of_int [OF handle_run.start]) (simp add: heap_empty_def)
  have r2: "handle_run example_os example_world (?h2, example_world) [7]"
    by (rule handle_run.copy [OF r1]) (simp_all add: CFd_of_def ref_new_def heap_empty_def)
  have r3: "handle_run example_os example_world (CFd_destroy example_os 1 (?h2, example_world)) [7]"
    by (rule handle_run.destroy [OF r2])
  have r4: "handle_run example_os example_world
      (CFd_destroy example_os 2 (CFd_destroy example_os 1 (?h2, example_world))) [7]"
    using handle_run.destroy [of example_os example_world "fst (CFd_destroy example_os 1 (?h2, example_world))"
        "snd (CFd_destroy example_os 1 (?h2, example_world))" "[7]" 2] r3 by simp
  have "CFd_Get v (fst (CFd_destroy example_os 2 (CFd_destroy example_os 1 (?h2, example_world)))) \<noteq> Some 7" for v
    by (simp add: CFd_Get_def CFd_destroy_def CFd_copy_def CFd_of_def ref_new_def ref_copy_def ref_drop_def
        heap_empty_def)
  moreover have "closes 7 example_world = 0" by (simp add: example_world_facts(10))
  ultimately show ?thesis
    using descriptor_closed_once [OF r4, of 7] by simp
qed

text \<open>
  \<^verbatim>\<open>CServerSocket::Init\<close> makes the four system calls in order until one fails, and succeeds
  when none does; from the first one on the object holds the descriptor, also when a later call
  fails, so that it is closed with the object. Datagram sockets are listened on as well.
\<close>

theorem server_socket_init:
  assumes "heap_ok h" and "CFd_Get (ss_fd s) h = Some (-1)"
    and "c1 = Sys_socket (ss_type s)" and "n = ret (os (calls w) c1)"
    and "c2 = Sys_setsockopt n" and "c3 = Sys_bind n (htons (ss_port s))" and "c4 = Sys_listen n 20"
    and "m = (if n < 0 then 1 else if ret (os (calls w @ [c1]) c2) \<noteq> 0 then 2
      else if ret (os (calls w @ [c1, c2]) c3) = -1 then 3 else 4)"
  shows "\<exists>h' w' r. CServerSocket_Init os s (h, w) = ((h', w'), r) \<and>
    calls w' = calls w @ take m [c1, c2, c3, c4] \<and>
    (r = IO_OK \<longleftrightarrow> m = 4 \<and> ret (os (calls w @ [c1, c2, c3]) c4) = 0) \<and>
    heap_ok h' \<and> CFd_Get (ss_fd s) h' = Some (if n < 0 then -1 else n) \<and>
    (\<forall>u. u \<noteq> ss_fd s \<longrightarrow> CFd_Get u h' = CFd_Get u h)"
proof -
  let ?w1 = "snd (sys os c1 w)"
  obtain h' where h': "CFd_SetNewfd os (ss_fd s) n (h, ?w1) = (h', ?w1)" "heap_ok h'" "CFd_Get (ss_fd s) h' = Some n"
      "\<forall>u. u \<noteq> ss_fd s \<longrightarrow> CFd_Get u h' = CFd_Get u h"
    using SetNewfd_empty [OF assms(1,2)] by blast
  show ?thesis
  proof (cases "n < 0")
    case True
    then show ?thesis
      using assms(1-4,8) by (simp add: CServerSocket_Init_def case_prod_beta Let_def)
  next
    case False
    let ?w2 = "snd (sys os c2 ?w1)"
    let ?w3 = "snd (sys os c3 ?w2)"
    let ?w4 = "snd (sys os c4 ?w3)"
    have "CServerSocket_Init os s (h, w) =
        (if ret (os (calls w @ [c1]) c2) \<noteq> 0 then ((h', ?w2), IO_ERR)
         else if ret (os (calls w @ [c1, c2]) c3) = -1 then ((h', ?w3), IO_ERR)
         else ((h', ?w4), if ret (os (calls w @ [c1, c2, c3]) c4) \<noteq> 0 then IO_ERR else IO_OK))"
      using False h'(1) assms(3-7) by (simp add: CServerSocket_Init_def case_prod_beta Let_def)
    then show ?thesis
      using False h'(2-4) assms(8) by simp
  qed
qed

theorem server_socket_init_witness:
  "\<exists>h' w'. CServerSocket_Init example_os \<lparr>ss_fd = 0, ss_port = 31000, ss_type = PORT_UDP, ss_check = 1\<rparr>
      (CFd_default 0 heap_empty, example_world) = ((h', w'), IO_OK) \<and> CFd_Get 0 h' = Some 0 \<and>
    Sys_listen 0 20 \<in> set (calls w')"
proof -
  have h: "heap_ok (CFd_default 0 heap_empty)" "CFd_Get 0 (CFd_default 0 heap_empty) = Some (-1)"
    using heap_but_new [OF heap_ok_empty, of 0 "-1"]
    by (simp_all add: CFd_default_def CFd_Get_def ref_new_def heap_empty_def)
  show ?thesis
    using server_socket_init [OF h(1), of "\<lparr>ss_fd = 0, ss_port = 31000, ss_type = PORT_UDP, ss_check = 1\<rparr>", OF _ refl refl refl refl refl refl,
        of example_os example_world] h(2)
    by (auto simp: example_os_def)
qed

end
