(* ===== verification/HeadPkg.thy ===== *)
theory HeadPkg
  imports MemData
begin

unbundle bit_operations_syntax

section \<open>The framing of packages (HeadPkg, pb/head.h)\<close>

text \<open>
  A package is the length of a serialised \<^verbatim>\<open>Head\<close> message, four bytes in network order, and the
  message. The message classes are generated from \<^verbatim>\<open>testpb.proto\<close>: their fields are the records
  below, and what the generated parser and serialiser do is the record \<open>pb\<close> of functions, the
  parameter of the operations. What they promise, that parsing a serialised message gives it
  back, is the hypothesis \<open>pb_roundtrip\<close>. The parser is given the memory from its pointer on and the
  size it is called with, which may be more than there is: what it makes of that is left open.

  The machine is little-endian: \<^verbatim>\<open>*(uint32_t*)src\<close> reads four bytes low first and \<^verbatim>\<open>ntohl\<close>
  reverses them.
\<close>

subsection \<open>Messages\<close>

record Head =
  head_seq :: "u32 option"
  head_data :: "u8 list option"

record DataReq =
  req_cmd :: "u32 option"
  req_query :: "u32 option"

record DataRsp =
  rsp_cmd :: "u32 option"
  rsp_data :: "u32 option"
  rsp_msg :: "u8 list option"

definition Head_new :: Head where
  "Head_new = \<lparr>head_seq = None, head_data = None\<rparr>"

text \<open>Accessors give the default value of a field that is not set.\<close>

definition Head_get_seq :: "Head \<Rightarrow> u32" where
  "Head_get_seq h = (case head_seq h of None \<Rightarrow> 0 | Some n \<Rightarrow> n)"

definition Head_get_data :: "Head \<Rightarrow> u8 list" where
  "Head_get_data h = (case head_data h of None \<Rightarrow> [] | Some bs \<Rightarrow> bs)"

text \<open>
  The generated code: \<^verbatim>\<open>ParseFromArray\<close> takes the memory at the pointer and a size and gives the
  message and its result, \<^verbatim>\<open>SerializeToString\<close> gives the bytes.
\<close>

record pb =
  pb_parse_head :: "u8 list \<Rightarrow> int \<Rightarrow> Head \<times> bool"
  pb_print_head :: "Head \<Rightarrow> u8 list"
  pb_parse_req :: "u8 list \<Rightarrow> DataReq \<times> bool"
  pb_print_req :: "DataReq \<Rightarrow> u8 list"
  pb_parse_rsp :: "u8 list \<Rightarrow> DataRsp \<times> bool"
  pb_print_rsp :: "DataRsp \<Rightarrow> u8 list"

definition pb_roundtrip :: "pb \<Rightarrow> bool" where
  "pb_roundtrip p \<longleftrightarrow> (\<forall>h rest. pb_parse_head p (pb_print_head p h @ rest) (int (length (pb_print_head p h))) = (h, True))"

subsection \<open>Byte order\<close>

definition word32 :: "u8 \<Rightarrow> u8 \<Rightarrow> u8 \<Rightarrow> u8 \<Rightarrow> u32" where
  "word32 b0 b1 b2 b3 = ucast b0 OR push_bit 8 (ucast b1 OR push_bit 8 (ucast b2 OR push_bit 8 (ucast b3)))"

definition byte_of :: "nat \<Rightarrow> u32 \<Rightarrow> u8" where
  "byte_of i w = ucast (drop_bit (8 * i) w)"

definition load32 :: "u8 list \<Rightarrow> u32 res" where
  "load32 src = (case src of b0 # b1 # b2 # b3 # _ \<Rightarrow> Inr (word32 b0 b1 b2 b3) | _ \<Rightarrow> Inl Out_Of_Bounds)"

definition bytes32 :: "u32 \<Rightarrow> u8 list" where
  "bytes32 w = [byte_of 0 w, byte_of 1 w, byte_of 2 w, byte_of 3 w]"

definition ntohl :: "u32 \<Rightarrow> u32" where
  "ntohl w = word32 (byte_of 3 w) (byte_of 2 w) (byte_of 1 w) (byte_of 0 w)"

definition htonl :: "u32 \<Rightarrow> u32" where
  "htonl w = ntohl w"

subsection \<open>Packages\<close>

record HeadPkg =
  m_head :: Head
  pkg_data :: "u8 list"

definition HeadPkg_new :: HeadPkg where
  "HeadPkg_new = \<lparr>m_head = Head_new, pkg_data = []\<rparr>"

text \<open>\<open>src\<close> is the memory that can be read from the pointer on.\<close>

definition HeadPkg_Check :: "u8 list \<Rightarrow> u32 \<Rightarrow> int res" where
  "HeadPkg_Check src len =
     (if len = 0 then Inr 0
      else bind_res (load32 src) (\<lambda>w.
        let reallen = ntohl w in
        if len < reallen then Inr 0 else Inr (u32_to_int (reallen + 4))))"

definition HeadPkg_Decode :: "pb \<Rightarrow> u8 list \<Rightarrow> u32 \<Rightarrow> HeadPkg \<Rightarrow> HeadPkg \<times> bool" where
  "HeadPkg_Decode p src len pkg =
     (if len = 0 then (pkg, False)
      else let (h, ok) = pb_parse_head p (drop 4 src) (to_int (ucast len - 4)) in
        (pkg\<lparr>m_head := h\<rparr>, ok))"

definition HeadPkg_Seq :: "pb \<Rightarrow> u8 list \<Rightarrow> u32 \<Rightarrow> int res" where
  "HeadPkg_Seq p src len =
     bind_res (HeadPkg_Check src len) (\<lambda>n.
       if n < 1 then Inr (-1)
       else let (pkg, ok) = HeadPkg_Decode p src len HeadPkg_new in
         if \<not> ok then Inr (-2) else Inr (u32_to_int (Head_get_seq (m_head pkg))))"

definition HeadPkg_SetData :: "u8 list \<Rightarrow> HeadPkg \<Rightarrow> HeadPkg" where
  "HeadPkg_SetData bs pkg = pkg\<lparr>m_head := (m_head pkg)\<lparr>head_data := Some bs\<rparr>\<rparr>"

text \<open>\<^verbatim>\<open>Encode\<close> counts up the static \<^verbatim>\<open>id\<close>, the second component.\<close>

definition HeadPkg_Encode :: "pb \<Rightarrow> HeadPkg \<Rightarrow> u32 \<Rightarrow> HeadPkg \<times> u32" where
  "HeadPkg_Encode p pkg cid =
     (let cid' = cid + 1;
          h = (m_head pkg)\<lparr>head_seq := Some cid'\<rparr>;
          bytes = pb_print_head p h
      in (\<lparr>m_head = h, pkg_data = bytes32 (htonl (of_nat (length bytes))) @ bytes\<rparr>, cid'))"

text \<open>\<^verbatim>\<open>mutable_data\<close> sets the field, to its default, when it was not set.\<close>

definition HeadPkg_Body :: "HeadPkg \<Rightarrow> HeadPkg \<times> u8 list" where
  "HeadPkg_Body pkg =
     (let bs = Head_get_data (m_head pkg)
      in (pkg\<lparr>m_head := (m_head pkg)\<lparr>head_data := Some bs\<rparr>\<rparr>, bs))"

subsection \<open>Lemmas\<close>

lemma byte_join: "ucast (ucast w :: u8) OR push_bit 8 (drop_bit 8 w) = (w :: u32)"
  by (subst or.commute, rule bit_word_eqI) (auto simp: bit_or_iff bit_push_bit_iff bit_drop_bit_eq bit_ucast_iff)

lemma word32_bytes: "word32 (byte_of 0 w) (byte_of 1 w) (byte_of 2 w) (byte_of 3 w) = w"
proof -
  have "drop_bit 32 w = 0" by (rule bit_word_eqI) (simp add: bit_drop_bit_eq)
  then have "ucast (ucast (drop_bit 24 w) :: u8) = drop_bit 24 w"
    using byte_join [of "drop_bit 24 w"] by simp
  then show ?thesis
    using byte_join [of w] byte_join [of "drop_bit 8 w"] byte_join [of "drop_bit 16 w"]
    by (simp add: word32_def byte_of_def)
qed

lemma bit_word32:
  "bit (word32 b0 b1 b2 b3) n \<longleftrightarrow>
    (if n < 8 then bit b0 n else if n < 16 then bit b1 (n - 8) else if n < 24 then bit b2 (n - 16)
     else n < 32 \<and> bit b3 (n - 24))"
proof -
  consider "n < 8" | "8 \<le> n" "n < 16" | "16 \<le> n" "n < 24" | "24 \<le> n" "n < 32" | "32 \<le> n" by linarith
  then show ?thesis
    by cases (auto simp: word32_def bit_or_iff bit_push_bit_iff bit_ucast_iff diff_diff_eq dest: bit_imp_le_length)
qed

lemma bytes_word32:
  "byte_of 0 (word32 b0 b1 b2 b3) = b0" "byte_of 1 (word32 b0 b1 b2 b3) = b1"
  "byte_of 2 (word32 b0 b1 b2 b3) = b2" "byte_of 3 (word32 b0 b1 b2 b3) = b3"
  by (rule bit_word_eqI; simp add: byte_of_def bit_ucast_iff bit_drop_bit_eq bit_word32)+

lemma ntohl_htonl: "ntohl (htonl w) = w"
  by (simp only: htonl_def ntohl_def bytes_word32 word32_bytes)

lemma load_bytes32: "load32 (bytes32 w @ rest) = Inr w"
  by (simp add: load32_def bytes32_def word32_bytes del: One_nat_def)

lemma u32_to_int_small: "n < 2 ^ 31 \<Longrightarrow> u32_to_int (of_nat n) = int n"
  using sint_u32_small [of "of_nat n"] unat_of_nat_u32 [of n] by (simp add: u32_to_int_def)

lemma to_int_size:
  assumes "n + 4 < 2 ^ 31"
  shows "to_int (ucast (of_nat (n + 4) :: u32) - 4) = int n"
proof -
  have u: "unat (of_nat (n + 4) :: u32) = n + 4" using assms by (intro unat_of_nat_u32) simp
  have "ucast (of_nat (n + 4) :: u32) = (of_nat (n + 4) :: u64)"
    using u assms
    by (simp add: word_unat_eq_iff unsigned_ucast_eq unat_of_nat take_bit_nat_eq_self del: of_nat_add)
  then have "ucast (of_nat (n + 4) :: u32) - 4 = (of_nat n :: u64)" by simp
  moreover have "ucast (of_nat n :: u64) = (of_nat n :: u32)"
    using assms by (simp add: word_unat_eq_iff unsigned_ucast_eq unat_of_nat take_bit_nat_eq_self)
  ultimately show ?thesis
    using u32_to_int_small [of n] assms by (simp add: to_int_def u32_to_int_def)
qed

text \<open>What is made of the bytes \<^verbatim>\<open>Encode\<close> produces, with anything after them.\<close>

lemma encoded_check:
  assumes n: "n = length bytes" "n + 4 < 2 ^ 31" and len: "n \<le> unat len" "len \<noteq> 0"
  shows "HeadPkg_Check (bytes32 (htonl (of_nat n)) @ bytes @ rest) len = Inr (int n + 4)"
proof -
  have "unat (of_nat n :: u32) = n" using n(2) by (intro unat_of_nat_u32) simp
  then have "\<not> len < of_nat n" using len(1) by (simp add: word_less_nat_alt)
  moreover have "u32_to_int (of_nat n + 4) = int n + 4"
    using u32_to_int_small [of "n + 4"] n(2) by simp
  ultimately show ?thesis
    using len(2) by (simp add: HeadPkg_Check_def load_bytes32 ntohl_htonl Let_def)
qed

lemma Encode_result:
  assumes "pb_roundtrip p" and "HeadPkg_Encode p pkg cid = (pkg', cid')"
    and "length (pkg_data pkg') < 2 ^ 31" and "len = of_nat (length (pkg_data pkg'))"
  shows "cid' = cid + 1 \<and> m_head pkg' = (m_head pkg)\<lparr>head_seq := Some (cid + 1)\<rparr> \<and>
    HeadPkg_Check (pkg_data pkg' @ rest) len = Inr (int (length (pkg_data pkg'))) \<and>
    HeadPkg_Decode p (pkg_data pkg' @ rest) len q = (q\<lparr>m_head := m_head pkg'\<rparr>, True) \<and>
    HeadPkg_Seq p (pkg_data pkg' @ rest) len = Inr (u32_to_int (cid + 1))"
proof -
  define h where "h = (m_head pkg)\<lparr>head_seq := Some (cid + 1)\<rparr>"
  define bytes where "bytes = pb_print_head p h"
  have pkg': "pkg' = \<lparr>m_head = h, pkg_data = bytes32 (htonl (of_nat (length bytes))) @ bytes\<rparr>" "cid' = cid + 1"
    using assms(2) by (auto simp: HeadPkg_Encode_def Let_def h_def bytes_def)
  have l4: "length (pkg_data pkg') = length bytes + 4" by (simp add: pkg' bytes32_def)
  then have n: "length bytes + 4 < 2 ^ 31" using assms(3) by simp
  have len: "len = of_nat (length bytes + 4)" using assms(4) l4 by simp
  then have ul: "unat len = length bytes + 4"
    using n unat_of_nat_u32 [of "length bytes + 4"] by simp
  then have "len \<noteq> 0" by auto
  have check: "HeadPkg_Check (pkg_data pkg' @ rest) len = Inr (int (length bytes) + 4)"
    using encoded_check [OF refl n, of len rest] ul \<open>len \<noteq> 0\<close> by (simp add: pkg')
  have "drop 4 (pkg_data pkg' @ rest) = bytes @ rest" by (simp add: pkg' bytes32_def)
  moreover have "to_int (ucast len - 4) = int (length bytes)"
    unfolding len by (rule to_int_size [OF n])
  moreover have "pb_parse_head p (bytes @ rest) (int (length bytes)) = (h, True)"
    using assms(1) by (simp add: pb_roundtrip_def bytes_def)
  ultimately have dec: "HeadPkg_Decode p (pkg_data pkg' @ rest) len q = (q\<lparr>m_head := h\<rparr>, True)" for q
    using \<open>len \<noteq> 0\<close> by (simp add: HeadPkg_Decode_def)
  have "HeadPkg_Seq p (pkg_data pkg' @ rest) len = Inr (u32_to_int (cid + 1))"
    by (simp add: HeadPkg_Seq_def check dec Head_get_seq_def h_def)
  then show ?thesis
    using check dec l4 pkg' by (simp add: h_def)
qed

subsection \<open>Properties\<close>

text \<open>
  C23: What \<^verbatim>\<open>Encode\<close> produces is a package: followed by anything, \<^verbatim>\<open>Check\<close> finds its length,
  \<^verbatim>\<open>Decode\<close> on that length gives back the header with the new sequence number, and \<^verbatim>\<open>Seq\<close> that
  number, which is the next of the static counter.
\<close>

theorem encode_roundtrip:
  assumes "pb_roundtrip p" and "HeadPkg_Encode p pkg cid = (pkg', cid')"
    and "length (pkg_data pkg') < 2 ^ 31" and "len = of_nat (length (pkg_data pkg'))"
  shows "cid' = cid + 1 \<and> m_head pkg' = (m_head pkg)\<lparr>head_seq := Some (cid + 1)\<rparr> \<and>
    HeadPkg_Check (pkg_data pkg' @ rest) len = Inr (int (length (pkg_data pkg'))) \<and>
    HeadPkg_Decode p (pkg_data pkg' @ rest) len q = (q\<lparr>m_head := m_head pkg'\<rparr>, True) \<and>
    HeadPkg_Seq p (pkg_data pkg' @ rest) len = Inr (u32_to_int (cid + 1))"
  by (rule Encode_result [OF assms])

text \<open>A stand-in for the generated code, for the witness: four bytes of number, then the data.\<close>

definition example_pb :: pb where
  "example_pb = \<lparr>
     pb_parse_head = (\<lambda>bs n. case map unat (take 2 bs) of
         [a, b] \<Rightarrow> (\<lparr>head_seq = if a = 0 then None else (case load32 (drop 2 bs) of Inr w \<Rightarrow> Some w | Inl _ \<Rightarrow> None),
                     head_data = if b = 0 then None else Some (take (nat n - 6) (drop 6 bs))\<rparr>, True)
       | _ \<Rightarrow> (Head_new, False)),
     pb_print_head = (\<lambda>h. (if head_seq h = None then 0 else 1) # (if head_data h = None then 0 else 1) #
       bytes32 (Head_get_seq h) @ Head_get_data h),
     pb_parse_req = (\<lambda>bs. (\<lparr>req_cmd = None, req_query = None\<rparr>, True)),
     pb_print_req = (\<lambda>r. []),
     pb_parse_rsp = (\<lambda>bs. (\<lparr>rsp_cmd = None, rsp_data = None, rsp_msg = None\<rparr>, True)),
     pb_print_rsp = (\<lambda>r. [])\<rparr>"

lemma example_pb_roundtrip: "pb_roundtrip example_pb"
proof -
  have "pb_parse_head example_pb (pb_print_head example_pb h @ rest) (int (length (pb_print_head example_pb h))) = (h, True)"
    for h :: Head and rest
    by (cases h rule: Head.cases)
      (auto simp: example_pb_def Head_get_seq_def Head_get_data_def load_bytes32 bytes32_def
        load_bytes32 [unfolded bytes32_def, simplified] split: option.splits)
  then show ?thesis by (simp add: pb_roundtrip_def)
qed

theorem encode_roundtrip_witness:
  "HeadPkg_Seq example_pb (pkg_data (fst (HeadPkg_Encode example_pb (HeadPkg_SetData [9] HeadPkg_new) 41))) 11 = Inr 42"
proof -
  obtain pkg' cid' where e: "HeadPkg_Encode example_pb (HeadPkg_SetData [9] HeadPkg_new) 41 = (pkg', cid')"
    by (cases "HeadPkg_Encode example_pb (HeadPkg_SetData [9] HeadPkg_new) 41")
  then have "length (pkg_data pkg') = 11"
    by (auto simp: HeadPkg_Encode_def example_pb_def bytes32_def Let_def HeadPkg_SetData_def Head_get_data_def)
  then show ?thesis
    using encode_roundtrip [OF example_pb_roundtrip e, of 11 "[]"] e by (simp add: u32_to_int_def)
qed

text \<open>
  C40: \<^verbatim>\<open>Check\<close> compares the length in the header with the bytes received but does not count the
  four bytes of the header itself: when up to four bytes of a package are still missing, it
  returns more than has been received.
\<close>

theorem check_overclaims:
  assumes "len \<noteq> 0" and "load32 src = Inr w" and "unat (ntohl w) \<le> unat len"
    and "unat len < unat (ntohl w) + 4" and "unat (ntohl w) + 4 < 2 ^ 31"
  shows "\<exists>n. HeadPkg_Check src len = Inr n \<and> int (unat len) < n \<and> n = int (unat (ntohl w)) + 4"
proof -
  have "u32_to_int (ntohl w + 4) = int (unat (ntohl w)) + 4"
    using u32_to_int_small [OF assms(5)] by simp
  moreover have "int (unat len) < int (unat (ntohl w) + 4)"
    using assms(4) by (simp only: of_nat_less_iff)
  ultimately show ?thesis
    using assms(1-3) \<open>int (unat len) < int (unat (ntohl w) + 4)\<close>
    by (simp add: HeadPkg_Check_def word_less_nat_alt Let_def)
qed

theorem check_overclaims_witness:
  "\<exists>n. HeadPkg_Check [0, 0, 0, 3, 7] 5 = Inr n \<and> 5 < n"
proof -
  have "load32 [0, 0, 0, 3, 7] = Inr (htonl 3)"
    using load_bytes32 [of "htonl 3" "[7]"]
    by (simp add: bytes32_def htonl_def ntohl_def bytes_word32 del: One_nat_def) (simp add: byte_of_def)
  from check_overclaims [of 5, OF _ this] show ?thesis by (auto simp: ntohl_htonl)
qed

end
