(* ===== verification/Server.thy ===== *)
theory Server
  imports Turn Socket HeadPkg
begin

section \<open>The example programs (test1/main1.cpp, test2/main2.cpp)\<close>

text \<open>
  Both programs listen on a port, register one check function with one callback and run the loop
  of \<open>Turn\<close>. \<open>process2\<close>, the callback of \<^verbatim>\<open>test2\<close>, answers a request after ten seconds;
  \<open>process1\<close>, that of \<^verbatim>\<open>test1\<close>, asks the server of \<^verbatim>\<open>test2\<close> and passes on what it says.
  The generated message code is the parameter \<open>p\<close>, of type \<open>pb\<close>; \<open>localtime\<close> and \<open>inet_addr\<close> are
  the library's. The programs have one callback each, so every function pointer that is called
  as one is it.

  The lemmas show that \<open>process2\<close> keeps to the contract \<open>procs_ok\<close>, that \<open>server_setup\<close>, the code of
  \<^verbatim>\<open>main\<close> before its loop, establishes \<open>loop_inv\<close>, so that all of \<open>Turn\<close> applies, and what the
  server answers.
\<close>

subsection \<open>Function pointers\<close>

definition HeadPkg_Check_ptr :: fnptr where "HeadPkg_Check_ptr = 1"
definition HeadPkg_Seq_ptr :: fnptr where "HeadPkg_Seq_ptr = 2"
definition check_ptr :: fnptr where "check_ptr = 3"
definition process_ptr :: fnptr where "process_ptr = 4"

lemmas ptr_defs = HeadPkg_Check_ptr_def HeadPkg_Seq_ptr_def check_ptr_def process_ptr_def

text \<open>\<^verbatim>\<open>check\<close> of \<^verbatim>\<open>main1.cpp\<close>.\<close>

definition main1_check :: "u8 list \<Rightarrow> u32 \<Rightarrow> int" where
  "main1_check src len = u32_to_int len"

text \<open>
  What a call through a pointer returns. The loop calls them on its receive buffer of at least
  1024 bytes and \<^verbatim>\<open>tcpsendrecv\<close> on a package, so that the four header bytes can be read.
  Only what they return is modelled: the size handed to \<^verbatim>\<open>Seq\<close> may exceed what was received, by the four
  bytes \<^verbatim>\<open>Check\<close> adds, and a read past the end by the generated parser is no fault here.
\<close>

definition program_code :: "pb \<Rightarrow> code" where
  "program_code p ptr src len =
     (if ptr = HeadPkg_Check_ptr then (case HeadPkg_Check src len of Inr n \<Rightarrow> n | Inl _ \<Rightarrow> 0)
      else if ptr = HeadPkg_Seq_ptr then (case HeadPkg_Seq p src len of Inr n \<Rightarrow> n | Inl _ \<Rightarrow> 0)
      else main1_check src len)"

subsection \<open>The callbacks\<close>

definition default_u32 :: "u32 option \<Rightarrow> u32" where
  "default_u32 v = (case v of None \<Rightarrow> 0 | Some n \<Rightarrow> n)"

text \<open>
  The request record of the running coroutine; \<open>rd\<close> is a pointer to it, read again after a wait.
\<close>

definition req_of :: "u32 \<Rightarrow> world \<Rightarrow> stReqData option" where
  "req_of k w = map_option m_req (CoroutineMgr_Get k w)"

text \<open>\<^verbatim>\<open>process\<close> of \<^verbatim>\<open>main2.cpp\<close> after the wait.\<close>

definition data_rsp :: "(int \<Rightarrow> tm) \<Rightarrow> DataReq \<Rightarrow> world \<Rightarrow> DataRsp" where
  "data_rsp localtime req w =
     \<lparr>rsp_cmd = Some (default_u32 (req_cmd req)), rsp_data = Some (default_u32 (req_query req)),
      rsp_msg = Some (bytes_of (GetYMDHMS localtime (tv_sec (clock w))) @ [13, 10])\<rparr>"

definition process2_reply :: "os \<Rightarrow> pb \<Rightarrow> (int \<Rightarrow> tm) \<Rightarrow> u32 \<Rightarrow> HeadPkg \<Rightarrow> DataReq \<Rightarrow> world \<Rightarrow> (world, int) co" where
  "process2_reply os p localtime k pkg req w =
     (let bodyrsp = data_rsp localtime req w;
          (pkg', hid) = HeadPkg_Encode p (HeadPkg_SetData (pb_print_rsp p bodyrsp) pkg) (head_id w);
          w1 = w\<lparr>head_id := hid\<rparr>;
          timer = CTimerMS_new (clock w1) 100
      in (case req_of k w1 of
            None \<Rightarrow> Fail Null_Deref
          | Some rd \<Rightarrow> bind_co (tcpsend os (server_socket rd) timer (pkg_data pkg') w1) (\<lambda>r w2. Return 0 w2)))"

definition TIME_10_SECOND :: u32 where "TIME_10_SECOND = 10 * 1000"

definition process2 :: "os \<Rightarrow> pb \<Rightarrow> (int \<Rightarrow> tm) \<Rightarrow> u32 \<Rightarrow> world \<Rightarrow> (world, int) co" where
  "process2 os p localtime k w = (case req_of k w of
     None \<Rightarrow> Return 0 w
   | Some rd \<Rightarrow>
       let (pkg, ok) = HeadPkg_Decode p (m_data (recvdata rd)) (CMemData_Size (recvdata rd)) HeadPkg_new in
       if \<not> ok then Return 0 w
       else
         let (pkg1, body) = HeadPkg_Body pkg;
             (bodyreq, parsed) = pb_parse_req p body
         in
         if \<not> parsed then Return 0 w
         else bind_co (wait_ms TIME_10_SECOND w) (\<lambda>_ w1. process2_reply os p localtime k pkg1 bodyreq w1))"

text \<open>\<^verbatim>\<open>process\<close> of \<^verbatim>\<open>main1.cpp\<close>, up to the answer of the other server and after it.\<close>

definition TIMEOUT :: u32 where "TIMEOUT = 90 * 1000"

definition process1_answer :: "os \<Rightarrow> pb \<Rightarrow> u32 \<Rightarrow> HeadPkg \<Rightarrow> EIORESULT \<Rightarrow> CMemData \<Rightarrow> world \<Rightarrow> (world, int) co" where
  "process1_answer os p k pkg r rspdata w =
     (if r \<noteq> IO_OK then Return 0 w
      else
        let (pkg1, ok) = HeadPkg_Decode p (m_data rspdata) (CMemData_Size rspdata) pkg in
        if \<not> ok then Return 0 w
        else
          let (pkg2, body) = HeadPkg_Body pkg1;
              (rsp, parsed) = pb_parse_rsp p body
          in
          if \<not> parsed then Return 0 w
          else
            let timer = CTimerMS_SetTimeout 100 (CTimerMS_new (clock w) 0);
                msg = (case rsp_msg rsp of None \<Rightarrow> [] | Some bs \<Rightarrow> bs)
            in (case req_of k w of
                  None \<Rightarrow> Fail Null_Deref
                | Some rd \<Rightarrow> bind_co (tcpsend os (server_socket rd) timer msg w) (\<lambda>r w2. Return 0 w2)))"

definition process1 :: "os \<Rightarrow> (string \<Rightarrow> u32) \<Rightarrow> pb \<Rightarrow> stFdData \<Rightarrow> u32 \<Rightarrow> world \<Rightarrow> (world, int) co" where
  "process1 os inet_addr p raw k w = (case req_of k w of
     None \<Rightarrow> Return 0 w
   | Some rd \<Rightarrow>
       let req = \<lparr>req_cmd = Some 100, req_query = Some (word_of_int (tv_sec (clock w)))\<rparr>;
           (pkg, hid) = HeadPkg_Encode p (HeadPkg_SetData (pb_print_req p req) HeadPkg_new) (head_id w);
           w1 = w\<lparr>head_id := hid\<rparr>
       in bind_co (tcpsendrecv os inet_addr (program_code p) raw (Some ''10.244.181.24'') 31000
            (Some (pkg_data pkg)) CMemData_new TIMEOUT HeadPkg_Seq_ptr HeadPkg_Check_ptr w1)
            (\<lambda>(r, rspdata) w2. process1_answer os p k pkg r rspdata w2))"

subsection \<open>main\<close>

text \<open>
  The code of \<^verbatim>\<open>main\<close> before the loop, which the two programs share but for the port and the check
  function. Object 0 is the server socket, object 1 the handle in the descriptor table. Results
  other than the last are not looked at.
\<close>

definition server_setup :: "os \<Rightarrow> stFdData \<Rightarrow> u16 \<Rightarrow> fnptr \<Rightarrow> fnptr \<Rightarrow> fd_heap \<times> world \<Rightarrow>
    ((fd_heap \<times> world) \<times> EIORESULT) res" where
  "server_setup os raw port_no chk process x =
     (let w1 = fst (CMonitorEpoll_Init os (snd x));
          (h1, ss) = CServerSocket_new 0 port_no PORT_TCP chk (fst x);
          ((h2, w2), r) = CServerSocket_Init os ss (h1, w1)
      in (case CFd_Get (ss_fd ss) h2 of
            None \<Rightarrow> Inl Null_Deref
          | Some n \<Rightarrow>
              bind_res (AddServerFd os raw n (ss_type ss) (ss_check ss) w2)
                (\<lambda>w3. let h3 = CFd_copy 1 (ss_fd ss) h2;
                          w4 = fst (RegisterPackage chk process w3);
                          (w5, t) = CoroutineMgr_Init w4
                      in Inr ((h3, w5), t))))"

definition main2_setup :: "os \<Rightarrow> stFdData \<Rightarrow> fd_heap \<times> world \<Rightarrow> ((fd_heap \<times> world) \<times> EIORESULT) res" where
  "main2_setup os raw = server_setup os raw 31000 HeadPkg_Check_ptr process_ptr"

definition main1_setup :: "os \<Rightarrow> stFdData \<Rightarrow> fd_heap \<times> world \<Rightarrow> ((fd_heap \<times> world) \<times> EIORESULT) res" where
  "main1_setup os raw = server_setup os raw 30000 check_ptr process_ptr"

text \<open>The bodies of their loops.\<close>

definition main2_turn :: "os \<Rightarrow> pb \<Rightarrow> (int \<Rightarrow> tm) \<Rightarrow> stFdData \<Rightarrow> world \<times> stacks \<Rightarrow> (world \<times> stacks) res option" where
  "main2_turn os p localtime raw = main_turn os (program_code p) raw (\<lambda>_. process2 os p localtime)"

definition main1_turn :: "os \<Rightarrow> (string \<Rightarrow> u32) \<Rightarrow> pb \<Rightarrow> stFdData \<Rightarrow> world \<times> stacks \<Rightarrow> (world \<times> stacks) res option" where
  "main1_turn os inet_addr p raw = main_turn os (program_code p) raw (\<lambda>_. process1 os inet_addr p raw)"

subsection \<open>The contract\<close>

lemma tcpsend_loop_keeps:
  assumes doc: "send_documented os" and "n \<le> length src"
  shows "\<exists>c. tcpsend_loop os server timer src n w = Some c \<and> keeps k c w"
  using assms(2)
proof (induction "length src - n" arbitrary: n w rule: less_induct)
  case less
  let ?a = "os (calls w) (Sys_send server (drop n src))" and ?w1 = "snd (sys os (Sys_send server (drop n src)) w)"
  have le: "ret ?a \<le> int (length (drop n src))"
    using doc unfolding send_documented_def by blast
  show ?case
  proof (cases "\<not> CTimerMS_IsTimeout (clock w) timer \<and> 0 < ret ?a \<and> n + nat (ret ?a) \<noteq> length src")
    case True
    then have "length src - (n + nat (ret ?a)) < length src - n" "n + nat (ret ?a) \<le> length src"
      using le less.prems by auto
    then obtain c where "tcpsend_loop os server timer src (n + nat (ret ?a)) ?w1 = Some c" "keeps k c ?w1"
      using less.hyps by blast
    then show ?thesis
      using True by (subst tcpsend_loop.simps) (auto simp: Let_def intro: keeps_trans)
  next
    case False
    then show ?thesis
      by (subst tcpsend_loop.simps) (auto simp: Let_def)
  qed
qed

lemma tcpsend_keeps: "send_documented os \<Longrightarrow> keeps k (tcpsend os server timer src w) w"
  using tcpsend_loop_keeps [of os 0 src server timer w k] by (auto simp: tcpsend_def)

lemma req_of_running: "on_stack k w \<Longrightarrow> \<exists>c. nodes w k = Some c \<and> req_of k w = Some (m_req c)"
  using co_okD(4) [of w] by (auto simp: on_stack_def req_of_def Get_nodes)

lemma reply_keeps:
  assumes "send_documented os"
  shows "stack_ok k (process2_reply os p localtime k pkg req)"
  unfolding stack_ok_def
proof (intro allI impI)
  fix w
  assume w: "on_stack k w"
  obtain pkg' hid where e: "HeadPkg_Encode p (HeadPkg_SetData (pb_print_rsp p (data_rsp localtime req w)) pkg) (head_id w) = (pkg', hid)"
    by (cases "HeadPkg_Encode p (HeadPkg_SetData (pb_print_rsp p (data_rsp localtime req w)) pkg) (head_id w)")
  let ?w1 = "w\<lparr>head_id := hid\<rparr>"
  have s: "stays w ?w1" by simp
  have w1: "on_stack k ?w1" by (rule stays_on_stack [OF s w])
  obtain rd where rd: "req_of k ?w1 = Some rd" using req_of_running [OF w1] by blast
  have "keeps k (bind_co (tcpsend os (server_socket rd) (CTimerMS_new (clock ?w1) 100) (pkg_data pkg') ?w1)
      (\<lambda>r w2. Return 0 w2)) ?w1"
    by (rule keeps_bind [OF tcpsend_keeps [OF assms] w1]) simp
  then show "keeps k (process2_reply os p localtime k pkg req w) w"
    using e rd keeps_trans [OF _ s] by (simp add: process2_reply_def Let_def)
qed

lemma process2_keeps: "send_documented os \<Longrightarrow> stack_ok k (process2 os p localtime k)"
  using reply_keeps [of os k]
  by (auto simp: stack_ok_def process2_def wait_ms_def Let_def case_prod_beta split: option.split)

subsection \<open>The state the loop starts in\<close>

text \<open>System calls change the list of calls and the clock only.\<close>

definition only_calls :: "world \<Rightarrow> world \<Rightarrow> bool" where
  "only_calls w w' \<longleftrightarrow> (\<exists>cs t. w' = w\<lparr>calls := cs, clock := t\<rparr>)"

lemma only_calls_refl: "only_calls w w"
  unfolding only_calls_def by (rule exI [of _ "calls w"], rule exI [of _ "clock w"]) simp

lemma only_calls_trans:
  assumes "only_calls u v" and "only_calls v w"
  shows "only_calls u w"
proof -
  obtain cs t cs' t' where "v = u\<lparr>calls := cs, clock := t\<rparr>" "w = v\<lparr>calls := cs', clock := t'\<rparr>"
    using assms unfolding only_calls_def by blast
  then have "w = u\<lparr>calls := cs', clock := t'\<rparr>" by simp
  then show ?thesis unfolding only_calls_def by (intro exI)
qed

lemma only_calls_sys:
  assumes "only_calls u w"
  shows "only_calls u (snd (sys os c w))"
proof -
  have "snd (sys os c w) = w\<lparr>calls := calls w @ [c], clock := ret_time (os (calls w) c)\<rparr>"
    by (simp add: sys_def Let_def)
  then have "only_calls w (snd (sys os c w))" unfolding only_calls_def by (intro exI)
  then show ?thesis by (rule only_calls_trans [OF assms])
qed

lemma server_socket_result:
  assumes "heap_ok h" and "CFd_Get (ss_fd s) h = Some (-1)"
  shows "\<exists>h' w' r n. CServerSocket_Init os s (h, w) = ((h', w'), r) \<and> heap_ok h' \<and>
    CFd_Get (ss_fd s) h' = Some n \<and> only_calls w w'"
proof (cases "ret (os (calls w) (Sys_socket (ss_type s))) < 0")
  case True
  then show ?thesis
    using assms only_calls_sys [OF only_calls_refl]
    by (auto simp: CServerSocket_Init_def case_prod_beta Let_def)
next
  case False
  let ?n = "ret (os (calls w) (Sys_socket (ss_type s)))" and ?w1 = "snd (sys os (Sys_socket (ss_type s)) w)"
  obtain h' where h': "CFd_SetNewfd os (ss_fd s) ?n (h, ?w1) = (h', ?w1)" "heap_ok h'" "CFd_Get (ss_fd s) h' = Some ?n"
    using SetNewfd_empty [OF assms, of os ?n ?w1] by blast
  have c: "only_calls w (snd (sys os d ?w1))" for d by (intro only_calls_sys only_calls_refl)
  then show ?thesis
    using False h' by (auto simp: CServerSocket_Init_def case_prod_beta Let_def intro: only_calls_sys)
qed

lemma Add_first:
  assumes "m_fd_to_data w = []"
  shows "AddServerFd os raw n PORT_TCP chk w =
    Inr ((fst (CMonitorEpoll_Add os n FD_READ w))\<lparr>m_fd_to_data :=
      [(fd_key n, (stFdData_new raw)\<lparr>fd := n, port_type := PORT_TCP, check := chk, fd_state := E_LISTEN\<rparr>)]\<rparr>)"
  using assms
  by (simp add: AddServerFd_def CFdMgr_Add_def CFdMgr_insert_def sm_insert_def sm_entry_def sm_before_def
      sm_lower_bound_def fd_write_def CMonitorEpoll_Add_def case_prod_beta Let_def)

lemma setup_result:
  assumes procs: "procs_ok procs" and ptr: "chk \<noteq> 0" "process \<noteq> 0"
  shows "\<exists>h w n e. server_setup os raw port_no chk process (heap_empty, world_start now) = Inr ((h, w), IO_OK) \<and>
    loop_inv procs (w, Map.empty) \<and> CFd_Get 0 h = Some n \<and> m_fd_to_data w = [(fd_key n, e)] \<and>
    fd_state e = E_LISTEN \<and> FdMgr.check e = chk \<and> port_type e = PORT_TCP \<and> m_pkgcallback w = [(chk, process)]"
proof -
  let ?w0 = "world_start now"
  define w1 where "w1 = fst (CMonitorEpoll_Init os ?w0)"
  let ?h1 = "CFd_default 0 heap_empty"
  let ?ss = "\<lparr>ss_fd = 0, ss_port = port_no, ss_type = PORT_TCP, ss_check = chk\<rparr>"
  have w1: "\<exists>k. only_calls (?w0\<lparr>m_fd := k\<rparr>) w1"
    by (auto simp: w1_def CMonitorEpoll_Init_def CFdEpoll_Init_def case_prod_beta Let_def sys_def only_calls_def world_start_def)
  have h1: "heap_ok ?h1" "CFd_Get (ss_fd ?ss) ?h1 = Some (-1)"
    using heap_but_new [OF heap_ok_empty, of 0 "-1"]
    by (simp_all add: CFd_default_def CFd_Get_def ref_new_def heap_empty_def)
  obtain h2 w2 r n where s: "CServerSocket_Init os ?ss (?h1, w1) = ((h2, w2), r)" "CFd_Get 0 h2 = Some n" "only_calls w1 w2"
    using server_socket_result [OF h1, of os w1] by auto
  obtain k cs t where w2: "w2 = ?w0\<lparr>m_fd := k, calls := cs, clock := t\<rparr>"
    using w1 only_calls_trans [OF _ s(3)] unfolding only_calls_def by blast
  let ?e = "(stFdData_new raw)\<lparr>fd := n, port_type := PORT_TCP, check := chk, fd_state := E_LISTEN\<rparr>"
  define w3 where "w3 = (fst (CMonitorEpoll_Add os n FD_READ w2))\<lparr>m_fd_to_data := [(fd_key n, ?e)]\<rparr>"
  have add: "AddServerFd os raw n PORT_TCP chk w2 = Inr w3"
    unfolding w3_def by (rule Add_first) (simp add: w2 world_start_def)
  define w4 where "w4 = fst (RegisterPackage chk process w3)"
  have w4: "m_fd_to_data w4 = [(fd_key n, ?e)]" "m_pkgcallback w4 = [(chk, process)]" "m_idtonode w4 = []"
    "staticid w4 = -1" "m_expire_to_id w4 = []" "m_id_to_expire w4 = []"
    using ptr
    by (simp_all add: w4_def w3_def w2 RegisterPackage_def CMonitorEpoll_Add_def case_prod_beta Let_def world_start_def
        sys_def sm_assign_def sm_entry_def sm_before_def sm_lower_bound_def)
  obtain w5 c where w5: "CoroutineMgr_Init w4 = (w5, IO_OK)" "co_ok w5" "nodes w5 = [0 \<mapsto> c]" "control w5 = 0"
    using Init_result [of w4] w4 by auto
  have f5: "m_fd_to_data w5 = [(fd_key n, ?e)]" "m_pkgcallback w5 = [(chk, process)]"
    using Init_world_frame(1,2) [of w4] w5(1) w4(1,2) by simp_all
  have "server_setup os raw port_no chk process (heap_empty, ?w0) = Inr ((CFd_copy 1 0 h2, w5), IO_OK)"
    using s(1,2) add w5(1)
    by (simp add: server_setup_def CServerSocket_new_def w1_def [symmetric] w4_def [symmetric] case_prod_beta Let_def)
  moreover have "entries_ok w5"
    using ptr by (simp add: entries_ok_def entry_ok_def f5)
  then have "event_inv procs (w5, Map.empty)"
    using procs w5 by (intro event_invI) auto
  then have "loop_inv procs (w5, Map.empty)"
    using w5(3) by (simp add: loop_inv_def asleep_def)
  moreover have "CFd_Get 0 (CFd_copy 1 0 h2) = Some n"
    using s(2) by (auto simp: CFd_Get_def CFd_copy_def ref_copy_def split: option.splits)
  ultimately show ?thesis
    using f5 by (intro exI [of _ "CFd_copy 1 0 h2"] exI [of _ w5] exI [of _ n] exI [of _ ?e]) simp
qed

subsection \<open>Properties\<close>

text \<open>
  C26: The callback of \<^verbatim>\<open>test2\<close> keeps to the contract of coroutines, for any request, any message code
  and any behaviour of the system in which \<^verbatim>\<open>send\<close> takes no more than it is offered: it neither
  faults nor runs for ever, and what it leaves on its stack when it waits can be resumed.
\<close>

theorem process2_contract:
  assumes "send_documented os"
  shows "procs_ok (\<lambda>_. process2 os p localtime)"
  unfolding procs_ok_def using process2_keeps [OF assms] by blast

theorem process2_contract_witness: "procs_ok (\<lambda>_. process2 example_os example_pb (\<lambda>_. example_tm))"
  by (rule process2_contract [OF example_send_documented])

text \<open>
  C2: Before its loop, \<^verbatim>\<open>main\<close> of \<^verbatim>\<open>test2\<close> brings the program into the loop's invariant, with the
  listening socket as the only entry of the descriptor table, and however the system and the
  clients behave, every state the loop then reaches satisfies it: all coroutines sleep on stacks
  that can be resumed, or have been destroyed.
\<close>

theorem server_stays_in_order:
  assumes "send_documented os"
  shows "\<exists>h w n e. main2_setup os raw (heap_empty, world_start now) = Inr ((h, w), IO_OK) \<and>
    CFd_Get 0 h = Some n \<and> m_fd_to_data w = [(fd_key n, e)] \<and> fd_state e = E_LISTEN \<and>
    (\<forall>y. main_reach os (program_code p) raw (\<lambda>_. process2 os p localtime) (w, Map.empty) y \<longrightarrow>
       loop_inv (\<lambda>_. process2 os p localtime) y)"
proof -
  have c: "procs_ok (\<lambda>_. process2 os p localtime)"
    unfolding procs_ok_def using process2_keeps [OF assms] by blast
  obtain h w n e where "main2_setup os raw (heap_empty, world_start now) = Inr ((h, w), IO_OK)"
      "loop_inv (\<lambda>_. process2 os p localtime) (w, Map.empty)" "CFd_Get 0 h = Some n" "m_fd_to_data w = [(fd_key n, e)]"
      "fd_state e = E_LISTEN"
    using setup_result [OF c, of HeadPkg_Check_ptr process_ptr os raw 31000 now]
    unfolding main2_setup_def by (auto simp: ptr_defs)
  then show ?thesis using reach_loop_inv by blast
qed

theorem server_stays_in_order_witness:
  "\<exists>h w. main2_setup example_os example_raw (heap_empty, world_start \<lparr>tv_sec = 1, tv_usec = 0\<rparr>) = Inr ((h, w), IO_OK)"
  using server_stays_in_order [OF example_send_documented, where localtime = "\<lambda>_. example_tm" and p = example_pb] by blast

text \<open>
  C8: A well-formed request is answered: the coroutine waits ten seconds and then sends, on the
  request's connection and with a tenth of a second to do it, one package that the client's
  \<^verbatim>\<open>Check\<close> and \<^verbatim>\<open>Decode\<close> accept: it carries the next sequence number and the reply with the
  request's command and query. A request that does not decode ends the coroutine at once.
\<close>

theorem process2_answers:
  assumes "pb_roundtrip p" and "co_ok w" and "nodes w k = Some c" and "rd = m_req c"
    and "HeadPkg_Decode p (m_data (recvdata rd)) (CMemData_Size (recvdata rd)) HeadPkg_new = (pkg, ok)"
    and "pb_parse_req p (Head_get_data (m_head pkg)) = (req, parsed)"
  shows "if ok \<and> parsed then
      \<exists>f. process2 os p localtime k w = Wait 10000 w f \<and>
        (\<forall>w1 c1. co_ok w1 \<longrightarrow> nodes w1 k = Some c1 \<longrightarrow>
          (\<exists>pkg1 :: HeadPkg. f w1 = bind_co (tcpsend os (server_socket (m_req c1)) (CTimerMS_new (clock w1) 100) (pkg_data pkg1)
              (w1\<lparr>head_id := head_id w1 + 1\<rparr>)) (\<lambda>r w2. Return 0 w2) \<and>
            head_seq (m_head pkg1) = Some (head_id w1 + 1) \<and>
            head_data (m_head pkg1) = Some (pb_print_rsp p (data_rsp localtime req w1)) \<and>
            (length (pkg_data pkg1) < 2 ^ 31 \<longrightarrow> (\<forall>rest q.
               HeadPkg_Check (pkg_data pkg1 @ rest) (of_nat (length (pkg_data pkg1))) = Inr (int (length (pkg_data pkg1))) \<and>
               HeadPkg_Decode p (pkg_data pkg1 @ rest) (of_nat (length (pkg_data pkg1))) q = (q\<lparr>m_head := m_head pkg1\<rparr>, True)))))
    else process2 os p localtime k w = Return 0 w"
proof (cases "ok \<and> parsed")
  case False
  then show ?thesis
    using assms(2-6) by (auto simp: process2_def req_of_def Get_nodes HeadPkg_Body_def Let_def)
next
  case True
  define pkg0 where "pkg0 = fst (HeadPkg_Body pkg)"
  have "process2 os p localtime k w = Wait 10000 w (process2_reply os p localtime k pkg0 req)"
    using True assms(2-6)
    by (simp add: process2_def req_of_def Get_nodes HeadPkg_Body_def Let_def wait_ms_def TIME_10_SECOND_def pkg0_def)
  moreover have "\<exists>pkg1 :: HeadPkg. process2_reply os p localtime k pkg0 req w1 =
        bind_co (tcpsend os (server_socket (m_req c1)) (CTimerMS_new (clock w1) 100) (pkg_data pkg1)
          (w1\<lparr>head_id := head_id w1 + 1\<rparr>)) (\<lambda>r w2. Return 0 w2) \<and>
      head_seq (m_head pkg1) = Some (head_id w1 + 1) \<and>
      head_data (m_head pkg1) = Some (pb_print_rsp p (data_rsp localtime req w1)) \<and>
      (length (pkg_data pkg1) < 2 ^ 31 \<longrightarrow> (\<forall>rest q.
         HeadPkg_Check (pkg_data pkg1 @ rest) (of_nat (length (pkg_data pkg1))) = Inr (int (length (pkg_data pkg1))) \<and>
         HeadPkg_Decode p (pkg_data pkg1 @ rest) (of_nat (length (pkg_data pkg1))) q = (q\<lparr>m_head := m_head pkg1\<rparr>, True)))"
    if w1: "co_ok w1" "nodes w1 k = Some c1" for w1 c1
  proof -
    obtain pkg1 hid where e: "HeadPkg_Encode p (HeadPkg_SetData (pb_print_rsp p (data_rsp localtime req w1)) pkg0) (head_id w1) = (pkg1, hid)"
      by (cases "HeadPkg_Encode p (HeadPkg_SetData (pb_print_rsp p (data_rsp localtime req w1)) pkg0) (head_id w1)")
    have h: "hid = head_id w1 + 1" "head_seq (m_head pkg1) = Some (head_id w1 + 1)"
      "head_data (m_head pkg1) = Some (pb_print_rsp p (data_rsp localtime req w1))"
      using e by (auto simp: HeadPkg_Encode_def HeadPkg_SetData_def Let_def)
    have "req_of k (w1\<lparr>head_id := hid\<rparr>) = Some (m_req c1)"
      using w1 co_ok_cong(1) [of "w1\<lparr>head_id := hid\<rparr>" w1] by (simp add: req_of_def Get_nodes)
    then have "process2_reply os p localtime k pkg0 req w1 =
        bind_co (tcpsend os (server_socket (m_req c1)) (CTimerMS_new (clock w1) 100) (pkg_data pkg1)
          (w1\<lparr>head_id := head_id w1 + 1\<rparr>)) (\<lambda>r w2. Return 0 w2)"
      using e h(1) by (simp add: process2_reply_def Let_def)
    moreover have "HeadPkg_Check (pkg_data pkg1 @ rest) (of_nat (length (pkg_data pkg1))) = Inr (int (length (pkg_data pkg1))) \<and>
        HeadPkg_Decode p (pkg_data pkg1 @ rest) (of_nat (length (pkg_data pkg1))) q = (q\<lparr>m_head := m_head pkg1\<rparr>, True)"
      if "length (pkg_data pkg1) < 2 ^ 31" for rest q
      using Encode_result [OF assms(1) e that refl, of rest q] by (elim conjE) (intro conjI)
    ultimately show ?thesis
      using h(2,3) by (intro exI [of _ pkg1] conjI impI allI) simp_all
  qed
  ultimately show ?thesis
    using True by (simp only: if_True simp_thms) blast
qed

theorem process2_answers_witness:
  "\<exists>w f. process2 example_os example_pb (\<lambda>_. example_tm) 1 w = Wait 10000 w f"
proof -
  let ?d = "\<lparr>m_data = [0, 0, 0, 2, 0, 0], m_offset = 6\<rparr> :: CMemData"
  let ?f = "\<lambda>c. c\<lparr>m_req := (m_req c)\<lparr>recvdata := ?d\<rparr>\<rparr>"
  obtain c where c: "nodes example_world 1 = Some c" using example_world_facts(6) by blast
  obtain x where x: "co_ok (example_world\<lparr>m_idtonode := x\<rparr>)" "map_of x = (nodes example_world)(1 \<mapsto> ?f c)"
    using update_node_result [OF example_world_facts(1) c, of ?f] by (auto simp: CoroutineContext_GetID_def)
  let ?w = "example_world\<lparr>m_idtonode := x\<rparr>"
  have "nodes ?w 1 = Some (?f c)" using x(2) by simp
  moreover have "HeadPkg_Decode example_pb (m_data ?d) (CMemData_Size ?d) HeadPkg_new = (HeadPkg_new, True)"
    by (simp add: HeadPkg_Decode_def CMemData_Size_def example_pb_def to_int_def HeadPkg_new_def Head_new_def)
  moreover have "pb_parse_req example_pb (Head_get_data (m_head HeadPkg_new)) = (\<lparr>req_cmd = None, req_query = None\<rparr>, True)"
    by (simp add: example_pb_def)
  ultimately show ?thesis
    using process2_answers [OF example_pb_roundtrip x(1), of 1 "?f c" "m_req (?f c)" HeadPkg_new True
        "\<lparr>req_cmd = None, req_query = None\<rparr>" True example_os "\<lambda>_. example_tm"]
    by auto
qed

text \<open>
  C27: A client of \<^verbatim>\<open>test2\<close> can make the server read past its receive buffer: a package that fills the
  buffer and whose header claims up to four bytes less than the buffer holds is accepted, as
  \<^verbatim>\<open>Check\<close> does not count the header, and copied with its header.
\<close>

theorem remote_overread:
  assumes "recv_documented os" and "co_ok w" and "co_live w" and "nodes w (staticid w + 1) = None"
    and "fd_read key w = Some d" and "fd_state d = E_SERVER_CONN" and "FdMgr.check d = HeadPkg_Check_ptr" and "0 \<le> n"
    and "ret_bytes (recv_answer os n w) = bs" and "ret (recv_answer os n w) = int (length bs)"
    and "load32 bs = Inr h" and "unat (ntohl h) \<le> length bs" and "1024 < unat (ntohl h) + 4"
  shows "DoReadTcp os (program_code p) n key w = Inl Out_Of_Bounds"
proof -
  have pos: "0 < ret (recv_answer os n w)" using assms(10,12,13) by linarith
  note b = recv_buffer_ok [OF assms(1) pos]
  have len: "length bs \<le> 1024" using b(1) assms(9) by simp
  have u: "unat (of_nat (length bs) :: u32) = length bs" using len by (intro unat_of_nat_u32) simp
  have "load32 (bs @ ys) = Inr h" for ys
    using assms(11) by (auto simp: load32_def split: list.splits)
  moreover have "bs \<noteq> []" using assms(12,13) by (cases bs) simp_all
  ultimately have "HeadPkg_Check (m_data (recv_buffer os n w)) (m_offset (recv_buffer os n w)) = Inr (u32_to_int (ntohl h + 4))"
    using assms(9,12,13) u by (simp add: HeadPkg_Check_def recv_buffer_def Let_def word_less_nat_alt unat_eq_0 [symmetric])
  moreover have "u32_to_int (ntohl h + 4) = int (unat (ntohl h)) + 4"
    using u32_to_int_small [of "unat (ntohl h) + 4"] assms(12) len by simp
  ultimately have sz: "checked_size os (program_code p) (FdMgr.check d) n w = int (unat (ntohl h)) + 4"
    by (simp add: checked_size_def program_code_def assms(7))
  have ptr: "FdMgr.check d \<noteq> 0" by (simp add: assms(7) ptr_defs)
  have "unat (ntohl h) + 4 < 2 ^ 31" using assms(12) len by simp
  then have "int 1024 < int (unat (ntohl h) + 4)" "int (unat (ntohl h) + 4) < int (2 ^ 31)"
    using assms(13) by (simp_all only: of_nat_less_iff)
  then show ?thesis
    by (intro oversized_request [OF assms(1-3,5,6) ptr assms(8) pos _ _ assms(4)]) (simp_all add: sz)
qed

text \<open>A peer that sends 1024 bytes whose header says that 1024 follow.\<close>

definition flood :: "u8 list" where
  "flood = bytes32 (htonl 1024) @ replicate 1020 0"

definition flooding_os :: os where
  "flooding_os cs c = (example_os cs c)
     \<lparr>ret := (case c of Sys_recv n len \<Rightarrow> if 1024 \<le> len then 1024 else 0 | _ \<Rightarrow> 0), ret_bytes := flood\<rparr>"

theorem remote_overread_witness:
  "DoReadTcp flooding_os (program_code example_pb) 7 (fd_key 7) example_world = Inl Out_Of_Bounds"
proof -
  have len: "length flood = 1024" by (simp add: flood_def bytes32_def)
  have doc: "recv_documented flooding_os"
    by (auto simp: recv_documented_def flooding_os_def len)
  have ans: "ret_bytes (recv_answer flooding_os 7 example_world) = flood"
    "ret (recv_answer flooding_os 7 example_world) = int (length flood)"
    by (simp_all add: recv_answer_def flooding_os_def len)
  have hd: "load32 flood = Inr (htonl 1024)" unfolding flood_def by (rule load_bytes32)
  show ?thesis
    by (rule remote_overread [OF doc example_world_facts(1,2) _ example_read(2) _ _ _ ans hd])
      (simp_all add: example_world_facts ptr_defs ntohl_htonl len)
qed

end
