(* ===== verification/RequestReply.thy ===== *)
theory RequestReply
  imports Runtime
begin

section \<open>From a request to its reply (tcpsendrecv and the event loop)\<close>

text \<open>
  \<^verbatim>\<open>tcpsendrecv\<close> and \<^verbatim>\<open>DoReadTcp\<close> meet in the table entry of a connection: the first enters the
  sequence number of the request and waits, the second stores the reply under it and wakes the
  waiter. The lemmas follow one request from the call to its return over both.
\<close>

lemma fd_write_head_id [simp, frame_simps]: "head_id (fd_write key f w) = head_id w" for w :: "'z world_scheme"
  by (simp add: fd_write_def)

lemma active_id_co: "co_ok w \<Longrightarrow> active_id w = Some (control w)"
  using co_okD(3,4,6) [of w] by (auto simp: active_id_def Get_nodes)

lemma fresh_timer:
  assumes "0 < ms"
  shows "\<not> CTimerMS_IsTimeout now (CTimerMS_new now ms)"
proof -
  have "uint (ucast ms :: u64) = uint ms" by (simp add: uint_up_ucast is_up)
  then show ?thesis
    using assms
    by (simp add: CTimerMS_IsTimeout_def CTimerMS_GetElapsedTime_def CTimerMS_new_def CTimerMS_SetTimeout_def
        CTimerMS_Reset_def word_le_def word_less_def)
qed

lemma u32_round: "- (2 ^ 31) \<le> x \<Longrightarrow> x < 2 ^ 31 \<Longrightarrow> u32_to_int (word_of_int x) = x"
  by (simp add: u32_to_int_def int_word_sint)

lemma tcpsend_at_once:
  assumes "0 \<le> n" and "src \<noteq> []" and "\<not> CTimerMS_IsTimeout (clock w) timer"
    and "ret (os (calls w) (Sys_send n src)) = int (length src)"
  shows "tcpsend os n timer src w = Return IO_OK (snd (sys os (Sys_send n src) w))"
  using assms by (subst tcpsend_def, subst tcpsend_loop.simps) (simp add: Let_def)

text \<open>A request on a connection that exists, taken by the system at once, up to the wait.\<close>

lemma sendrecv_waits:
  assumes w: "fd_ok w" "co_ok w" and key: "CFdMgr_Get_ip i p PORT_TCP w = Some key" "fd_read key w = Some d"
    and sorted: "sm_sorted (seq_to_coroutine d)" and args: "p \<noteq> 0" "cb_check \<noteq> 0" "cb_seq \<noteq> 0" "bytes \<noteq> []" "0 < timeoutms"
    and sq: "sq = code cb_seq bytes (of_nat (length bytes))" "- (2 ^ 31) \<le> sq" "sq < 2 ^ 31"
    and sent: "0 \<le> fd d" "ret (os (calls w) (Sys_send (fd d) bytes)) = int (length bytes)"
    and old: "\<forall>sr. map_of (seq_to_coroutine d) sq = Some sr \<longrightarrow> mem_ok (sr_data sr)"
  shows "\<exists>ms w1 d1 sr. tcpsendrecv os inet_addr code raw (Some i) p (Some bytes) dst timeoutms cb_seq cb_check w =
      Wait ms w1 (sendrecv_finish os (fd d) key sq dst) \<and> fd_ok w1 \<and> co_ok w1 \<and> co_live w1 = co_live w \<and>
    nodes w1 = nodes w \<and> timers w1 = timers w \<and> control w1 = control w \<and> head_id w1 = head_id w \<and> fd_read key w1 = Some d1 \<and>
    d1 = d\<lparr>fd_state := E_OTHER, seq_to_coroutine := sm_assign (<) sq sr (seq_to_coroutine d), last_op_ret := IO_OK\<rparr> \<and>
    sr_id sr = control w \<and> CMemData_Size (sr_data sr) = 0 \<and> mem_ok (sr_data sr) \<and> fd_keys w1 = fd_keys w \<and>
    ms = ucast (CTimerMS_LeftTime (clock w1) (CTimerMS_new (clock w) timeoutms)) \<and> clock_told os w1 \<and>
    calls w1 = calls w @ Sys_send (fd d) bytes #
      (if dom (map_of (seq_to_coroutine d)) \<subseteq> {sq} then [Sys_epoll_ctl CTL_ADD (fd d) (EFDEVENT_mask FD_READ)] else [])"
proof -
  define sr where "sr = \<lparr>sr_id = control w, sr_data = CMemData_Clear
    (case sm_find (<) sq (seq_to_coroutine d) of None \<Rightarrow> CMemData_new | Some sr \<Rightarrow> sr_data sr)\<rparr>"
  let ?m = "sm_assign (<) sq sr (seq_to_coroutine d)"
  let ?f = "\<lambda>e. stFdData_Clear (e\<lparr>fd_state := E_OTHER, seq_to_coroutine := sm_assign (<) sq sr (seq_to_coroutine e)\<rparr>)"
  define wc where "wc = fd_write key ?f w"
  define ws where "ws = snd (sys os (Sys_send (fd d) bytes) wc)"
  define w1 where "w1 = (if length ?m = 1 then fst (CMonitorEpoll_Add os (fd d) FD_READ ws) else ws)"
  have wc: "fd_ok wc" "co_ok wc" "fd_read key wc = Some (?f d)" "calls wc = calls w" "clock wc = clock w"
    using w key(2) fd_write_ok [OF w(1)] by (simp_all add: wc_def fd_read_after_write stFdData_Clear_def)
  have ws: "fd_ok ws" "co_ok ws" "fd_read key ws = Some (?f d)" "calls ws = calls w @ [Sys_send (fd d) bytes]"
    using wc by (simp_all add: ws_def fd_read_def)
  have connect: "tcpconnect os inet_addr raw i p timeoutms cb_seq cb_check sq w = Return (fd d, Some key) wc"
    using key active_id_co [OF w(2)] sq(2,3)
    by (simp add: tcpconnect_def connect_finish_def u32_round Let_def sr_def wc_def)
  have send: "tcpsend os (fd d) (CTimerMS_new (clock w) timeoutms) bytes wc = Return IO_OK ws"
    unfolding ws_def
    by (rule tcpsend_at_once) (use args(4,5) sent wc(4,5) fresh_timer in simp_all)
  have len: "length ?m = 1 \<longleftrightarrow> dom (map_of (seq_to_coroutine d)) \<subseteq> {sq}"
  proof -
    have "sm_sorted ?m" using sorted by simp
    from distinct_card [OF sm_sorted_distinct [OF this]]
    have "length ?m = card (dom (map_of ?m))" by (simp add: dom_map_of_conv_image_fst)
    also have "dom (map_of ?m) = insert sq (dom (map_of (seq_to_coroutine d)))"
      using sorted by (simp add: sm_assign_lin)
    finally show ?thesis by (auto simp: card_1_singleton_iff)
  qed
  have run: "tcpsendrecv os inet_addr code raw (Some i) p (Some bytes) dst timeoutms cb_seq cb_check w =
      Wait (ucast (CTimerMS_LeftTime (clock w1) (CTimerMS_new (clock w) timeoutms))) w1 (sendrecv_finish os (fd d) key sq dst)"
    using args(1-3) sent(1) connect send ws(3) by (simp add: tcpsendrecv_def sq(1) [symmetric] Let_def w1_def stFdData_Clear_def)
  have "fd_ok w1" "co_ok w1" "co_live w1 = co_live w" "nodes w1 = nodes w" "timers w1 = timers w" "control w1 = control w"
      "head_id w1 = head_id w" "fd_read key w1 = Some (?f d)"
    using ws by (simp_all add: w1_def CMonitorEpoll_Add_def case_prod_beta Let_def fd_read_def) (simp_all add: ws_def wc_def)
  moreover have "calls w1 = calls w @ Sys_send (fd d) bytes #
      (if dom (map_of (seq_to_coroutine d)) \<subseteq> {sq} then [Sys_epoll_ctl CTL_ADD (fd d) (EFDEVENT_mask FD_READ)] else [])"
    unfolding len [symmetric] using ws(4) by (simp add: w1_def CMonitorEpoll_Add_def case_prod_beta Let_def)
  moreover have "clock_told os w1"
    by (simp add: w1_def CMonitorEpoll_Add_def case_prod_beta Let_def) (simp add: ws_def)
  moreover have "fd_keys w1 = fd_keys w"
    using fd_write_keys_eq [of key ?f w]
    by (simp add: w1_def CMonitorEpoll_Add_def case_prod_beta Let_def) (simp add: ws_def wc_def)
  moreover have "mem_ok (sr_data sr)"
    using old sorted by (auto simp: sr_def sm_find_lin mem_ok_def CMemData_Clear_def CMemData_new_def split: option.splits)
  ultimately show ?thesis
    using run
    by (intro exI [of _ "ucast (CTimerMS_LeftTime (clock w1) (CTimerMS_new (clock w) timeoutms))"] exI [of _ w1]
        exI [of _ "?f d"] exI [of _ sr] conjI)
      (simp_all add: stFdData_Clear_def sr_def CMemData_Size_def CMemData_Clear_def)
qed

text \<open>Its reply, from the read to the end of the call.\<close>

lemma reply_reaches:
  assumes "recv_documented os" and "co_ok v" and "co_live v" and "fd_read key v = Some d1"
    and d1: "d1 = d\<lparr>fd_state := E_OTHER, seq_to_coroutine := sm_assign (<) sq sr (seq_to_coroutine d), last_op_ret := IO_OK\<rparr>"
    and "sm_sorted (seq_to_coroutine d)" and "0 \<le> fd d" and "check d \<noteq> 0" and "seq d \<noteq> 0"
    and sr: "sr_id sr = k" "mem_ok (sr_data sr)" and "nodes v k \<noteq> None"
    and pos: "0 < ret (recv_answer os (fd d) v)" and "sz = checked_size os code (check d) (fd d) v" and "0 < sz"
    and "code (seq d) (m_data (recv_buffer os (fd d) v)) (word_of_int sz) = sq"
  shows "\<exists>v'. DoReadTcp os code (fd d) key v = Inr (v', IO_OK) \<and>
    node_state v' k = Some E_READY \<and> timers v' k = None \<and>
    (\<forall>u. fd_ok u \<longrightarrow> fd_read key u = fd_read key v' \<longrightarrow>
       (\<exists>u' buf. sendrecv_finish os (fd d) key sq dst u = Return (IO_OK, buf) u' \<and>
          contents buf = ret_bytes (recv_answer os (fd d) v)))"
proof -
  obtain c where c: "nodes v k = Some c" using assms(12) by blast
  have e: "fd_state d1 = E_OTHER" "check d1 = check d" "seq d1 = seq d" "sm_sorted (seq_to_coroutine d1)"
    "map_of (seq_to_coroutine d1) sq = Some sr"
    using assms(6) by (simp_all add: d1 sm_assign_lin)
  have h: "check d1 \<noteq> 0" "seq d1 \<noteq> 0" "sz = checked_size os code (check d1) (fd d) v"
    "sq = code (seq d1) (m_data (recv_buffer os (fd d) v)) (word_of_int sz)" "nodes v (sr_id sr) = Some c"
    using assms(8,9,14,16) e(2,3) c sr(1) by simp_all
  obtain v' d' buf where r: "DoReadTcp os code (fd d) key v = Inr (v', IO_OK)"
      "nodes v' = (nodes v)(sr_id sr \<mapsto> c\<lparr>m_state := E_READY\<rparr>)" "timers v' = (timers v)(sr_id sr := None)"
      "fd_table v' = (fd_table v)(key \<mapsto> d')" "sm_sorted (seq_to_coroutine d')"
      "map_of (seq_to_coroutine d') = (map_of (seq_to_coroutine d1))(sq \<mapsto> sr\<lparr>sr_data := buf\<rparr>)"
      "contents buf = ret_bytes (recv_answer os (fd d) v)"
    using reply_result [OF assms(1-4) e(1) h(1,2) assms(7) pos h(3) assms(15) h(4) e(4,5) sr(2) h(5)]
    by (elim exE conjE) (rule that; assumption)
  have sz: "CMemData_Size buf \<noteq> 0"
  proof
    assume "CMemData_Size buf = 0"
    then have "ret_bytes (recv_answer os (fd d) v) = []"
      using r(7) by (simp add: contents_def CMemData_Size_def)
    then show False using assms(1) pos by (fastforce simp: recv_documented_def recv_answer_def)
  qed
  have "\<exists>u' buf. sendrecv_finish os (fd d) key sq dst u = Return (IO_OK, buf) u' \<and>
      contents buf = ret_bytes (recv_answer os (fd d) v)" if u: "fd_ok u" "fd_read key u = fd_read key v'" for u
  proof -
    have d': "fd_read key u = Some d'" "map_of (seq_to_coroutine d') sq = Some (sr\<lparr>sr_data := buf\<rparr>)"
      using u(2) r(4,6) by (simp_all add: fd_read_def)
    obtain u' where "sendrecv_finish os (fd d) key sq dst u = Return (IO_OK, buf) u'"
      using sendrecv_finish_result [where sq = sq and os = os and n = "fd d" and dst = dst, OF u(1) d'(1) r(5)] d'(2) sz by auto
    then show ?thesis using r(7) by blast
  qed
  then show ?thesis
    using r(1-3) sr(1) by (intro exI [of _ v']) simp
qed

text \<open>
  C16: A request is answered end to end. On an open connection \<^verbatim>\<open>tcpsendrecv\<close> sends the request in
  one call, watches the connection if nobody else does, and sleeps with a timer. When later, with
  the connection's entry as it was left, bytes come in whose sequence number is the request's, the
  sleeper is woken and its timer disarmed, and once it runs \<^verbatim>\<open>tcpsendrecv\<close> returns exactly those
  bytes. Numbers that \<^verbatim>\<open>int\<close> holds, and a timeout that is not zero.
\<close>

theorem request_gets_reply:
  assumes "fd_ok w" and "co_ok w" and "co_live w"
    and "CFdMgr_Get_ip i p PORT_TCP w = Some key" and "fd_read key w = Some d" and "sm_sorted (seq_to_coroutine d)"
    and "p \<noteq> 0" and "cb_check \<noteq> 0" and "cb_seq \<noteq> 0" and "bytes \<noteq> []" and "0 < timeoutms"
    and "sq = code cb_seq bytes (of_nat (length bytes))" and "- (2 ^ 31) \<le> sq" and "sq < 2 ^ 31"
    and "0 \<le> fd d" and "ret (os (calls w) (Sys_send (fd d) bytes)) = int (length bytes)"
    and "\<forall>sr. map_of (seq_to_coroutine d) sq = Some sr \<longrightarrow> mem_ok (sr_data sr)"
    and "recv_documented os" and "check d \<noteq> 0" and "seq d \<noteq> 0"
  shows "\<exists>ms w1 w2 f. tcpsendrecv os inet_addr code raw (Some i) p (Some bytes) dst timeoutms cb_seq cb_check w = Wait ms w1 f \<and>
    calls w1 = calls w @ Sys_send (fd d) bytes #
      (if dom (map_of (seq_to_coroutine d)) \<subseteq> {sq} then [Sys_epoll_ctl CTL_ADD (fd d) (EFDEVENT_mask FD_READ)] else []) \<and>
    CoroutineMgr_WaitAndSchedule ms w1 = Inr w2 \<and> fd_table w2 = fd_table w1 \<and> control w2 = 0 \<and>
    node_state w2 (control w) = Some E_WAIT \<and> timers w2 (control w) \<noteq> None \<and>
    (\<forall>v sz. co_ok v \<longrightarrow> co_live v \<longrightarrow> fd_read key v = fd_read key w2 \<longrightarrow> nodes v (control w) \<noteq> None \<longrightarrow>
       0 < ret (recv_answer os (fd d) v) \<longrightarrow> sz = checked_size os code (check d) (fd d) v \<longrightarrow> 0 < sz \<longrightarrow>
       code (seq d) (m_data (recv_buffer os (fd d) v)) (word_of_int sz) = sq \<longrightarrow>
       (\<exists>v'. DoReadTcp os code (fd d) key v = Inr (v', IO_OK) \<and>
          node_state v' (control w) = Some E_READY \<and> timers v' (control w) = None \<and>
          (\<forall>u. fd_ok u \<longrightarrow> fd_read key u = fd_read key v' \<longrightarrow>
             (\<exists>u' buf. f u = Return (IO_OK, buf) u' \<and> contents buf = ret_bytes (recv_answer os (fd d) v)))))"
proof -
  obtain ms w1 d1 sr where run: "tcpsendrecv os inet_addr code raw (Some i) p (Some bytes) dst timeoutms cb_seq cb_check w =
        Wait ms w1 (sendrecv_finish os (fd d) key sq dst)"
      and w1: "co_ok w1" "co_live w1" "control w1 = control w" "fd_read key w1 = Some d1"
      and d1: "d1 = d\<lparr>fd_state := E_OTHER, seq_to_coroutine := sm_assign (<) sq sr (seq_to_coroutine d), last_op_ret := IO_OK\<rparr>"
      and sr: "sr_id sr = control w" "mem_ok (sr_data sr)"
      and cs: "calls w1 = calls w @ Sys_send (fd d) bytes #
        (if dom (map_of (seq_to_coroutine d)) \<subseteq> {sq} then [Sys_epoll_ctl CTL_ADD (fd d) (EFDEVENT_mask FD_READ)] else [])"
    using sendrecv_waits [where code = code and os = os, OF assms(1,2,4-17), of inet_addr raw dst] assms(3) by (elim exE conjE) (rule that; simp)
  obtain c where c: "nodes w1 (control w1) = Some c" using co_okD(4) [OF w1(1)] by blast
  obtain w2 where w2: "CoroutineMgr_WaitAndSchedule ms w1 = Inr w2" "nodes w2 = (nodes w1)(control w1 \<mapsto> c\<lparr>m_state := E_WAIT\<rparr>)"
      "timers w2 = (timers w1)(control w1 \<mapsto> CExpireMgr_now w1 + ucast ms)" "control w2 = 0"
    using WaitAndSchedule_result [OF w1(1) c, of ms] by blast
  have table: "fd_table w2 = fd_table w1" using Wait_world_frame [OF w2(1)] by simp
  have key: "fd_read key w2 = Some d1" using w1(4) table by (simp add: fd_read_def)
  have reply: "\<exists>v'. DoReadTcp os code (fd d) key v = Inr (v', IO_OK) \<and>
      node_state v' (control w) = Some E_READY \<and> timers v' (control w) = None \<and>
      (\<forall>u. fd_ok u \<longrightarrow> fd_read key u = fd_read key v' \<longrightarrow>
         (\<exists>u' buf. sendrecv_finish os (fd d) key sq dst u = Return (IO_OK, buf) u' \<and>
            contents buf = ret_bytes (recv_answer os (fd d) v)))"
    if v: "co_ok v" "co_live v" "fd_read key v = fd_read key w2" "nodes v (control w) \<noteq> None"
      and r: "0 < ret (recv_answer os (fd d) v)" "sz = checked_size os code (check d) (fd d) v" "0 < sz"
        "code (seq d) (m_data (recv_buffer os (fd d) v)) (word_of_int sz) = sq" for v sz
    by (rule reply_reaches [OF assms(18) v(1,2) v(3) [unfolded key] d1 assms(6,15,19,20) sr v(4) r])
  show ?thesis
    by (intro exI [of _ ms] exI [of _ w1] exI [of _ w2] exI [of _ "sendrecv_finish os (fd d) key sq dst"] conjI allI impI)
      (rule run cs w2(1,4) table reply; assumption | simp add: w2(2,3) w1(3))+
qed

definition example_calling :: world where
  "example_calling = example_world\<lparr>control := 1, m_active := Some 1\<rparr>"

theorem request_gets_reply_witness:
  "\<exists>ms w1 w2 f. tcpsendrecv example_os (\<lambda>_. 0) example_code example_raw (Some ''10.0.0.1'') 80 (Some [7]) CMemData_new 1000 2 1
      example_calling = Wait ms w1 f \<and> CoroutineMgr_WaitAndSchedule ms w1 = Inr w2 \<and> node_state w2 1 = Some E_WAIT"
proof -
  let ?d = "example_raw\<lparr>fd := 9, fd_state := E_OTHER, check := 1,
         seq := 2, seq_to_coroutine := [(5, \<lparr>sr_id = 1, sr_data = CMemData_new\<rparr>)]\<rparr>"
  let ?key = "FdKey (IpPort ''10.0.0.1'' 80 PORT_TCP) 9"
  have ok: "fd_ok example_calling" using example_world_fds(1) by (simp add: example_calling_def)
  have co: "co_ok example_calling" "co_live example_calling"
    using example_world_facts(1,2,6) by (auto simp: example_calling_def co_ok_def co_live_def exp_ok_def)
  have "?key \<in> fd_keys example_calling"
    using example_world_fds(2) by (simp add: example_calling_def example_fds_def)
  then have key: "CFdMgr_Get_ip ''10.0.0.1'' 80 PORT_TCP example_calling = Some ?key"
    using Get_ip_iff [OF ok, of "''10.0.0.1''" 80 PORT_TCP ?key] by (simp add: stIpPort_empty_def)
  have read: "fd_read ?key example_calling = Some ?d"
    using example_read(3) by (simp add: example_calling_def fd_read_def)
  have p: "sm_sorted (seq_to_coroutine ?d)" "(80 :: u16) \<noteq> 0" "(1 :: fnptr) \<noteq> 0" "(2 :: fnptr) \<noteq> 0" "[7 :: u8] \<noteq> []"
    "(0 :: u32) < 1000" "5 = example_code 2 [7] (of_nat (length [7 :: u8]))" "- (2 ^ 31) \<le> (5 :: int)" "(5 :: int) < 2 ^ 31"
    "0 \<le> fd ?d" "ret (example_os (calls example_calling) (Sys_send (fd ?d) [7])) = int (length [7 :: u8])"
    by (simp_all add: example_code_def example_os_def)
  have m: "\<forall>sr. map_of (seq_to_coroutine ?d) 5 = Some sr \<longrightarrow> mem_ok (sr_data sr)"
    by (simp add: mem_ok_def CMemData_new_def)
  have q: "check ?d \<noteq> 0" "seq ?d \<noteq> 0" by simp_all
  have "control example_calling = 1" by (simp add: example_calling_def)
  then show ?thesis
    using request_gets_reply [where code = example_code and os = example_os, OF ok co key read p m example_os_documented q, of "\<lambda>_. 0" example_raw CMemData_new]
    by (elim exE conjE) (intro exI conjI; simp; fail)
qed

end
