(* ===== verification/Relay.thy ===== *)
theory Relay
  imports Server RequestReply
begin

section \<open>The first program (test1/main1.cpp) between its client and the second\<close>

text \<open>
  \<open>process1\<close> answers its client with what the server of \<^verbatim>\<open>test2\<close> says. The lemmas follow it from the
  request over \<open>tcpsendrecv\<close> to the bytes it sends its client.
\<close>

lemma u32_to_int_bounds: "- (2 ^ 31) \<le> u32_to_int x" "u32_to_int x < 2 ^ 31"
  using sint_greater_eq [of x] sint_less [of x] by (simp_all add: u32_to_int_def)

lemma head_id_ok [simp]:
  "fd_ok (w\<lparr>head_id := i\<rparr>) = fd_ok w" "co_ok (w\<lparr>head_id := i\<rparr>) = co_ok w"
  "co_live (w\<lparr>head_id := i\<rparr>) = co_live w" for w :: world
  by (rule fd_ok_cong co_ok_cong; simp)+

text \<open>The sequence number \<open>tcpsendrecv\<close> takes from an encoded package.\<close>

lemma encoded_seq:
  assumes "pb_roundtrip p" and "HeadPkg_Encode p pkg cid = (pkg', hid)" and "length (pkg_data pkg') < 2 ^ 31"
  shows "program_code p HeadPkg_Seq_ptr (pkg_data pkg') (of_nat (length (pkg_data pkg'))) = u32_to_int (cid + 1)"
    and "hid = cid + 1" and "pkg_data pkg' \<noteq> []"
proof -
  show "program_code p HeadPkg_Seq_ptr (pkg_data pkg') (of_nat (length (pkg_data pkg'))) = u32_to_int (cid + 1)"
      "hid = cid + 1"
    using Encode_result [OF assms refl, of "[]" HeadPkg_new] by (simp_all add: program_code_def ptr_defs)
  show "pkg_data pkg' \<noteq> []"
    using assms(2) by (auto simp: HeadPkg_Encode_def Let_def bytes32_def)
qed

text \<open>
  What is on the stack of \<open>process1\<close> while it waits for the reply numbered \<open>sq\<close> on connection \<open>key\<close>,
  whose descriptor is \<open>n\<close>.
\<close>

definition relay_stack :: "os \<Rightarrow> pb \<Rightarrow> int \<Rightarrow> stFdKey \<Rightarrow> int \<Rightarrow> u32 \<Rightarrow> HeadPkg \<Rightarrow> world \<Rightarrow> (world, int) co" where
  "relay_stack os p n key sq k pkg u = bind_co (sendrecv_finish os n key sq CMemData_new u)
    (\<lambda>(r, rspdata) v. process1_answer os p k pkg r rspdata v)"

text \<open>The answer: what is done with a reply that \<open>tcpsendrecv\<close> returns.\<close>

lemma process1_passes_on:
  assumes "co_ok u" and "nodes u k = Some c"
    and "HeadPkg_Decode p (m_data buf) (CMemData_Size buf) pkg = (pkg1, True)"
    and "pb_parse_rsp p (Head_get_data (m_head pkg1)) = (rsp, True)" and "rsp_msg rsp = Some msg"
  shows "process1_answer os p k pkg IO_OK buf u =
    bind_co (tcpsend os (server_socket (m_req c)) (CTimerMS_new (clock u) 100) msg u) (\<lambda>r v. Return 0 v)"
  using assms
  by (simp add: process1_answer_def HeadPkg_Body_def req_of_def Get_nodes CTimerMS_new_def CTimerMS_SetTimeout_def Let_def)

text \<open>The request: what \<open>process1\<close> does up to its wait, and the state it leaves.\<close>

lemma process1_waits:
  assumes "pb_roundtrip p" and "fd_ok w" and "co_ok w" and "nodes w k = Some c"
    and "CFdMgr_Get_ip ''10.244.181.24'' 31000 PORT_TCP w = Some key" and "fd_read key w = Some d"
    and "sm_sorted (seq_to_coroutine d)" and "0 \<le> fd d"
    and "HeadPkg_Encode p (HeadPkg_SetData (pb_print_req p
        \<lparr>req_cmd = Some 100, req_query = Some (word_of_int (tv_sec (clock w)))\<rparr>) HeadPkg_new) (head_id w) = (pkg, hid)"
    and "length (pkg_data pkg) < 2 ^ 31" and "sq = u32_to_int (head_id w + 1)"
    and "ret (os (calls w) (Sys_send (fd d) (pkg_data pkg))) = int (length (pkg_data pkg))"
    and "\<forall>sr. map_of (seq_to_coroutine d) sq = Some sr \<longrightarrow> mem_ok (sr_data sr)"
  shows "\<exists>ms w1 d1 sr. process1 os inet_addr p raw k w = Wait ms w1 (relay_stack os p (fd d) key sq k pkg) \<and> fd_ok w1 \<and> co_ok w1 \<and>
    co_live w1 = co_live w \<and> nodes w1 = nodes w \<and> timers w1 = timers w \<and> control w1 = control w \<and> head_id w1 = head_id w + 1 \<and>
    fd_keys w1 = fd_keys w \<and> fd_read key w1 = Some d1 \<and>
    d1 = d\<lparr>fd_state := E_OTHER, seq_to_coroutine := sm_assign (<) sq sr (seq_to_coroutine d), last_op_ret := IO_OK\<rparr> \<and>
    sr_id sr = control w \<and> mem_ok (sr_data sr) \<and>
    ms = ucast (CTimerMS_LeftTime (clock w1) (CTimerMS_new (clock w) TIMEOUT)) \<and> clock_told os w1 \<and>
    calls w1 = calls w @ Sys_send (fd d) (pkg_data pkg) #
      (if dom (map_of (seq_to_coroutine d)) \<subseteq> {sq} then [Sys_epoll_ctl CTL_ADD (fd d) (EFDEVENT_mask FD_READ)] else [])"
proof -
  let ?w1 = "w\<lparr>head_id := hid\<rparr>"
  note seq = encoded_seq [OF assms(1,9,10)]
  have s: "fd_ok ?w1" "co_ok ?w1" "CFdMgr_Get_ip ''10.244.181.24'' 31000 PORT_TCP ?w1 = Some key" "fd_read key ?w1 = Some d"
    using assms(2,3,5,6) by (simp_all add: CFdMgr_Get_ip_def CFdMgr_Exist_ip_def fd_read_def)
  have a: "(31000 :: u16) \<noteq> 0" "HeadPkg_Check_ptr \<noteq> 0" "HeadPkg_Seq_ptr \<noteq> 0" "pkg_data pkg \<noteq> []" "0 < TIMEOUT"
    using seq(3) by (simp_all add: ptr_defs TIMEOUT_def)
  have q: "sq = program_code p HeadPkg_Seq_ptr (pkg_data pkg) (of_nat (length (pkg_data pkg)))"
    using seq(1) assms(11) by simp
  have b: "- (2 ^ 31) \<le> sq" "sq < 2 ^ 31" unfolding assms(11) by (rule u32_to_int_bounds)+
  have t: "ret (os (calls ?w1) (Sys_send (fd d) (pkg_data pkg))) = int (length (pkg_data pkg))"
    using assms(12) by simp
  obtain ms w1 d1 sr where w1: "tcpsendrecv os inet_addr (program_code p) raw (Some ''10.244.181.24'') 31000
        (Some (pkg_data pkg)) CMemData_new TIMEOUT HeadPkg_Seq_ptr HeadPkg_Check_ptr ?w1 =
        Wait ms w1 (sendrecv_finish os (fd d) key sq CMemData_new)"
      "fd_ok w1" "co_ok w1" "co_live w1 = co_live ?w1" "nodes w1 = nodes ?w1" "timers w1 = timers ?w1" "control w1 = control ?w1"
      "head_id w1 = head_id ?w1" "fd_read key w1 = Some d1"
      "d1 = d\<lparr>fd_state := E_OTHER, seq_to_coroutine := sm_assign (<) sq sr (seq_to_coroutine d), last_op_ret := IO_OK\<rparr>"
      "sr_id sr = control ?w1" "mem_ok (sr_data sr)" "fd_keys w1 = fd_keys ?w1"
      "ms = ucast (CTimerMS_LeftTime (clock w1) (CTimerMS_new (clock ?w1) TIMEOUT))" "clock_told os w1"
      "calls w1 = calls ?w1 @ Sys_send (fd d) (pkg_data pkg) #
        (if dom (map_of (seq_to_coroutine d)) \<subseteq> {sq} then [Sys_epoll_ctl CTL_ADD (fd d) (EFDEVENT_mask FD_READ)] else [])"
    using sendrecv_waits [where code = "program_code p" and os = os, OF s assms(7) a q b assms(8) t assms(13), of inet_addr raw CMemData_new]
    by (elim exE conjE) (rule that; assumption)
  have "process1 os inet_addr p raw k w = Wait ms w1 (relay_stack os p (fd d) key sq k pkg)"
    using assms(3,4,9) w1(1) by (simp add: process1_def req_of_def Get_nodes Let_def relay_stack_def fun_eq_iff)
  then show ?thesis
    using w1 seq(2) by (intro exI [of _ ms] exI [of _ w1] exI [of _ d1] exI [of _ sr]) simp
qed

text \<open>
  The first program relays. On an open connection to the second, its callback sends one
  package with the next sequence number and waits; when it is resumed with a reply stored under
  that number that \<^verbatim>\<open>Decode\<close> and the message parser accept, it sends its client exactly the
  message in it, with a tenth of a second to do it, and is done; resumed with no reply, it is
  done at once.
\<close>

theorem process1_relays:
  assumes "pb_roundtrip p" and "fd_ok w" and "co_ok w" and "nodes w k = Some c"
    and "CFdMgr_Get_ip ''10.244.181.24'' 31000 PORT_TCP w = Some key" and "fd_read key w = Some d"
    and "sm_sorted (seq_to_coroutine d)" and "0 \<le> fd d"
    and "HeadPkg_Encode p (HeadPkg_SetData (pb_print_req p
        \<lparr>req_cmd = Some 100, req_query = Some (word_of_int (tv_sec (clock w)))\<rparr>) HeadPkg_new) (head_id w) = (pkg, hid)"
    and "length (pkg_data pkg) < 2 ^ 31" and "sq = u32_to_int (head_id w + 1)"
    and "ret (os (calls w) (Sys_send (fd d) (pkg_data pkg))) = int (length (pkg_data pkg))"
    and "\<forall>sr. map_of (seq_to_coroutine d) sq = Some sr \<longrightarrow> mem_ok (sr_data sr)"
  shows "\<exists>ms w1 f. process1 os inet_addr p raw k w = Wait ms w1 f \<and> head_id w1 = head_id w + 1 \<and>
    calls w1 = calls w @ Sys_send (fd d) (pkg_data pkg) #
      (if dom (map_of (seq_to_coroutine d)) \<subseteq> {sq} then [Sys_epoll_ctl CTL_ADD (fd d) (EFDEVENT_mask FD_READ)] else []) \<and>
    (\<forall>u d' sr. co_ok u \<longrightarrow> nodes u k = Some c \<longrightarrow> fd_ok u \<longrightarrow> fd_read key u = Some d' \<longrightarrow>
       sm_sorted (seq_to_coroutine d') \<longrightarrow> map_of (seq_to_coroutine d') sq = Some sr \<longrightarrow>
       (if CMemData_Size (sr_data sr) = 0 then f u = Return 0 u
        else \<forall>pkg1 rsp msg. HeadPkg_Decode p (m_data (sr_data sr)) (CMemData_Size (sr_data sr)) pkg = (pkg1, True) \<longrightarrow>
          pb_parse_rsp p (Head_get_data (m_head pkg1)) = (rsp, True) \<longrightarrow> rsp_msg rsp = Some msg \<longrightarrow>
          (\<exists>v. f u = bind_co (tcpsend os (server_socket (m_req c)) (CTimerMS_new (clock v) 100) msg v) (\<lambda>r v'. Return 0 v'))))"
proof -
  let ?f = "relay_stack os p (fd d) key sq k pkg"
  obtain ms w1 where w1: "process1 os inet_addr p raw k w = Wait ms w1 ?f" "head_id w1 = head_id w + 1"
      "calls w1 = calls w @ Sys_send (fd d) (pkg_data pkg) #
        (if dom (map_of (seq_to_coroutine d)) \<subseteq> {sq} then [Sys_epoll_ctl CTL_ADD (fd d) (EFDEVENT_mask FD_READ)] else [])"
    using process1_waits [where os = os and raw = raw and inet_addr = inet_addr, OF assms] by (elim exE conjE) (rule that; assumption)
  have none: "?f u = Return 0 u"
    if u: "fd_ok u" "fd_read key u = Some d'" "sm_sorted (seq_to_coroutine d')" "map_of (seq_to_coroutine d') sq = Some sr"
      "CMemData_Size (sr_data sr) = 0" for u d' sr
    using sendrecv_finish_result [where sq = sq and os = os and n = "fd d" and dst = CMemData_new, OF u(1-3)] u(4,5)
    by (simp add: process1_answer_def relay_stack_def)
  have some: "\<exists>v. ?f u = bind_co (tcpsend os (server_socket (m_req c)) (CTimerMS_new (clock v) 100) msg v) (\<lambda>r v'. Return 0 v')"
    if u: "fd_ok u" "fd_read key u = Some d'" "sm_sorted (seq_to_coroutine d')" "map_of (seq_to_coroutine d') sq = Some sr"
      "CMemData_Size (sr_data sr) \<noteq> 0" and k: "co_ok u" "nodes u k = Some c"
      and r: "HeadPkg_Decode p (m_data (sr_data sr)) (CMemData_Size (sr_data sr)) pkg = (pkg1, True)"
        "pb_parse_rsp p (Head_get_data (m_head pkg1)) = (rsp, True)" "rsp_msg rsp = Some msg" for u d' sr pkg1 rsp msg
  proof -
    obtain v where v: "sendrecv_finish os (fd d) key sq CMemData_new u = Return (IO_OK, sr_data sr) v" "co_ok v" "nodes v k = Some c"
      using sendrecv_finish_result [where sq = sq and os = os and n = "fd d" and dst = CMemData_new, OF u(1-3)] u(4,5) k
      by auto
    show ?thesis
      by (rule exI [of _ v]) (simp add: v(1) process1_passes_on [OF v(2,3) r] relay_stack_def)
  qed
  show ?thesis
    by (intro exI [of _ ms] exI [of _ w1] exI [of _ ?f] conjI allI impI)
      (use w1 none some in \<open>simp_all split: if_split\<close>)
qed

text \<open>The example coroutine with an open connection to the second program.\<close>

definition relay_key :: stFdKey where
  "relay_key = FdKey (IpPort ''10.244.181.24'' 31000 PORT_TCP) 9"

definition example_relay :: world where
  "example_relay = example_calling\<lparr>m_fd_to_data := [(relay_key, example_entry 9)]\<rparr>"

lemma example_relay_facts:
  "fd_ok example_relay" "co_ok example_relay" "\<exists>c. nodes example_relay 1 = Some c"
  "CFdMgr_Get_ip ''10.244.181.24'' 31000 PORT_TCP example_relay = Some relay_key"
  "fd_read relay_key example_relay = Some (example_entry 9)"
proof -
  show ok: "fd_ok example_relay"
    by (auto simp: fd_ok_def example_relay_def relay_key_def consistent_def key_wf_def key_less_def
        stIpPort_empty_def stIpPort_new_def stFd_empty_def less_stIpPort_def ip_port_less_def example_entry_def sm_ok_def)
  show "co_ok example_relay" "\<exists>c. nodes example_relay 1 = Some c"
    using example_world_facts(1,6) by (auto simp: example_relay_def example_calling_def co_ok_def exp_ok_def)
  have "relay_key \<in> fd_keys example_relay" by (simp add: example_relay_def)
  then show "CFdMgr_Get_ip ''10.244.181.24'' 31000 PORT_TCP example_relay = Some relay_key"
    using Get_ip_iff [OF ok, of "''10.244.181.24''" 31000 PORT_TCP relay_key]
    by (simp add: relay_key_def stIpPort_empty_def)
  show "fd_read relay_key example_relay = Some (example_entry 9)"
    by (simp add: fd_read_def example_relay_def)
qed

theorem process1_relays_witness:
  "\<exists>ms w1 f. process1 example_os (\<lambda>_. 0) example_pb example_raw 1 example_relay = Wait ms w1 f \<and>
    head_id w1 = head_id example_relay + 1"
proof -
  obtain c where c: "nodes example_relay 1 = Some c" using example_relay_facts(3) by blast
  obtain pkg hid where e: "HeadPkg_Encode example_pb (HeadPkg_SetData (pb_print_req example_pb
      \<lparr>req_cmd = Some 100, req_query = Some (word_of_int (tv_sec (clock example_relay)))\<rparr>) HeadPkg_new)
      (head_id example_relay) = (pkg, hid)"
    by fastforce
  have l: "length (pkg_data pkg) < 2 ^ 31"
    using e by (auto simp: HeadPkg_Encode_def HeadPkg_SetData_def HeadPkg_new_def Head_new_def example_pb_def Let_def
        bytes32_def Head_get_data_def)
  have d: "sm_sorted (seq_to_coroutine (example_entry 9))" "0 \<le> fd (example_entry 9)"
    by (simp_all add: example_entry_def example_raw_def)
  have t: "ret (example_os (calls example_relay) (Sys_send (fd (example_entry 9)) (pkg_data pkg))) = int (length (pkg_data pkg))"
    by (simp add: example_os_def)
  have m: "\<forall>sr. map_of (seq_to_coroutine (example_entry 9)) (u32_to_int (head_id example_relay + 1)) = Some sr \<longrightarrow> mem_ok (sr_data sr)"
    by (simp add: example_entry_def example_raw_def)
  show ?thesis
    using process1_relays [where os = example_os and sq = "u32_to_int (head_id example_relay + 1)",
        OF example_pb_roundtrip example_relay_facts(1,2) c example_relay_facts(4,5) d e l refl t m, of "\<lambda>_. 0" example_raw]
    by blast
qed

end
