(* ===== verification/Pass.thy ===== *)
theory Pass
  imports Turn
begin

section \<open>What a pass of the scheduler comes to\<close>

text \<open>
  \<^verbatim>\<open>ScheduleAll\<close> walks a table that the code it runs changes, erases the entry its iterator is at and
  looks at a coroutine again after it ran. The reference below has none of that: a plain loop over
  the ids there were at the start, in ascending order, each served once. \<open>serve_one\<close> runs a
  coroutine that is ready and then destroys it if it has ended; \<open>serve_all\<close> does so down a list.
  Inside the locale of the scheduler the two are shown to be the same function.
\<close>

definition serve_one :: "('z, 'k) runner \<Rightarrow> u32 \<Rightarrow> 'z co_state_scheme \<times> 'k \<Rightarrow> ('z co_state_scheme \<times> 'k) res" where
  "serve_one run k x =
     (if k = 0 then Inr x
      else bind_res
        (if node_state (fst x) k = Some E_READY
         then bind_res (CoroutineMgr_Switch k (fst x)) (\<lambda>s. run k (s, snd x)) else Inr x)
        (\<lambda>y. Inr (if node_state (fst y) k = Some E_END then (fst (CoroutineMgr_Destroy k (fst y)), snd y) else y)))"

primrec serve_all :: "('z, 'k) runner \<Rightarrow> u32 list \<Rightarrow> 'z co_state_scheme \<times> 'k \<Rightarrow> ('z co_state_scheme \<times> 'k) res" where
  "serve_all run [] x = Inr x"
| "serve_all run (k # ks) x = bind_res (serve_one run k x) (serve_all run ks)"

lemma sorted_ids:
  assumes "sm_sorted m"
  shows "sorted_list_of_set (dom (map_of m)) = map fst m"
proof -
  have "sorted_wrt (<) (map fst m)" using assms by (simp add: sm_ok_def sorted_wrt_map)
  then have "sorted (map fst m)" "distinct (map fst m)" by (simp_all add: strict_sorted_iff)
  then show ?thesis
    using sorted_list_of_set.idem_if_sorted_distinct [of "map fst m"] by (simp add: dom_map_of_conv_image_fst)
qed

lemma next_id_fst: "map fst m = map fst m' \<Longrightarrow> next_id k m = next_id k m'"
  by (induction m m' rule: list_induct2') auto

context coroutine_runtime begin

lemma later_finite: "finite (later k x)"
  by (simp add: finite_dom_map_of)

text \<open>The ids from \<open>k\<close> on, by the iterator.\<close>

lemma later_step:
  assumes inv: "inv x" and k: "nodes (fst x) k \<noteq> None"
  shows "sorted_list_of_set (later k x) = k # (case next_id k (m_idtonode (fst x)) of
    None \<Rightarrow> [] | Some j \<Rightarrow> sorted_list_of_set (later j x))"
proof -
  let ?R = "{j \<in> dom (nodes (fst x)). k < j}"
  have sorted: "sm_sorted (m_idtonode (fst x))" by (rule co_okD(2) [OF inv_co [OF inv]])
  have mem: "k \<in> later k x" using k by auto
  then have "Min (later k x) = k" by (intro Min_eqI) (auto simp: later_finite)
  moreover have "later k x - {k} = ?R" by auto
  ultimately have l: "sorted_list_of_set (later k x) = k # sorted_list_of_set ?R"
    using sorted_list_of_set_nonempty [OF later_finite [of x k]] mem by (metis empty_iff)
  show ?thesis
  proof (cases "next_id k (m_idtonode (fst x))")
    case None
    then have "nodes (fst x) j = None" if "k < j" for j
      using next_id_None [OF None, of j] that unfolding keys_eq [OF inv] by (meson domIff not_le)
    then have "?R = {}" by auto
    then show ?thesis using l None by simp
  next
    case (Some j)
    have "?R = later j x"
      using next_id_Some [OF sorted Some] by (auto simp: keys_eq [OF inv])
    then show ?thesis using l Some by simp
  qed
qed

text \<open>Serving depends on the ids only.\<close>

lemma serve_settled:
  assumes inv: "inv x" and c0: "control (fst x) = 0"
    and k: "k = 0 \<or> node_state (fst x) k = Some E_WAIT \<or> node_state (fst x) k = Some E_END"
    and kn: "nodes (fst x) k \<noteq> None"
  shows "\<exists>y. serve_one run k x = Inr y \<and> inv y \<and> control (fst y) = 0 \<and>
    (\<forall>j. j \<noteq> k \<longrightarrow> node_state (fst y) j = node_state (fst x) j) \<and>
    ScheduleAll_loop run (Some k) x = ScheduleAll_loop run (next_id k (m_idtonode (fst x))) y"
proof -
  define y where "y = (if k \<noteq> 0 \<and> node_state (fst x) k = Some E_END
    then (fst (CoroutineMgr_Destroy k (fst x)), snd x) else x)"
  note ok = inv_co [OF inv]
  obtain c where c: "nodes (fst x) k = Some c" using kn by blast
  have "inv y" "control (fst y) = 0" "\<forall>j. j \<noteq> k \<longrightarrow> node_state (fst y) j = node_state (fst x) j"
    using Destroy_result [OF ok, of k] destroy_inv [OF inv c0, of k] inv c0 by (auto simp: y_def)
  moreover have "serve_one run k x = Inr y"
    using k c by (auto simp: serve_one_def y_def)
  moreover have "ScheduleAll_loop run (Some k) x = ScheduleAll_loop run (next_id k (m_idtonode (fst x))) y"
    using k c co_okD(6) [OF ok c]
    by (subst ScheduleAll_loop.simps) (auto simp: y_def Get_nodes [OF ok])
  ultimately show ?thesis by blast
qed

lemma serve_visited:
  assumes inv: "inv x" and c0: "control (fst x) = 0" and kn: "nodes (fst x) k \<noteq> None"
  shows "\<exists>y. serve_one run k x = Inr y \<and> inv y \<and> control (fst y) = 0 \<and>
    (\<forall>j. j \<noteq> k \<longrightarrow> node_state (fst y) j = node_state (fst x) j) \<and>
    ScheduleAll_loop run (Some k) x = ScheduleAll_loop run (next_id k (m_idtonode (fst x))) y"
proof -
  note ok = inv_co [OF inv]
  obtain c where c: "nodes (fst x) k = Some c" using kn by blast
  show ?thesis
  proof (cases "k = 0 \<or> m_state c \<noteq> E_READY")
    case True
    then have "k = 0 \<or> node_state (fst x) k = Some E_WAIT \<or> node_state (fst x) k = Some E_END"
      using c by (cases "m_state c") auto
    then show ?thesis by (rule serve_settled [OF inv c0 _ kn])
  next
    case False
    then have k0: "k \<noteq> 0" and st: "node_state (fst x) k = Some E_READY" using c by auto
    obtain z where z: "run k ((fst x)\<lparr>m_active := Some k, control := k\<rparr>, snd x) = Inr z" "inv z"
        "control (fst z) = 0" "node_state (fst z) k = Some E_WAIT \<or> node_state (fst z) k = Some E_END"
        "\<And>j. j \<noteq> k \<Longrightarrow> node_state (fst z) j = node_state (fst x) j"
      using run_yields [OF inv c0 k0 st] by blast
    have dom: "nodes (fst z) j = None \<longleftrightarrow> nodes (fst x) j = None" for j
      using z(4) z(5) [of j] st by (cases "j = k") auto
    have "j \<in> dom (nodes (fst z)) \<longleftrightarrow> j \<in> dom (nodes (fst x))" for j using dom [of j] by (simp add: domIff)
    then have "dom (nodes (fst z)) = dom (nodes (fst x))" by blast
    then have "map fst (m_idtonode (fst z)) = map fst (m_idtonode (fst x))"
      using sorted_ids [OF co_okD(2) [OF ok]] sorted_ids [OF co_okD(2) [OF inv_co [OF z(2)]]] by simp
    then have nxt: "next_id k (m_idtonode (fst z)) = next_id k (m_idtonode (fst x))" by (rule next_id_fst)
    obtain y where y: "serve_one run k z = Inr y" "inv y" "control (fst y) = 0"
        "\<forall>j. j \<noteq> k \<longrightarrow> node_state (fst y) j = node_state (fst z) j"
        "ScheduleAll_loop run (Some k) z = ScheduleAll_loop run (next_id k (m_idtonode (fst z))) y"
      using serve_settled [OF z(2,3), of k] z(4) dom kn by blast
    have "serve_one run k x = serve_one run k z"
      using k0 st z(1,4) by (auto simp: serve_one_def Switch_result [OF ok])
    moreover have "ScheduleAll_loop run (Some k) x = ScheduleAll_loop run (Some k) z"
      using k0 c False z(1)
      by (subst ScheduleAll_loop.simps) (simp add: Get_nodes [OF ok] Switch_result [OF ok])
    ultimately show ?thesis using y z(5) nxt by (intro exI [of _ y]) auto
  qed
qed

lemma loop_serves:
  assumes "inv x" and "control (fst x) = 0" and "nodes (fst x) k \<noteq> None"
  shows "ScheduleAll_loop run (Some k) x = Some (serve_all run (sorted_list_of_set (later k x)) x)"
  using assms
proof (induction "card (later k x)" arbitrary: k x rule: less_induct)
  case less
  obtain y where y: "serve_one run k x = Inr y" "inv y" "control (fst y) = 0"
      "\<And>j. j \<noteq> k \<Longrightarrow> node_state (fst y) j = node_state (fst x) j"
      "ScheduleAll_loop run (Some k) x = ScheduleAll_loop run (next_id k (m_idtonode (fst x))) y"
    using serve_visited [OF less.prems] by blast
  have dom: "nodes (fst y) j = None \<longleftrightarrow> nodes (fst x) j = None" if "j \<noteq> k" for j
    using y(4) [OF that] by (metis option.map_disc_iff)
  show ?case
  proof (cases "next_id k (m_idtonode (fst x))")
    case None
    then show ?thesis
      using y(1,5) later_step [OF less.prems(1,3)] by (simp add: ScheduleAll_loop.simps)
  next
    case (Some j)
    then have j: "nodes (fst x) j \<noteq> None" "k < j"
      using next_id_Some [OF co_okD(2) [OF inv_co [OF less.prems(1)]] Some] by (auto simp: keys_eq [OF less.prems(1)])
    have "i \<in> later j y \<longleftrightarrow> i \<in> later j x" for i
      using dom [of i] j(2) by (cases "i = k") (auto simp: domIff)
    then have same: "later j y = later j x" by blast
    have "k \<in> later k x - later j y" using less.prems(3) j(2) by auto
    moreover have "later j y \<subseteq> later k x" unfolding same using j(2) by auto
    ultimately have "card (later j y) < card (later k x)"
      by (intro psubset_card_mono [OF later_finite]) blast
    then have "ScheduleAll_loop run (Some j) y = Some (serve_all run (sorted_list_of_set (later j y)) y)"
      using less.hyps [of y j] y(2,3) dom [of j] j by simp
    then show ?thesis
      using y(1,5) Some later_step [OF less.prems(1,3)] same by simp
  qed
qed

lemma pass_serves:
  assumes inv: "inv x" and c0: "control (fst x) = 0"
  shows "ScheduleAll run x = Some (serve_all run (map fst (m_idtonode (fst x))) x)"
proof (cases "first_id (m_idtonode (fst x))")
  case None
  then have "m_idtonode (fst x) = []" by (auto simp: first_id_def split: list.splits)
  then show ?thesis using co_okD(5) [OF inv_co [OF inv]] by simp
next
  case (Some k)
  have sorted: "sm_sorted (m_idtonode (fst x))" by (rule co_okD(2) [OF inv_co [OF inv]])
  have k: "nodes (fst x) k \<noteq> None" and least: "nodes (fst x) i \<noteq> None \<Longrightarrow> k \<le> i" for i
    using first_id_least [OF sorted Some] by (auto simp: keys_eq [OF inv])
  have "later k x = dom (nodes (fst x))" using least by auto
  then have "sorted_list_of_set (later k x) = map fst (m_idtonode (fst x))"
    using sorted_ids [OF sorted] by simp
  then show ?thesis
    using loop_serves [OF inv c0 k] Some by (simp add: ScheduleAll_def)
qed

end

text \<open>
  C4: A pass is a plain loop: for all callbacks within the contract, \<^verbatim>\<open>ScheduleAll\<close>, with its iterator
  into the table that changes under it, does exactly what serving each coroutine once does, in
  ascending order of the ids there are at the start.
\<close>

theorem pass_is_fold:
  assumes "runtime_inv procs x" and "control (fst x) = 0"
  shows "ScheduleAll (run_coroutine procs) x =
    Some (serve_all (run_coroutine procs) (map fst (m_idtonode (fst x))) x)"
  by (rule runtime.pass_serves [OF assms])

theorem pass_is_fold_witness:
  "ScheduleAll (run_coroutine example_procs) (example_sleeping, example_stacks) =
    Some (serve_all (run_coroutine example_procs) (map fst (m_idtonode example_sleeping)) (example_sleeping, example_stacks))"
proof -
  have "loop_inv example_procs (example_sleeping, example_stacks)"
    using example_loop_inv [of "clock example_sleeping"] by simp
  then show ?thesis
    using pass_is_fold [of example_procs "(example_sleeping, example_stacks)"] by (simp add: loop_inv_def event_inv_def)
qed

end
