(* ===== verification/Rounds.thy ===== *)
theory Rounds
  imports Relay Pass
begin

section \<open>The example programs round by round\<close>

text \<open>
  What the two servers do in one round of their main loops, from the event or the timer that starts
  it to the end of the scheduler pass: \<^verbatim>\<open>test2\<close> takes a request and puts it to sleep, \<^verbatim>\<open>test2\<close> answers
  one that is due, and \<^verbatim>\<open>test1\<close> relays the answer. The first part is about passes that find one
  coroutine with something to do; unlike in \<open>Pass\<close>, nothing is asked of the stacks of the others.
\<close>

subsection \<open>A pass with one coroutine to serve\<close>

definition all_asleep :: "(u32, CoroutineContext) smap \<Rightarrow> bool" where
  "all_asleep m \<longleftrightarrow> (\<forall>(j, c) \<in> set m. j = 0 \<or> m_state c = E_WAIT)"

lemma all_asleep_simps [simp]:
  "all_asleep []" "all_asleep ((j, c) # m) \<longleftrightarrow> (j = 0 \<or> m_state c = E_WAIT) \<and> all_asleep m"
  by (simp_all add: all_asleep_def)

text \<open>The iterator after an entry.\<close>

lemma next_id_append: "\<forall>j \<in> fst ` set pre. j \<le> k \<Longrightarrow> next_id k (pre @ m) = next_id k m"
  by (induction pre) auto

lemma next_id_at:
  assumes "sm_sorted (pre @ (k, c) # post)"
  shows "next_id k (pre @ (k, c) # post) = first_id post"
proof -
  have pre: "\<forall>j \<in> fst ` set pre. j \<le> k" and post: "\<forall>j \<in> fst ` set post. k < j"
    using assms by (auto simp: sm_ok_append sm_ok_Cons intro: less_imp_le)
  have "next_id k (pre @ (k, c) # post) = next_id k ((k, c) # post)" by (rule next_id_append [OF pre])
  also have "\<dots> = first_id post" using post by (cases post) (auto simp: first_id_def)
  finally show ?thesis .
qed

lemma first_id_Cons [simp]: "first_id ((k, c) # m) = Some k" "first_id [] = None"
  by (simp_all add: first_id_def)

text \<open>The loop passes over sleepers.\<close>

lemma loop_skip:
  assumes "co_ok (fst x)" and "m_idtonode (fst x) = pre @ mid @ post" and "all_asleep mid"
  shows "ScheduleAll_loop run (first_id (mid @ post)) x = ScheduleAll_loop run (first_id post) x"
  using assms(2,3)
proof (induction mid arbitrary: pre)
  case (Cons e mid)
  obtain k c where e: "e = (k, c)" by (cases e)
  have sorted: "sm_sorted (pre @ (k, c) # mid @ post)"
    using co_okD(2) [OF assms(1)] Cons.prems(1) by (simp add: e)
  have nxt: "next_id k (m_idtonode (fst x)) = first_id (mid @ post)"
    using next_id_at [OF sorted] Cons.prems(1) by (simp add: e)
  have "(k, c) \<in> set (m_idtonode (fst x))" using Cons.prems(1) by (simp add: e)
  then have "nodes (fst x) k = Some c" using map_of_in_set [OF co_okD(2) [OF assms(1)]] by simp
  then have "ScheduleAll_loop run (Some k) x = ScheduleAll_loop run (first_id (mid @ post)) x"
    using Cons.prems(2) nxt
    by (subst ScheduleAll_loop.simps) (auto simp: e Get_nodes [OF assms(1)])
  moreover have "\<dots> = ScheduleAll_loop run (first_id post) x"
    using Cons.IH [of "pre @ [(k, c)]"] Cons.prems by (simp add: e)
  ultimately show ?case by (simp add: e)
qed simp

lemma asleep_split:
  assumes "co_ok s" and "nodes s k = Some c" and "k \<noteq> 0"
    and "\<And>j. j \<noteq> 0 \<Longrightarrow> j \<noteq> k \<Longrightarrow> node_state s j = None \<or> node_state s j = Some E_WAIT"
  shows "\<exists>pre post. m_idtonode s = pre @ (k, c) # post \<and> all_asleep pre \<and> all_asleep post"
proof -
  obtain pre post where m: "m_idtonode s = pre @ (k, c) # post"
    using map_of_SomeD [OF assms(2)] by (meson split_list)
  note sorted = co_okD(2) [OF assms(1)]
  have "j = 0 \<or> m_state e = E_WAIT" if "(j, e) \<in> set pre \<union> set post" for j e
  proof -
    have "(j, e) \<in> set (m_idtonode s)" using that m by auto
    then have "nodes s j = Some e" using map_of_in_set [OF sorted] by simp
    moreover have "j \<noteq> k" using sm_sorted_distinct [OF sorted] that unfolding m by force
    ultimately show ?thesis using assms(4) [of j] by auto
  qed
  then show ?thesis using m by (intro exI [of _ pre] exI [of _ post]) (auto simp: all_asleep_def)
qed

lemma erase_at:
  assumes "sm_sorted (pre @ (k, c) # post)"
  shows "sm_erase (<) k (pre @ (k, c) # post) = pre @ post"
proof -
  have "\<And>e. e \<in> set pre \<Longrightarrow> fst e < k" using assms by (auto simp: sm_ok_append)
  then have "sm_before (<) k (pre @ (k, c) # post) = pre" "sm_lower_bound (<) k (pre @ (k, c) # post) = (k, c) # post"
    by (simp_all add: sm_before_def sm_lower_bound_def)
  then show ?thesis by (simp add: sm_erase_def sm_entry_def)
qed

text \<open>At the one that is not asleep, or no longer so.\<close>

lemma loop_finishes:
  assumes ok: "co_ok s" and c0: "control s = 0" and k: "k \<noteq> 0" "nodes s k = Some c" "m_state c \<noteq> E_READY"
    and others: "\<And>j. j \<noteq> 0 \<Longrightarrow> j \<noteq> k \<Longrightarrow> node_state s j = None \<or> node_state s j = Some E_WAIT"
  shows "ScheduleAll_loop run (Some k) (s, ks) =
    Some (Inr (if m_state c = E_END then fst (CoroutineMgr_Destroy k s) else s, ks))"
proof -
  obtain pre post where m: "m_idtonode s = pre @ (k, c) # post" "all_asleep pre" "all_asleep post"
    using asleep_split [OF ok k(2,1) others] by blast
  have sorted: "sm_sorted (pre @ (k, c) # post)" using co_okD(2) [OF ok] m(1) by simp
  have nxt: "next_id k (m_idtonode s) = first_id post" using next_id_at [OF sorted] m(1) by simp
  have none: "ScheduleAll_loop run None x = Some (Inr x)" for x by (simp add: ScheduleAll_loop.simps)
  show ?thesis
  proof (cases "m_state c = E_END")
    case True
    obtain s' where s': "CoroutineMgr_Destroy k s = (s', IO_OK)" "co_ok s'" "m_idtonode s' = sm_erase (<) k (m_idtonode s)"
      using Destroy_result [OF ok k(1)] c0 k True by auto
    have "sm_erase (<) k (m_idtonode s) = pre @ post"
      unfolding m(1) by (rule erase_at [OF sorted])
    then have "ScheduleAll_loop run (first_id post) (s', ks) = Some (Inr (s', ks))"
      using loop_skip [of "(s', ks)" pre post "[]" run] s'(2,3) m(3) none by simp
    moreover have "ScheduleAll_loop run (Some k) (s, ks) = ScheduleAll_loop run (first_id post) (s', ks)"
      using k True nxt s'(1) co_okD(6) [OF ok k(2)]
      by (subst ScheduleAll_loop.simps) (simp add: Get_nodes [OF ok])
    ultimately show ?thesis using True s'(1) by simp
  next
    case False
    then have "m_state c = E_WAIT" using k(3) by (cases "m_state c") simp_all
    then have "ScheduleAll_loop run (Some k) (s, ks) = ScheduleAll_loop run (first_id post) (s, ks)"
      using loop_skip [of "(s, ks)" pre "[(k, c)]" post run] ok m(1) by simp
    also have "\<dots> = Some (Inr (s, ks))"
      using loop_skip [of "(s, ks)" "pre @ [(k, c)]" post "[]" run] ok m(1,3) none by simp
    finally show ?thesis using False by simp
  qed
qed

lemma pass_reaches:
  assumes ok: "co_ok s" and k: "k \<noteq> 0" "nodes s k = Some c"
    and others: "\<And>j. j \<noteq> 0 \<Longrightarrow> j \<noteq> k \<Longrightarrow> node_state s j = None \<or> node_state s j = Some E_WAIT"
  shows "ScheduleAll run (s, ks) = ScheduleAll_loop run (Some k) (s, ks)"
proof -
  obtain pre post where m: "m_idtonode s = pre @ (k, c) # post" "all_asleep pre"
    using asleep_split [OF ok k(2,1) others] by blast
  show ?thesis
    using loop_skip [of "(s, ks)" "[]" pre "(k, c) # post" run] ok m by (simp add: ScheduleAll_def)
qed

text \<open>The pass as a whole, when one coroutine is ready, and when one has ended.\<close>

lemma pass_one_ready:
  assumes ok: "co_ok s" and k: "k \<noteq> 0" "node_state s k = Some E_READY"
    and others: "\<And>j. j \<noteq> 0 \<Longrightarrow> j \<noteq> k \<Longrightarrow> node_state s j = None \<or> node_state s j = Some E_WAIT"
    and run: "run k (s\<lparr>m_active := Some k, control := k\<rparr>, ks) = Inr (t, ls)"
    and t: "co_ok t" "control t = 0" "nodes t k = Some c" "m_state c \<noteq> E_READY"
      "\<And>j. j \<noteq> k \<Longrightarrow> node_state t j = node_state s j"
  shows "ScheduleAll run (s, ks) = Some (Inr (if m_state c = E_END then fst (CoroutineMgr_Destroy k t) else t, ls))"
proof -
  obtain b where b: "nodes s k = Some b" "m_state b = E_READY" using k(2) by auto
  have others': "node_state t j = None \<or> node_state t j = Some E_WAIT" if "j \<noteq> 0" "j \<noteq> k" for j
    using others [OF that] t(5) [OF that(2)] by simp
  have "ScheduleAll run (s, ks) = ScheduleAll_loop run (Some k) (s, ks)"
    by (rule pass_reaches [OF ok k(1) b(1) others])
  also have "\<dots> = ScheduleAll_loop run (Some k) (t, ls)"
    using k(1) b run by (subst ScheduleAll_loop.simps) (simp add: Get_nodes [OF ok] Switch_result [OF ok])
  also have "\<dots> = Some (Inr (if m_state c = E_END then fst (CoroutineMgr_Destroy k t) else t, ls))"
    by (rule loop_finishes [OF t(1,2) k(1) t(3,4) others'])
  finally show ?thesis .
qed

lemma pass_one_ended:
  assumes ok: "co_ok s" and c0: "control s = 0" and k: "k \<noteq> 0" "node_state s k = Some E_END"
    and others: "\<And>j. j \<noteq> 0 \<Longrightarrow> j \<noteq> k \<Longrightarrow> node_state s j = None \<or> node_state s j = Some E_WAIT"
  shows "ScheduleAll run (s, ks) = Some (Inr (fst (CoroutineMgr_Destroy k s), ks))"
proof -
  obtain c where c: "nodes s k = Some c" "m_state c = E_END" using k(2) by auto
  show ?thesis
    using pass_reaches [where run = run and ks = ks, OF ok k(1) c(1) others]
      loop_finishes [where run = run and ks = ks, OF ok c0 k(1) c(1) _ others] c(2) by simp
qed

subsection \<open>A run, and a round, of one coroutine\<close>

lemma run_to_end:
  fixes u :: world
  assumes u: "co_ok u" "control u = k" "nodes u k = Some c" "m_state c = E_READY"
    and f: "(case ks k of Some f \<Rightarrow> f | None \<Rightarrow> enter procs k) u = Return r v"
    and v: "co_ok v" "control v = k" "nodes v = nodes u" "timers v = timers u"
  shows "\<exists>w'. run_coroutine procs k (u, ks) = Inr (w', ks(k \<mapsto> dead_stack)) \<and> co_ok w' \<and> control w' = 0 \<and>
    nodes w' = (nodes u)(k \<mapsto> c\<lparr>m_state := E_END\<rparr>) \<and> timers w' = timers u \<and>
    calls w' = calls v \<and> head_id w' = head_id v \<and> m_fd_to_data w' = m_fd_to_data v"
proof -
  have c: "nodes v (control v) = Some c" "m_state c \<noteq> E_WAIT" using u(2-4) v(2,3) by simp_all
  obtain w' where w': "Entry_end v = Inr w'" "co_ok w'" "nodes w' = (nodes v)(control v \<mapsto> c\<lparr>m_state := E_END\<rparr>)"
      "timers w' = timers v" "control w' = 0"
    using Entry_end_result [OF v(1) c] by blast
  then show ?thesis
    using f v Entry_end_world_frame [OF w'(1)] by (intro exI [of _ w']) (simp add: run_coroutine_def finish_run_def)
qed

lemma run_to_wait:
  fixes u :: world
  assumes u: "co_ok u" "control u = k" "nodes u k = Some c"
    and f: "(case ks k of Some f \<Rightarrow> f | None \<Rightarrow> enter procs k) u = Wait ms v f'"
    and v: "co_ok v" "control v = k" "nodes v = nodes u" "timers v = timers u"
  shows "\<exists>w'. run_coroutine procs k (u, ks) = Inr (w', ks(k \<mapsto> f')) \<and> co_ok w' \<and> control w' = 0 \<and>
    nodes w' = (nodes u)(k \<mapsto> c\<lparr>m_state := E_WAIT\<rparr>) \<and> timers w' = (timers u)(k \<mapsto> CExpireMgr_now v + ucast ms) \<and>
    calls w' = calls v \<and> head_id w' = head_id v \<and> m_fd_to_data w' = m_fd_to_data v \<and> clock w' = clock v"
proof -
  have c: "nodes v (control v) = Some c" using u(2,3) v(2,3) by simp
  obtain w' where w': "CoroutineMgr_WaitAndSchedule ms v = Inr w'" "co_ok w'"
      "nodes w' = (nodes v)(control v \<mapsto> c\<lparr>m_state := E_WAIT\<rparr>)"
      "timers w' = (timers v)(control v \<mapsto> CExpireMgr_now v + ucast ms)" "control w' = 0" "clock w' = clock v"
    using WaitAndSchedule_result [OF v(1) c] by blast
  then show ?thesis
    using f v Wait_world_frame [OF w'(1)] by (intro exI [of _ w']) (simp add: run_coroutine_def finish_run_def)
qed

lemma enter_runs:
  assumes "co_ok u" and "control u = k" and "nodes u k = Some c" and "m_cb (m_req c) \<noteq> 0"
  shows "enter procs k u = procs (m_cb (m_req c)) k u"
proof -
  have "CoroutineMgr_SetActive k u = u"
    using co_okD(3) [OF assms(1)] assms(2) by (simp add: CoroutineMgr_SetActive_def)
  then show ?thesis using assms by (simp add: enter_def Entry_begin_def Get_nodes)
qed

text \<open>The end of a round in which coroutine \<open>k\<close> has ended: it is destroyed and its stack freed.\<close>

lemma destroyed:
  fixes t :: world
  assumes "co_ok t" and "control t = 0" and "k \<noteq> 0" and "nodes t = N(k \<mapsto> c)" and "m_state c = E_END" and "dom ks \<subseteq> dom N"
  shows "\<exists>w'. free_stacks (fst (CoroutineMgr_Destroy k t), ks(k \<mapsto> g)) = (w', ks(k := None)) \<and> nodes w' = N(k := None) \<and>
    timers w' = timers t \<and> calls w' = calls t \<and> head_id w' = head_id t \<and> m_fd_to_data w' = m_fd_to_data t \<and>
    co_ok w' \<and> control w' = 0"
proof -
  have st: "node_state t k = Some E_END" "k \<noteq> control t" using assms(2-5) by simp_all
  let ?w = "t\<lparr>m_idtonode := sm_erase (<) k (m_idtonode t)\<rparr>"
  have w: "fst (CoroutineMgr_Destroy k t) = ?w" and ok: "co_ok (fst (CoroutineMgr_Destroy k t))"
    using Destroy_result [OF assms(1,3) st(2,1)] by (auto simp: CoroutineMgr_Destroy_def split: option.splits)
  have n: "nodes ?w = N(k := None)" using co_okD(2) [OF assms(1)] assms(4) by (simp add: sm_erase_lin)
  have stacks: "ks(k \<mapsto> g) |` dom (N(k := None)) = ks(k := None)"
  proof
    fix j
    have "N j = None \<Longrightarrow> ks j = None" using assms(6) by (meson domIff subsetD)
    then show "(ks(k \<mapsto> g) |` dom (N(k := None))) j = (ks(k := None)) j" by (auto simp: restrict_map_def)
  qed
  have "free_stacks (?w, ks(k \<mapsto> g)) = (?w, ks(k := None))"
    unfolding free_stacks_def fst_conv snd_conv n stacks ..
  then show ?thesis using n ok assms(2) unfolding w by (intro exI [of _ ?w]) simp
qed

text \<open>A round that the timer of \<open>k\<close> starts and in which \<open>k\<close> ends.\<close>

lemma due_turn_ends:
  assumes w: "co_ok w" "control w = 0" "timers w 0 = None" "asleep w" "dom ks \<subseteq> dom (nodes w)"
    and due: "timers w k = Some e" "e \<le> CExpireMgr_now w" "\<And>j e'. timers w j = Some e' \<Longrightarrow> e < e' \<or> e = e' \<and> k \<le> j"
    and f: "ks k = Some f" "nodes w k = Some c"
      "\<And>u :: world. co_ok u \<Longrightarrow> control u = k \<Longrightarrow> nodes u k = Some (c\<lparr>m_state := E_READY\<rparr>) \<Longrightarrow> calls u = calls w \<Longrightarrow>
        clock u = clock w \<Longrightarrow> head_id u = head_id w \<Longrightarrow> m_fd_to_data u = m_fd_to_data w \<Longrightarrow>
        \<exists>r v. f u = Return r v \<and> co_ok v \<and> control v = control u \<and> nodes v = nodes u \<and> timers v = timers u \<and>
          calls v = calls w @ cs \<and> head_id v = h \<and> m_fd_to_data v = F"
  shows "\<exists>w'. main_turn os code raw procs (w, ks) = Some (Inr (w', ks(k := None))) \<and> calls w' = calls w @ cs \<and>
    nodes w' = (nodes w)(k := None) \<and> timers w' = (timers w)(k := None) \<and> head_id w' = h \<and> m_fd_to_data w' = F"
proof -
  obtain i e' c' w0 where i: "timers w i = Some e'" "i \<noteq> 0" "\<forall>j e''. timers w j = Some e'' \<longrightarrow> e' < e'' \<or> e' = e'' \<and> i \<le> j"
      and w0: "CoroutineMgr_SetReady i w = Inr w0" "co_ok w0" "nodes w i = Some c'"
        "nodes w0 = (nodes w)(i \<mapsto> c'\<lparr>m_state := E_READY\<rparr>)" "timers w0 = (timers w)(i := None)"
        "RunOnce os code raw (run_coroutine procs) (w, ks) =
          bind_res (run_coroutine procs i (w0\<lparr>m_active := Some i, control := i\<rparr>, ks)) (\<lambda>y. Inr (y, IO_OK))"
    using RunOnce_due [OF w(1,3) due(1,2), of os code raw "run_coroutine procs" ks]
    by (elim exE conjE) (rule that; assumption)
  have ik: "i = k" using i(3) [rule_format, OF due(1)] due(3) [OF i(1)] by auto
  have c: "c' = c" using w0(3) f(2) ik by simp
  have ck: "clock w0 = clock w" using SetReady_result [OF w(1) w0(3)] w0(1) by auto
  let ?u = "w0\<lparr>m_active := Some k, control := k\<rparr>"
  have u: "co_ok ?u" using Schedule_result(2) [OF w0(2), of k] w0(4) ik by simp
  have un: "nodes ?u k = Some (c\<lparr>m_state := E_READY\<rparr>)" "nodes ?u = (nodes w)(k \<mapsto> c\<lparr>m_state := E_READY\<rparr>)"
    using w0(4) ik c by simp_all
  obtain r v where v: "f ?u = Return r v" "co_ok v" "control v = control ?u" "nodes v = nodes ?u" "timers v = timers ?u"
      "calls v = calls w @ cs" "head_id v = h" "m_fd_to_data v = F"
    using f(3) [of ?u] u un SetReady_world_frame [OF w0(1)] ck by auto
  obtain t where t: "run_coroutine procs k (?u, ks) = Inr (t, ks(k \<mapsto> dead_stack))" "co_ok t" "control t = 0"
      "nodes t = (nodes ?u)(k \<mapsto> c\<lparr>m_state := E_READY\<rparr>\<lparr>m_state := E_END\<rparr>)" "timers t = timers ?u"
      "calls t = calls v" "head_id t = head_id v" "m_fd_to_data t = m_fd_to_data v"
    using run_to_end [where ks = ks and procs = procs and r = r and v = v, OF u _ un(1)] v f(1) by auto
  have tn: "nodes t = (nodes w)(k \<mapsto> c\<lparr>m_state := E_END\<rparr>)" using t(4) un(2) by simp
  have pass: "ScheduleAll (run_coroutine procs) (t, ks(k \<mapsto> dead_stack)) =
      Some (Inr (fst (CoroutineMgr_Destroy k t), ks(k \<mapsto> dead_stack)))"
    by (rule pass_one_ended [OF t(2,3)]) (use i(2) ik tn w(4) in \<open>auto simp: asleep_def\<close>)
  obtain w' where w': "free_stacks (fst (CoroutineMgr_Destroy k t), ks(k \<mapsto> dead_stack)) = (w', ks(k := None))"
      "nodes w' = (nodes w)(k := None)" "timers w' = timers t" "calls w' = calls t" "head_id w' = head_id t"
      "m_fd_to_data w' = m_fd_to_data t"
    using destroyed [OF t(2,3) _ tn _ w(5), of dead_stack] i(2) ik by auto
  show ?thesis
    using w' t(1,5-8) v(6-8) pass w0(5,6) ik
    by (intro exI [of _ w']) (simp add: main_turn_def)
qed

subsection \<open>A round that starts with an event\<close>

text \<open>
  No timer is due. The call in which a round then waits for events; and what the system answers when
  the one event is that bytes \<open>bs\<close> can be read from descriptor \<open>n\<close>, all of which one \<^verbatim>\<open>recv\<close> returns.
\<close>

definition quiet :: "world \<Rightarrow> bool" where
  "quiet w \<longleftrightarrow> (\<forall>i e. timers w i = Some e \<longrightarrow> CExpireMgr_now w < e)"

definition poll_call :: "world \<Rightarrow> syscall" where
  "poll_call w = Sys_epoll_wait 99 (to_int (fst (CExpireMgr_NextWaitTime w)))"

definition delivers :: "os \<Rightarrow> world \<Rightarrow> int \<Rightarrow> u8 list \<Rightarrow> bool" where
  "delivers os w n bs \<longleftrightarrow> ret (os (calls w) (poll_call w)) = 1 \<and>
     (\<exists>ev. ret_events (os (calls w) (poll_call w)) = [(n, ev)] \<and> CanRead ev) \<and>
     ret (os (calls w @ [poll_call w]) (Sys_recv n 1024)) = int (length bs) \<and>
     ret_bytes (os (calls w @ [poll_call w]) (Sys_recv n 1024)) = bs"

lemma RunOnce_event:
  assumes "CExpireMgr_NextWaitTime w = (ms, 0)" and "a = os (calls w) (Sys_epoll_wait 99 (to_int ms))"
    and "ret a = 1" and "ret_events a = [ev]"
  shows "RunOnce os code raw run (w, ks) =
    bind_res (process_event os code raw ev (snd (sys os (Sys_epoll_wait 99 (to_int ms)) w))) (\<lambda>w2. Inr ((w2, ks), IO_OK))"
  using assms
  by (cases "process_event os code raw ev (snd (sys os (Sys_epoll_wait 99 (to_int ms)) w))")
    (simp_all add: RunOnce_def NUM_100_def case_prod_beta Let_def)

lemma event_reads:
  assumes "CFdMgr_Get n w = Some key" and "fd_read key w = Some d" and "fd_state d = E_SERVER_CONN \<or> fd_state d = E_OTHER"
    and "port_type d = PORT_TCP" and "CanRead ev"
  shows "process_event os code raw (n, ev) w = bind_res (DoReadTcp os code n key w) (\<lambda>r. Inr (fst r))"
  using assms by (auto simp: process_event_def IsListenFd_def)

lemma Get_sys [simp]: "CFdMgr_Get n (snd (sys os c w)) = CFdMgr_Get n w"
  by (simp add: CFdMgr_Get_def CFdMgr_Exist_def)

lemma turn_reads:
  assumes "co_ok w" and "quiet w" and "delivers os w n bs" and "w1 = snd (sys os (poll_call w) w)"
    and "CFdMgr_Get n w = Some key" and "fd_read key w = Some d" and "fd_state d = E_SERVER_CONN \<or> fd_state d = E_OTHER"
    and "port_type d = PORT_TCP" and "DoReadTcp os code n key w1 = Inr (w2, r)"
  shows "main_turn os code raw procs (w, ks) =
    map_option (\<lambda>z. bind_res z (\<lambda>z. Inr (free_stacks z))) (ScheduleAll (run_coroutine procs) (w2, ks))"
proof -
  obtain ev where ev: "ret_events (os (calls w) (poll_call w)) = [(n, ev)]" "CanRead ev"
    using assms(3) by (auto simp: delivers_def)
  have "CExpireMgr_NextWaitTime w = (fst (CExpireMgr_NextWaitTime w), 0)"
    using next_idle [OF co_okD(1) [OF assms(1)]] assms(2) by (simp add: quiet_def prod_eq_iff)
  from RunOnce_event [OF this refl, of os "(n, ev)" code raw "run_coroutine procs" ks]
  have "RunOnce os code raw (run_coroutine procs) (w, ks) = Inr ((w2, ks), IO_OK)"
    using event_reads [of n w1 key d ev os code raw] assms(3-9) ev
    by (simp add: delivers_def fd_read_def poll_call_def [symmetric])
  then show ?thesis by (simp add: main_turn_def)
qed

text \<open>What was read, when the bytes are a package.\<close>

lemma delivered_package:
  assumes "recv_documented os" and "delivers os w n (pkg_data rq)" and "w1 = snd (sys os (poll_call w) w)"
    and "pb_roundtrip p" and "HeadPkg_Encode p pkg cid = (rq, cid')"
  shows "ret_bytes (recv_answer os n w1) = pkg_data rq" and "ret (recv_answer os n w1) = int (length (pkg_data rq))"
    and "0 < length (pkg_data rq)" and "length (pkg_data rq) < 2 ^ 31"
    and "checked_size os (program_code p) HeadPkg_Check_ptr n w1 = int (length (pkg_data rq))"
    and "program_code p HeadPkg_Seq_ptr (m_data (recv_buffer os n w1)) (word_of_int (int (length (pkg_data rq)))) = u32_to_int (cid + 1)"
proof -
  show a: "ret_bytes (recv_answer os n w1) = pkg_data rq" "ret (recv_answer os n w1) = int (length (pkg_data rq))"
    using assms(2) by (simp_all add: delivers_def recv_answer_def assms(3))
  show ne: "0 < length (pkg_data rq)" using assms(5) by (auto simp: HeadPkg_Encode_def Let_def bytes32_def)
  then have "0 < ret (recv_answer os n w1)" using a(2) by simp
  then show len: "length (pkg_data rq) < 2 ^ 31" using recv_buffer_ok(1) [OF assms(1), of n w1] a(1) by simp
  have "recv_buffer os n w1 = \<lparr>m_data = pkg_data rq @ replicate (1024 - length (pkg_data rq)) 0, m_offset = of_nat (length (pkg_data rq))\<rparr>"
    by (simp add: recv_buffer_def a(1))
  then show "checked_size os (program_code p) HeadPkg_Check_ptr n w1 = int (length (pkg_data rq))"
    "program_code p HeadPkg_Seq_ptr (m_data (recv_buffer os n w1)) (word_of_int (int (length (pkg_data rq)))) = u32_to_int (cid + 1)"
    using Encode_result [OF assms(4,5) len refl, of "replicate (1024 - length (pkg_data rq)) 0" HeadPkg_new]
    by (simp_all add: checked_size_def program_code_def ptr_defs)
qed

text \<open>The pass after it, when the event has made \<open>k\<close> ready, and \<open>k\<close> waits, or ends.\<close>

lemma pass_waits:
  fixes s :: world
  assumes s: "co_ok s" "control s = 0" "nodes s = N(k \<mapsto> c)" "m_state c = E_READY" and k: "k \<noteq> 0"
    and others: "\<And>j. j \<noteq> 0 \<Longrightarrow> j \<noteq> k \<Longrightarrow> node_state s j = None \<or> node_state s j = Some E_WAIT"
    and ks: "dom ks \<subseteq> insert k (dom N)"
    and f: "(case ks k of Some f \<Rightarrow> f | None \<Rightarrow> enter procs k) (s\<lparr>m_active := Some k, control := k\<rparr>) = Wait ms v f'"
    and v: "co_ok v" "control v = k" "nodes v = nodes s" "timers v = timers s"
  shows "\<exists>w'. map_option (\<lambda>z. bind_res z (\<lambda>z. Inr (free_stacks z))) (ScheduleAll (run_coroutine procs) (s, ks)) =
      Some (Inr (w', ks(k \<mapsto> f'))) \<and> nodes w' = N(k \<mapsto> c\<lparr>m_state := E_WAIT\<rparr>) \<and>
    timers w' = (timers s)(k \<mapsto> CExpireMgr_now v + ucast ms) \<and> calls w' = calls v \<and> head_id w' = head_id v \<and>
    m_fd_to_data w' = m_fd_to_data v \<and> co_ok w' \<and> control w' = 0 \<and> clock w' = clock v"
proof -
  let ?u = "s\<lparr>m_active := Some k, control := k\<rparr>"
  have u: "co_ok ?u" "nodes ?u k = Some c" using Schedule_result(2) [OF s(1), of k] s(3) by simp_all
  obtain w' where w': "run_coroutine procs k (?u, ks) = Inr (w', ks(k \<mapsto> f'))" "co_ok w'" "control w' = 0"
      "nodes w' = (nodes ?u)(k \<mapsto> c\<lparr>m_state := E_WAIT\<rparr>)" "timers w' = (timers ?u)(k \<mapsto> CExpireMgr_now v + ucast ms)"
      "calls w' = calls v" "head_id w' = head_id v" "m_fd_to_data w' = m_fd_to_data v" "clock w' = clock v"
    using run_to_wait [where ks = ks and procs = procs, OF u(1) _ u(2) f v(1,2)] v(3,4) by auto
  have n: "nodes w' = N(k \<mapsto> c\<lparr>m_state := E_WAIT\<rparr>)" using w'(4) s(3) by simp
  have "ScheduleAll (run_coroutine procs) (s, ks) =
      Some (Inr (if m_state (c\<lparr>m_state := E_WAIT\<rparr>) = E_END then fst (CoroutineMgr_Destroy k w') else w', ks(k \<mapsto> f')))"
    by (rule pass_one_ready [where run = "run_coroutine procs" and ks = ks, OF s(1) k _ others w'(1-3)]) (use s(3,4) n in simp_all)
  moreover have "ks(k \<mapsto> f') |` dom (N(k \<mapsto> c\<lparr>m_state := E_WAIT\<rparr>)) = ks(k \<mapsto> f')"
  proof
    fix j
    have "N j = None \<Longrightarrow> j \<noteq> k \<Longrightarrow> ks j = None" using ks by (meson domIff insertE subsetD)
    then show "(ks(k \<mapsto> f') |` dom (N(k \<mapsto> c\<lparr>m_state := E_WAIT\<rparr>))) j = (ks(k \<mapsto> f')) j" by (auto simp: restrict_map_def)
  qed
  then have "free_stacks (w', ks(k \<mapsto> f')) = (w', ks(k \<mapsto> f'))"
    unfolding free_stacks_def fst_conv snd_conv n by (rule arg_cong)
  ultimately show ?thesis
    using n w'(2,3,5-9) by (intro exI [of _ w']) simp
qed

lemma pass_ends:
  fixes s :: world
  assumes s: "co_ok s" "control s = 0" "nodes s = N(k \<mapsto> c)" "m_state c = E_READY" and k: "k \<noteq> 0"
    and others: "\<And>j. j \<noteq> 0 \<Longrightarrow> j \<noteq> k \<Longrightarrow> node_state s j = None \<or> node_state s j = Some E_WAIT"
    and ks: "dom ks \<subseteq> dom N"
    and f: "(case ks k of Some f \<Rightarrow> f | None \<Rightarrow> enter procs k) (s\<lparr>m_active := Some k, control := k\<rparr>) = Return r v"
    and v: "co_ok v" "control v = k" "nodes v = nodes s" "timers v = timers s"
  shows "\<exists>w'. map_option (\<lambda>z. bind_res z (\<lambda>z. Inr (free_stacks z))) (ScheduleAll (run_coroutine procs) (s, ks)) =
      Some (Inr (w', ks(k := None))) \<and> nodes w' = N(k := None) \<and> timers w' = timers s \<and> calls w' = calls v \<and>
    head_id w' = head_id v \<and> m_fd_to_data w' = m_fd_to_data v \<and> co_ok w' \<and> control w' = 0"
proof -
  let ?u = "s\<lparr>m_active := Some k, control := k\<rparr>" and ?c = "c\<lparr>m_state := E_END\<rparr>"
  have u: "co_ok ?u" "nodes ?u k = Some c" using Schedule_result(2) [OF s(1), of k] s(3) by simp_all
  obtain t where t: "run_coroutine procs k (?u, ks) = Inr (t, ks(k \<mapsto> dead_stack))" "co_ok t" "control t = 0"
      "nodes t = (nodes ?u)(k \<mapsto> ?c)" "timers t = timers ?u" "calls t = calls v" "head_id t = head_id v"
      "m_fd_to_data t = m_fd_to_data v"
    using run_to_end [where ks = ks and procs = procs, OF u(1) _ u(2) s(4) f v(1,2)] v(3,4) by auto
  have n: "nodes t = N(k \<mapsto> ?c)" using t(4) s(3) by simp
  have "ScheduleAll (run_coroutine procs) (s, ks) =
      Some (Inr (if m_state ?c = E_END then fst (CoroutineMgr_Destroy k t) else t, ks(k \<mapsto> dead_stack)))"
    by (rule pass_one_ready [where run = "run_coroutine procs" and ks = ks, OF s(1) k _ others t(1-3)]) (use s(3,4) n in simp_all)
  moreover obtain w' where "free_stacks (fst (CoroutineMgr_Destroy k t), ks(k \<mapsto> dead_stack)) = (w', ks(k := None))"
      "nodes w' = N(k := None)" "timers w' = timers t" "calls w' = calls t" "head_id w' = head_id t" "m_fd_to_data w' = m_fd_to_data t"
      "co_ok w'" "control w' = 0"
    using destroyed [OF t(2,3) k n _ ks, of dead_stack] by auto
  ultimately show ?thesis
    using t(5-8) by (intro exI [of _ w']) simp
qed

subsection \<open>The second program takes a request\<close>

text \<open>What \<open>process2\<close> does with an encoded request.\<close>

lemma decode_contents:
  assumes "pb_roundtrip p" and "HeadPkg_Encode p pkg cid = (rq, cid')" and "length (pkg_data rq) < 2 ^ 31"
    and "mem_ok d" and "contents d = pkg_data rq"
  shows "HeadPkg_Decode p (m_data d) (CMemData_Size d) q = (q\<lparr>m_head := m_head rq\<rparr>, True)"
proof -
  have split: "m_data d = pkg_data rq @ drop (unat (m_offset d)) (m_data d)"
    using assms(5) by (metis append_take_drop_id contents_def)
  have "of_nat (unat (CMemData_Size d)) = CMemData_Size d" by simp
  then have size: "CMemData_Size d = of_nat (length (pkg_data rq))" using length_contents [OF assms(4)] assms(5) by simp
  then show ?thesis
    using Encode_result [OF assms(1-3) refl, of "drop (unat (m_offset d)) (m_data d)" q] split by simp
qed

lemma process2_parks:
  assumes "pb_roundtrip p" and "HeadPkg_Encode p pkg cid = (rq, cid')" and "length (pkg_data rq) < 2 ^ 31"
    and "pb_parse_req p (Head_get_data (m_head rq)) = (req, True)"
    and "co_ok u" and "nodes u k = Some c" and "mem_ok (recvdata (m_req c))" and "contents (recvdata (m_req c)) = pkg_data rq"
  shows "process2 os p localtime k u =
    Wait 10000 u (process2_reply os p localtime k (fst (HeadPkg_Body (HeadPkg_new\<lparr>m_head := m_head rq\<rparr>))) req)"
  using assms(4-6) decode_contents [OF assms(1-3,7,8), of HeadPkg_new]
  by (simp add: process2_def req_of_def Get_nodes HeadPkg_Body_def Let_def wait_ms_def TIME_10_SECOND_def)

text \<open>The round that takes a request.\<close>

lemma parked:
  assumes "recv_documented os" and "pb_roundtrip p"
    and "loop_inv (\<lambda>_. process2 os p localtime) (w, ks)" and "co_live w" and "quiet w" and "nodes w (staticid w + 1) = None"
    and "CFdMgr_Get n w = Some key" and "fd_read key w = Some d" and "0 \<le> n"
    and "fd_state d = E_SERVER_CONN" and "port_type d = PORT_TCP" and "FdMgr.check d = HeadPkg_Check_ptr"
    and "HeadPkg_Encode p pkg cid = (rq, cid')" and "pb_parse_req p (Head_get_data (m_head rq)) = (req, True)"
    and "delivers os w n (pkg_data rq)" and "a = os (calls w @ [poll_call w]) (Sys_recv n 1024)"
  shows "\<exists>w' c f. main2_turn os p localtime raw (w, ks) = Some (Inr (w', ks(staticid w + 1 \<mapsto> f))) \<and>
    calls w' = calls w @ [poll_call w, Sys_recv n 1024] \<and> head_id w' = head_id w \<and> m_fd_to_data w' = m_fd_to_data w \<and>
    f = process2_reply os p localtime (staticid w + 1) (fst (HeadPkg_Body (HeadPkg_new\<lparr>m_head := m_head rq\<rparr>))) req \<and>
    nodes w' = (nodes w)(staticid w + 1 \<mapsto> c) \<and> m_state c = E_WAIT \<and> server_socket (m_req c) = n \<and>
    timers w' = (timers w)(staticid w + 1 \<mapsto> CExpireMgr_now (w\<lparr>clock := ret_time a\<rparr>) + 10000) \<and>
    loop_inv (\<lambda>_. process2 os p localtime) (w', ks(staticid w + 1 \<mapsto> f)) \<and> clock w' = ret_time a"
proof -
  let ?k = "staticid w + 1" and ?procs = "\<lambda>_. process2 os p localtime" and ?code = "program_code p"
  let ?f = "process2_reply os p localtime ?k (fst (HeadPkg_Body (HeadPkg_new\<lparr>m_head := m_head rq\<rparr>))) req"
  define w1 where "w1 = snd (sys os (poll_call w) w)"
  note b = delivered_package [OF assms(1,15) w1_def assms(2,13)]
  have i: "event_inv ?procs (w, ks)" "asleep w" "dom ks \<subseteq> dom (nodes w)"
    using assms(3) by (simp_all add: loop_inv_def event_inv_def)
  note ok = event_invD(2) [OF i(1)]
  have k0: "?k \<noteq> 0" using assms(6) co_okD(4) [OF ok] event_invD(4) [OF i(1)] by auto
  obtain cb where cb: "sm_find (<) (FdMgr.check d) (m_pkgcallback w1) = Some cb" "cb \<noteq> 0"
    using entries_okD [OF event_invD(3) [OF i(1)] assms(8)] event_invD(3) [OF i(1)] assms(12)
    by (auto simp: entry_ok_def entries_ok_def sm_find_lin ptr_defs w1_def)
  have p1: "co_ok w1" "co_live w1" "nodes w1 (staticid w1 + 1) = None" "fd_read key w1 = Some d"
    using ok assms(4,6,8) by (simp_all add: w1_def fd_read_def)
  have p2: "FdMgr.check d \<noteq> 0" "int (length (pkg_data rq)) = checked_size os ?code (FdMgr.check d) n w1"
    "0 < int (length (pkg_data rq))" "int (length (pkg_data rq)) \<le> ret (recv_answer os n w1)"
    using b(2,3,5) by (simp_all add: assms(12)) (simp add: ptr_defs)
  obtain w2 c where w2: "DoReadTcp os ?code n key w1 = Inr (w2, IO_OK)" "co_ok w2" "nodes w2 = (nodes w1)(staticid w1 + 1 \<mapsto> c)"
      "m_state c = E_READY" "contents (recvdata (m_req c)) = take (nat (int (length (pkg_data rq)))) (ret_bytes (recv_answer os n w1))"
      "m_cb (m_req c) = cb" "server_socket (m_req c) = n" "timers w2 = timers w1" "control w2 = control w1"
      "m_fd_to_data w2 = m_fd_to_data w1" "mem_ok (recvdata (m_req c))" "calls w2 = calls w1 @ [Sys_recv n 1024]"
      "head_id w2 = head_id w1" "clock w2 = ret_time (recv_answer os n w1)"
    using request_result [OF assms(1) p1 assms(10) p2(1) assms(9) p2(2-4) cb(1)] by (elim exE conjE) (rule that; assumption)
  have n2: "nodes w2 = (nodes w)(?k \<mapsto> c)" using w2(3) by (simp add: w1_def)
  let ?u = "w2\<lparr>m_active := Some ?k, control := ?k\<rparr>"
  have u: "co_ok ?u" "nodes ?u ?k = Some c" using Schedule_result(2) [OF w2(2), of ?k] n2 by simp_all
  have ks: "ks ?k = None" "dom ks \<subseteq> insert ?k (dom (nodes w))" using i(3) assms(6) by auto
  have "enter ?procs ?k ?u = process2 os p localtime ?k ?u"
    by (rule enter_runs [OF u(1) _ u(2)]) (use w2(6) cb(2) in simp_all)
  also have "\<dots> = Wait 10000 ?u ?f"
    by (rule process2_parks [OF assms(2,13) b(4) assms(14) u w2(11)]) (use w2(5) b(1) in simp)
  finally have run: "(case ks ?k of Some f \<Rightarrow> f | None \<Rightarrow> enter ?procs ?k) ?u = Wait 10000 ?u ?f" using ks(1) by simp
  have others: "node_state w2 j = None \<or> node_state w2 j = Some E_WAIT" if "j \<noteq> 0" "j \<noteq> ?k" for j
    using i(2) that n2 by (simp add: asleep_def)
  have c0: "control w2 = 0" using w2(9) event_invD(4) [OF i(1)] by (simp add: w1_def)
  obtain w' where w': "map_option (\<lambda>z. bind_res z (\<lambda>z. Inr (free_stacks z))) (ScheduleAll (run_coroutine ?procs) (w2, ks)) =
        Some (Inr (w', ks(?k \<mapsto> ?f)))" "nodes w' = (nodes w)(?k \<mapsto> c\<lparr>m_state := E_WAIT\<rparr>)"
      "timers w' = (timers w2)(?k \<mapsto> CExpireMgr_now ?u + ucast (10000 :: u32))" "calls w' = calls ?u" "head_id w' = head_id ?u"
      "m_fd_to_data w' = m_fd_to_data ?u" "clock w' = clock ?u"
    using pass_waits [OF w2(2) c0 n2 w2(4) k0 others ks(2) run u(1)] by auto
  have turn: "main_turn os ?code raw ?procs (w, ks) = Some (Inr (w', ks(?k \<mapsto> ?f)))"
    using turn_reads [OF ok assms(5,15) w1_def assms(7,8) _ assms(11) w2(1)] assms(10) w'(1) by simp
  moreover have "loop_inv ?procs (w', ks(?k \<mapsto> ?f))"
    by (rule reach_loop_inv [OF _ assms(3)], rule main_reach.more [OF main_reach.start], rule main_step.round [OF turn])
  moreover have "clock w2 = ret_time a" using w2(14) by (simp add: w1_def recv_answer_def assms(16))
  moreover have "CExpireMgr_now ?u = CExpireMgr_now (w\<lparr>clock := ret_time a\<rparr>)" "timers w2 = timers w"
    using w2(8,14) by (simp_all add: CExpireMgr_now_def w1_def recv_answer_def assms(16))
  ultimately show ?thesis
    using w'(2-7) w2(7,10,12,13)
    by (intro exI [of _ w'] exI [of _ "c\<lparr>m_state := E_WAIT\<rparr>"] exI [of _ ?f]) (simp add: main2_turn_def w1_def)
qed

text \<open>
  C12: A request is taken in one round: when no timer is due and the one event is that a client's
  connection can be read, with an encoded request on it, the next round of \<^verbatim>\<open>test2\<close>'s loop waits for
  events until the next deadline, reads the connection once, and leaves a new coroutine asleep on
  its reply for ten seconds from then, with the connection's descriptor in its request; no other
  coroutine, timer, table entry or stack changes, the counter of packages does not move, and the
  loop's invariant holds.
\<close>

theorem request_parked:
  assumes "recv_documented os" and "pb_roundtrip p"
    and "loop_inv (\<lambda>_. process2 os p localtime) (w, ks)" and "co_live w" and "quiet w" and "nodes w (staticid w + 1) = None"
    and "CFdMgr_Get n w = Some key" and "fd_read key w = Some d" and "0 \<le> n"
    and "fd_state d = E_SERVER_CONN" and "port_type d = PORT_TCP" and "FdMgr.check d = HeadPkg_Check_ptr"
    and "HeadPkg_Encode p pkg cid = (rq, cid')" and "pb_parse_req p (Head_get_data (m_head rq)) = (req, True)"
    and "delivers os w n (pkg_data rq)" and "a = os (calls w @ [poll_call w]) (Sys_recv n 1024)"
  shows "\<exists>w' c f. main2_turn os p localtime raw (w, ks) = Some (Inr (w', ks(staticid w + 1 \<mapsto> f))) \<and>
    calls w' = calls w @ [poll_call w, Sys_recv n 1024] \<and> head_id w' = head_id w \<and> m_fd_to_data w' = m_fd_to_data w \<and>
    f = process2_reply os p localtime (staticid w + 1) (fst (HeadPkg_Body (HeadPkg_new\<lparr>m_head := m_head rq\<rparr>))) req \<and>
    nodes w' = (nodes w)(staticid w + 1 \<mapsto> c) \<and> m_state c = E_WAIT \<and> server_socket (m_req c) = n \<and>
    timers w' = (timers w)(staticid w + 1 \<mapsto> CExpireMgr_now (w\<lparr>clock := ret_time a\<rparr>) + 10000) \<and>
    loop_inv (\<lambda>_. process2 os p localtime) (w', ks(staticid w + 1 \<mapsto> f))"
proof -
  let ?k = "staticid w + 1"
  obtain w' c f where "main2_turn os p localtime raw (w, ks) = Some (Inr (w', ks(?k \<mapsto> f)))"
      "calls w' = calls w @ [poll_call w, Sys_recv n 1024]" "head_id w' = head_id w" "m_fd_to_data w' = m_fd_to_data w"
      "f = process2_reply os p localtime ?k (fst (HeadPkg_Body (HeadPkg_new\<lparr>m_head := m_head rq\<rparr>))) req"
      "nodes w' = (nodes w)(?k \<mapsto> c)" "m_state c = E_WAIT" "server_socket (m_req c) = n"
      "timers w' = (timers w)(?k \<mapsto> CExpireMgr_now (w\<lparr>clock := ret_time a\<rparr>) + 10000)"
      "loop_inv (\<lambda>_. process2 os p localtime) (w', ks(?k \<mapsto> f))"
    using parked [where raw = raw, OF assms] by (elim exE conjE) (rule that; assumption)
  then show ?thesis by (intro exI [of _ w'] exI [of _ c] exI [of _ f]) simp
qed

text \<open>The second program with one client, on descriptor 7, that sends a request.\<close>

definition example_request :: HeadPkg where
  "example_request = fst (HeadPkg_Encode example_pb (HeadPkg_SetData [9] HeadPkg_new) 41)"

text \<open>A system that reports bytes \<open>bs\<close> on descriptor \<open>n\<close> whenever it is asked for events.\<close>

definition telling_os :: "int \<Rightarrow> u8 list \<Rightarrow> os" where
  "telling_os n bs cs c = (example_os cs c)
     \<lparr>ret := (case c of Sys_epoll_wait m ms \<Rightarrow> 1 | Sys_recv m len \<Rightarrow> if length bs \<le> len then int (length bs) else 0
          | Sys_send m bs' \<Rightarrow> int (length bs') | _ \<Rightarrow> 0),
      ret_events := [(n, EPOLLIN)], ret_bytes := bs\<rparr>"

lemma telling_os_facts:
  "recv_documented (telling_os n bs)" "send_documented (telling_os n bs)"
  "length bs \<le> 1024 \<Longrightarrow> delivers (telling_os n bs) w n bs" "ret (telling_os n bs cs (Sys_send m bs')) = int (length bs')"
  by (auto simp: recv_documented_def send_documented_def delivers_def poll_call_def telling_os_def example_os_def
      CanRead_def EPOLLIN_def split: syscall.split if_splits)

definition example_serving :: world where
  "example_serving = (fst (CoroutineMgr_Init (world_start \<lparr>tv_sec = 1, tv_usec = 0\<rparr>)))
     \<lparr>m_fd_to_data := [(fd_key 7, example_raw\<lparr>fd := 7, fd_state := E_SERVER_CONN, check := HeadPkg_Check_ptr\<rparr>)],
      m_pkgcallback := [(HeadPkg_Check_ptr, process_ptr)]\<rparr>"

lemma example_request_length: "length (pkg_data example_request) = 11"
  by (simp add: example_request_def HeadPkg_Encode_def example_pb_def bytes32_def Let_def HeadPkg_SetData_def Head_get_data_def)

lemma example_serving_facts:
  assumes "procs_ok procs"
  shows "loop_inv procs (example_serving, Map.empty)" "co_live example_serving" "timers example_serving = Map.empty"
    "staticid example_serving = 0" "nodes example_serving 1 = None"
    "CFdMgr_Get 7 example_serving = Some (fd_key 7)"
    "fd_read (fd_key 7) example_serving = Some (example_raw\<lparr>fd := 7, fd_state := E_SERVER_CONN, check := HeadPkg_Check_ptr\<rparr>)"
proof -
  let ?v = "world_start \<lparr>tv_sec = 1, tv_usec = 0\<rparr>" and ?w = example_serving
  obtain w1 c where w1: "CoroutineMgr_Init ?v = (w1, IO_OK)" "co_ok w1" "co_live w1" "nodes w1 = [0 \<mapsto> c]"
      "m_state c = E_READY" "timers w1 = Map.empty" "control w1 = 0" "staticid w1 = 0" "clock w1 = clock ?v"
    using Init_result [of ?v] by (auto simp: world_start_def)
  have w: "?w = w1\<lparr>m_fd_to_data := [(fd_key 7, example_raw\<lparr>fd := 7, fd_state := E_SERVER_CONN, check := HeadPkg_Check_ptr\<rparr>)],
      m_pkgcallback := [(HeadPkg_Check_ptr, process_ptr)]\<rparr>"
    by (simp add: example_serving_def w1(1))
  have co: "co_ok ?w" using w1(2) co_ok_cong(1) [of ?w w1] by (simp add: w)
  have fds: "fd_ok ?w"
    by (simp add: fd_ok_def w consistent_def key_wf_def fd_key_def stIpPort_new_def stIpPort_empty_def stFd_empty_def sm_ok_def)
  have "entries_ok ?w"
    by (simp add: entries_ok_def entry_ok_def w ptr_defs example_raw_def)
  then have "event_inv procs (?w, Map.empty)"
    by (intro event_invI [OF assms co]) (use w1(4,7) in \<open>auto simp: w split: if_splits\<close>)
  then show "loop_inv procs (?w, Map.empty)"
    using w1(4) by (simp add: loop_inv_def asleep_def w)
  show "co_live ?w" using w1(3) co_ok_cong(2) [of ?w w1] by (simp add: w)
  show "timers ?w = Map.empty" "staticid ?w = 0" "nodes ?w 1 = None" using w1 by (simp_all add: w)
  have "fd_key 7 \<in> fd_keys ?w" by (simp add: w)
  then show "CFdMgr_Get 7 ?w = Some (fd_key 7)" by (rule Get_listen [OF fds, rotated]) simp
  show "fd_read (fd_key 7) ?w = Some (example_raw\<lparr>fd := 7, fd_state := E_SERVER_CONN, check := HeadPkg_Check_ptr\<rparr>)"
    by (simp add: fd_read_def w)
qed

theorem request_parked_witness:
  "\<exists>w' c f. main2_turn (telling_os 7 (pkg_data example_request)) example_pb (\<lambda>_. example_tm) example_raw (example_serving, Map.empty) =
      Some (Inr (w', [1 \<mapsto> f])) \<and> calls w' = calls example_serving @ [poll_call example_serving, Sys_recv 7 1024] \<and>
    nodes w' 1 = Some c \<and> m_state c = E_WAIT \<and> timers w' 1 = Some 11000"
proof -
  let ?w = example_serving and ?p = "\<lambda>_. process2 (telling_os 7 (pkg_data example_request)) example_pb (\<lambda>_. example_tm)"
  let ?d = "example_raw\<lparr>fd := 7, fd_state := E_SERVER_CONN, check := HeadPkg_Check_ptr\<rparr>"
  note doc = telling_os_facts(1,2) [of 7 "pkg_data example_request"]
  have "procs_ok ?p" unfolding procs_ok_def using process2_keeps [OF doc(2)] by blast
  note f = example_serving_facts [OF this]
  have t: "quiet ?w" "nodes ?w (staticid ?w + 1) = None"
    using f(3-5) by (simp_all add: quiet_def)
  obtain cid' where e: "HeadPkg_Encode example_pb (HeadPkg_SetData [9] HeadPkg_new) 41 = (example_request, cid')"
    by (simp add: example_request_def prod_eq_iff)
  obtain req where r: "pb_parse_req example_pb (Head_get_data (m_head example_request)) = (req, True)"
    by (simp add: example_pb_def)
  let ?a = "(telling_os 7 (pkg_data example_request)) (calls ?w @ [poll_call ?w]) (Sys_recv 7 1024)"
  have p: "(0 :: int) \<le> 7" "fd_state ?d = E_SERVER_CONN" "port_type ?d = PORT_TCP" "FdMgr.check ?d = HeadPkg_Check_ptr"
    by (simp_all add: example_raw_def)
  have o: "delivers (telling_os 7 (pkg_data example_request)) ?w 7 (pkg_data example_request)"
    by (rule telling_os_facts(3)) (simp add: example_request_length)
  have now: "CExpireMgr_now (?w\<lparr>clock := ret_time ?a\<rparr>) = 1000"
    using now_at [where w = ?w and n = 1] by (simp add: telling_os_def example_os_def)
  obtain w' c g where "main2_turn (telling_os 7 (pkg_data example_request)) example_pb (\<lambda>_. example_tm) example_raw (?w, Map.empty) =
        Some (Inr (w', [staticid ?w + 1 \<mapsto> g]))" "calls w' = calls ?w @ [poll_call ?w, Sys_recv 7 1024]"
      "nodes w' = (nodes ?w)(staticid ?w + 1 \<mapsto> c)" "m_state c = E_WAIT"
      "timers w' = (timers ?w)(staticid ?w + 1 \<mapsto> CExpireMgr_now (?w\<lparr>clock := ret_time ?a\<rparr>) + 10000)"
    using request_parked [where raw = example_raw, OF doc(1) example_pb_roundtrip f(1,2) t f(6,7) p e r o refl]
    by (elim exE conjE) (rule that; assumption)
  then show ?thesis
    by (intro exI [of _ w'] exI [of _ c] exI [of _ g]) (simp add: f(4) now)
qed

text \<open>A coroutine that sleeps with a client on descriptor 7, and a system whose peer on 9 sends a package.\<close>

definition example_asking :: world where
  "example_asking = (case update_node 1 (\<lambda>c. c\<lparr>m_req := (m_req c)\<lparr>server_socket := 7\<rparr>\<rparr>) example_sleeping of
     Inr w \<Rightarrow> w | Inl _ \<Rightarrow> example_sleeping)"

lemma example_asking_facts:
  "co_ok example_asking" "co_live example_asking" "timers example_asking = [1 \<mapsto> 1100]" "control example_asking = 0"
  "clock example_asking = \<lparr>tv_sec = 1, tv_usec = 0\<rparr>" "node_state example_asking = node_state example_sleeping"
  "asleep example_asking" "m_fd_to_data example_asking = example_fds" "m_pkgcallback example_asking = [(1, 10), (3, 10)]"
  "\<exists>c. nodes example_asking 1 = Some c \<and> server_socket (m_req c) = 7 \<and> m_state c = E_WAIT" "head_id example_asking = 0"
proof -
  let ?g = "\<lambda>c :: CoroutineContext. c\<lparr>m_req := (m_req c)\<lparr>server_socket := 7\<rparr>\<rparr>"
  have "node_state example_sleeping 1 = Some E_WAIT"
    by (rule trans [OF fun_cong [OF example_sleeping_facts(6)]]) simp
  then obtain c where c: "nodes example_sleeping 1 = Some c" "m_state c = E_WAIT" by auto
  obtain x where x: "update_node 1 ?g example_sleeping = Inr (example_sleeping\<lparr>m_idtonode := x\<rparr>)"
      "co_ok (example_sleeping\<lparr>m_idtonode := x\<rparr>)" "map_of x = (nodes example_sleeping)(1 \<mapsto> ?g c)"
    using update_node_result [OF example_sleeping_facts(1) c(1), of ?g] by (auto simp: CoroutineContext_GetID_def)
  have w: "example_asking = example_sleeping\<lparr>m_idtonode := x\<rparr>" by (simp add: example_asking_def x(1))
  have n: "nodes example_asking = (nodes example_sleeping)(1 \<mapsto> ?g c)" using x(3) by (simp add: w)
  note f = Wait_world_frame(1,2) [OF example_sleeping_facts(7)]
  show "head_id example_asking = 0"
    using Wait_world_frame(4) [OF example_sleeping_facts(7)] by (simp add: w example_world_def) (simp add: world_start_def)
  show ok: "co_ok example_asking" and t: "timers example_asking = [1 \<mapsto> 1100]" and "control example_asking = 0"
    and "clock example_asking = \<lparr>tv_sec = 1, tv_usec = 0\<rparr>"
    using x(2) example_sleeping_facts by (simp_all add: w)
  show st: "node_state example_asking = node_state example_sleeping" using n c by (auto simp: fun_eq_iff)
  show "m_fd_to_data example_asking = example_fds" "m_pkgcallback example_asking = [(1, 10), (3, 10)]"
    using f example_world_fds by (simp_all add: w)
  show "\<exists>c. nodes example_asking 1 = Some c \<and> server_socket (m_req c) = 7 \<and> m_state c = E_WAIT" using n c(2) by simp
  show "co_live example_asking"
    by (rule co_live_state [OF example_sleeping_facts(1) ok example_sleeping_facts(2)])
      (simp_all only: t example_sleeping_facts(3) fun_cong [OF st])
  have "asleep (example_sleeping\<lparr>clock := t\<rparr>)" for t using example_loop_inv [of t] by (simp add: loop_inv_def)
  then show "asleep example_asking" using st by (simp add: asleep_def fun_eq_iff)
qed

lemma example_asking_inv:
  assumes "procs_ok procs" and "stack_ok 1 f"
  shows "loop_inv procs (example_asking\<lparr>clock := t\<rparr>, [1 \<mapsto> f])"
proof -
  let ?w = "example_asking\<lparr>clock := t\<rparr>"
  have co: "co_ok ?w" using example_asking_facts(1) co_ok_cong(1) [of ?w example_asking] by simp
  have st: "node_state ?w j = node_state example_sleeping j" for j using fun_cong [OF example_asking_facts(6)] by simp
  have sl: "event_inv procs (example_sleeping, [1 \<mapsto> f])"
    using sleeping_loop_inv [OF assms, of "clock example_sleeping"] by (simp add: loop_inv_def)
  have "entries_ok ?w" by (rule example_entries_ok) (simp_all add: example_asking_facts)
  then have "event_inv procs (?w, [1 \<mapsto> f])"
  proof (rule event_invI [OF assms(1) co])
    show "control ?w = 0" by (simp add: example_asking_facts)
    show "node_ok [1 \<mapsto> f] k c \<and> m_state c \<noteq> E_END" if k: "nodes ?w k = Some c" "k \<noteq> 0" for k c
    proof -
      obtain c' where "nodes example_sleeping k = Some c'" "m_state c' = m_state c"
        using st [of k] k(1) by (cases "nodes example_sleeping k") auto
      then show ?thesis
        using event_invD(5,6) [OF sl, of k c'] k example_asking_facts(7) assms(2)
        by (cases "m_state c") (auto simp: node_ok_def asleep_def)
    qed
    show "[1 \<mapsto> f] k = None" if "nodes ?w k = None" for k
      using event_invD(7) [OF sl, of k] st [of k] that by auto
  qed
  then show ?thesis
    using example_asking_facts(7) by (simp add: loop_inv_def asleep_def)
qed

subsection \<open>The second program answers\<close>

text \<open>The round that answers.\<close>

lemma answered:
  assumes "loop_inv (\<lambda>_. process2 os p localtime) (w, ks)" and "timers w 0 = None"
    and "timers w k = Some e" and "e \<le> CExpireMgr_now w"
    and "\<forall>j e'. timers w j = Some e' \<longrightarrow> e < e' \<or> e = e' \<and> k \<le> j"
    and "ks k = Some (process2_reply os p localtime k pkg req)" and "nodes w k = Some c" and "0 \<le> server_socket (m_req c)"
    and "HeadPkg_Encode p (HeadPkg_SetData (pb_print_rsp p (data_rsp localtime req w)) pkg) (head_id w) = (rp, hid)"
    and "ret (os (calls w) (Sys_send (server_socket (m_req c)) (pkg_data rp))) = int (length (pkg_data rp))"
  shows "\<exists>w'. main2_turn os p localtime raw (w, ks) = Some (Inr (w', ks(k := None))) \<and>
    calls w' = calls w @ [Sys_send (server_socket (m_req c)) (pkg_data rp)] \<and> head_id w' = head_id w + 1 \<and>
    nodes w' = (nodes w)(k := None) \<and> timers w' = (timers w)(k := None) \<and> m_fd_to_data w' = m_fd_to_data w \<and>
    loop_inv (\<lambda>_. process2 os p localtime) (w', ks(k := None))"
proof -
  let ?n = "server_socket (m_req c)" and ?procs = "\<lambda>_. process2 os p localtime"
  have i: "event_inv ?procs (w, ks)" "asleep w" "dom ks \<subseteq> dom (nodes w)"
    using assms(1) by (simp_all add: loop_inv_def event_inv_def)
  have hid: "hid = head_id w + 1" "pkg_data rp \<noteq> []"
    using assms(9) by (auto simp: HeadPkg_Encode_def Let_def bytes32_def)
  have f: "\<exists>r v. process2_reply os p localtime k pkg req u = Return r v \<and> co_ok v \<and> control v = control u \<and>
      nodes v = nodes u \<and> timers v = timers u \<and> calls v = calls w @ [Sys_send ?n (pkg_data rp)] \<and>
      head_id v = head_id w + 1 \<and> m_fd_to_data v = m_fd_to_data w"
    if u: "co_ok u" "nodes u k = Some (c\<lparr>m_state := E_READY\<rparr>)" "calls u = calls w" "clock u = clock w" "head_id u = head_id w"
      "m_fd_to_data u = m_fd_to_data w" for u :: world
  proof -
    let ?u = "u\<lparr>head_id := hid\<rparr>"
    have "data_rsp localtime req u = data_rsp localtime req w" by (simp add: data_rsp_def u(4))
    then have e: "HeadPkg_Encode p (HeadPkg_SetData (pb_print_rsp p (data_rsp localtime req u)) pkg) (head_id u) = (rp, hid)"
      using assms(9) u(5) by simp
    have rd: "req_of k ?u = Some (m_req (c\<lparr>m_state := E_READY\<rparr>))" using u(1,2) by (simp add: req_of_def Get_nodes)
    have "tcpsend os ?n (CTimerMS_new (clock ?u) 100) (pkg_data rp) ?u = Return IO_OK (snd (sys os (Sys_send ?n (pkg_data rp)) ?u))"
      by (rule tcpsend_at_once) (use assms(8,10) hid(2) fresh_timer u(3) in simp_all)
    then show ?thesis
      using e rd u hid(1)
      by (intro exI [of _ 0] exI [of _ "snd (sys os (Sys_send ?n (pkg_data rp)) ?u)"]) (simp add: process2_reply_def Let_def)
  qed
  obtain w' where w': "main_turn os (program_code p) raw ?procs (w, ks) = Some (Inr (w', ks(k := None)))"
      "calls w' = calls w @ [Sys_send ?n (pkg_data rp)]" "nodes w' = (nodes w)(k := None)" "timers w' = (timers w)(k := None)"
      "head_id w' = head_id w + 1" "m_fd_to_data w' = m_fd_to_data w"
    using due_turn_ends [where os = os and code = "program_code p" and raw = raw and procs = ?procs,
        OF event_invD(2,4) [OF i(1)] assms(2) i(2,3) assms(3,4) _ assms(6,7) f] assms(5) by blast
  moreover have "loop_inv ?procs (w', ks(k := None))"
    by (rule reach_loop_inv [OF _ assms(1)], rule main_reach.more [OF main_reach.start], rule main_step.round [OF w'(1)])
  ultimately show ?thesis by (intro exI [of _ w']) (simp add: main2_turn_def)
qed

text \<open>
  C13: A request whose ten seconds are over is answered in one round: when the coroutine that waits to
  reply has the earliest deadline and the deadline has come, the next round of \<^verbatim>\<open>test2\<close>'s loop sends
  one package on the request's connection, the reply with the next number of the counter, destroys
  the coroutine with its stack, and touches nothing else; no event is asked for. The round is total,
  and the loop's invariant holds after it.
\<close>

theorem request_answered:
  assumes "loop_inv (\<lambda>_. process2 os p localtime) (w, ks)" and "timers w 0 = None"
    and "timers w k = Some e" and "e \<le> CExpireMgr_now w"
    and "\<forall>j e'. timers w j = Some e' \<longrightarrow> e < e' \<or> e = e' \<and> k \<le> j"
    and "ks k = Some (process2_reply os p localtime k pkg req)" and "nodes w k = Some c" and "0 \<le> server_socket (m_req c)"
    and "HeadPkg_Encode p (HeadPkg_SetData (pb_print_rsp p (data_rsp localtime req w)) pkg) (head_id w) = (rp, hid)"
    and "ret (os (calls w) (Sys_send (server_socket (m_req c)) (pkg_data rp))) = int (length (pkg_data rp))"
  shows "\<exists>w'. main2_turn os p localtime raw (w, ks) = Some (Inr (w', ks(k := None))) \<and>
    calls w' = calls w @ [Sys_send (server_socket (m_req c)) (pkg_data rp)] \<and> head_id w' = head_id w + 1 \<and>
    nodes w' = (nodes w)(k := None) \<and> timers w' = (timers w)(k := None) \<and> m_fd_to_data w' = m_fd_to_data w \<and>
    loop_inv (\<lambda>_. process2 os p localtime) (w', ks(k := None))"
  by (rule answered [OF assms])

theorem request_answered_witness:
  "\<exists>w w' rp. main2_turn example_os example_pb (\<lambda>_. example_tm) example_raw
      (w, [1 \<mapsto> process2_reply example_os example_pb (\<lambda>_. example_tm) 1 HeadPkg_new \<lparr>req_cmd = None, req_query = None\<rparr>]) =
      Some (Inr (w', Map.empty)) \<and>
    calls w' = calls w @ [Sys_send 7 (pkg_data (rp :: HeadPkg))] \<and> nodes w' 1 = None"
proof -
  let ?procs = "\<lambda>_. process2 example_os example_pb (\<lambda>_. example_tm)"
  let ?req = "\<lparr>req_cmd = None, req_query = None\<rparr>"
  let ?f = "process2_reply example_os example_pb (\<lambda>_. example_tm) 1 HeadPkg_new ?req"
  let ?w = "example_asking\<lparr>clock := \<lparr>tv_sec = 2, tv_usec = 0\<rparr>\<rparr>"
  have inv: "loop_inv ?procs (?w, [1 \<mapsto> ?f])"
    by (rule example_asking_inv)
      (use process2_keeps [OF example_send_documented] reply_keeps [OF example_send_documented] in \<open>auto simp: procs_ok_def\<close>)
  obtain c where c: "nodes ?w 1 = Some c" "server_socket (m_req c) = 7" using example_asking_facts(10) by auto
  obtain rp hid where e: "HeadPkg_Encode example_pb (HeadPkg_SetData (pb_print_rsp example_pb
      (data_rsp (\<lambda>_. example_tm) ?req ?w)) HeadPkg_new) (head_id ?w) = (rp, hid)"
    by fastforce
  have t: "timers ?w 0 = None" "timers ?w 1 = Some 1100" "1100 \<le> CExpireMgr_now ?w"
    "\<forall>j e'. timers ?w j = Some e' \<longrightarrow> 1100 < e' \<or> 1100 = e' \<and> 1 \<le> j"
    by (simp_all add: example_asking_facts(3) now_at)
  have s: "0 \<le> server_socket (m_req c)"
    "ret (example_os (calls ?w) (Sys_send (server_socket (m_req c)) (pkg_data rp))) = int (length (pkg_data rp))"
    by (simp_all add: example_os_def c(2))
  obtain w' where "main2_turn example_os example_pb (\<lambda>_. example_tm) example_raw (?w, [1 \<mapsto> ?f]) =
        Some (Inr (w', [1 \<mapsto> ?f](1 := None)))"
      "calls w' = calls ?w @ [Sys_send (server_socket (m_req c)) (pkg_data rp)]" "nodes w' = (nodes ?w)(1 := None)"
    using request_answered [where raw = example_raw, OF inv t _ c(1) s(1) e s(2)] by auto
  then show ?thesis
    by (intro exI [of _ ?w] exI [of _ w'] exI [of _ rp]) (simp add: c(2))
qed

subsection \<open>The first program relays\<close>

text \<open>The code on the stack, from the reply to the message sent to the client.\<close>

lemma relay_sends:
  assumes "fd_ok u" and "co_ok u" and "fd_read key u = Some d" and "sm_sorted (seq_to_coroutine d)"
    and "map_of (seq_to_coroutine d) sq = Some sr" and "CMemData_Size (sr_data sr) \<noteq> 0" and "nodes u k = Some c"
    and "HeadPkg_Decode p (m_data (sr_data sr)) (CMemData_Size (sr_data sr)) pkg = (pkg1, True)"
    and "pb_parse_rsp p (Head_get_data (m_head pkg1)) = (rsp, True)" and "rsp_msg rsp = Some msg" and "msg \<noteq> []"
    and "0 \<le> server_socket (m_req c)"
    and "dels = (if dom (map_of (seq_to_coroutine d)) = {sq} then [Sys_epoll_ctl CTL_DEL n 0] else [])"
    and "ret (os (calls u @ dels) (Sys_send (server_socket (m_req c)) msg)) = int (length msg)"
  shows "\<exists>v. relay_stack os p n key sq k pkg u = Return 0 v \<and> co_ok v \<and> control v = control u \<and> nodes v = nodes u \<and>
    timers v = timers u \<and> calls v = calls u @ dels @ [Sys_send (server_socket (m_req c)) msg] \<and> head_id v = head_id u"
proof -
  let ?send = "Sys_send (server_socket (m_req c)) msg"
  obtain u' where u': "sendrecv_finish os n key sq CMemData_new u = Return (IO_OK, sr_data sr) u'" "co_ok u'" "nodes u' = nodes u"
      "timers u' = timers u" "calls u' = calls u @ dels"
    using sendrecv_finish_result [where sq = sq and os = os and n = n and dst = CMemData_new, OF assms(1,3,4)] assms(2,5,6,13) by auto
  have "process1_answer os p k pkg IO_OK (sr_data sr) u' =
      bind_co (tcpsend os (server_socket (m_req c)) (CTimerMS_new (clock u') 100) msg u') (\<lambda>r v. Return 0 v)"
    by (rule process1_passes_on [OF u'(2) _ assms(8-10)]) (use u'(3) assms(7) in simp)
  moreover have "tcpsend os (server_socket (m_req c)) (CTimerMS_new (clock u') 100) msg u' = Return IO_OK (snd (sys os ?send u'))"
    by (rule tcpsend_at_once) (use assms(11,12,14) u'(5) fresh_timer in simp_all)
  ultimately show ?thesis
    using u' sendrecv_finish_frame [OF u'(1)]
    by (intro exI [of _ "snd (sys os ?send u')"]) (simp add: relay_stack_def)
qed

text \<open>
  Between rounds: every coroutine sleeps, each stack is a coroutine's, the tables agree. A link: an
  open, watched connection to the second program, descriptor \<open>n\<close>, with its entry. \<open>awaits\<close>: coroutine \<open>k\<close>
  sleeps in \<open>process1\<close> for the reply numbered \<open>sq\<close> on the link.
\<close>

definition resting :: "world \<times> stacks \<Rightarrow> bool" where
  "resting x \<longleftrightarrow> co_ok (fst x) \<and> co_live (fst x) \<and> fd_ok (fst x) \<and> control (fst x) = 0 \<and> asleep (fst x) \<and>
     dom (snd x) \<subseteq> dom (nodes (fst x))"

definition linked :: "world \<Rightarrow> int \<Rightarrow> stFdKey \<Rightarrow> stFdData \<Rightarrow> bool" where
  "linked w n key d \<longleftrightarrow> CFdMgr_Get n w = Some key \<and> fd_read key w = Some d \<and> 0 \<le> n \<and> fd d = n \<and> fd_state d = E_OTHER \<and>
     port_type d = PORT_TCP \<and> FdMgr.check d = HeadPkg_Check_ptr \<and> FdMgr.seq d = HeadPkg_Seq_ptr \<and>
     sm_sorted (seq_to_coroutine d) \<and> (\<forall>sq sr. map_of (seq_to_coroutine d) sq = Some sr \<longrightarrow> mem_ok (sr_data sr))"

definition awaits :: "os \<Rightarrow> pb \<Rightarrow> stacks \<Rightarrow> int \<Rightarrow> stFdKey \<Rightarrow> stFdData \<Rightarrow> u32 \<Rightarrow> int \<Rightarrow> bool" where
  "awaits os p ks n key d k sq \<longleftrightarrow> k \<noteq> 0 \<and>
     (\<exists>sr. map_of (seq_to_coroutine d) sq = Some sr \<and> sr_id sr = k) \<and> (\<exists>sent. ks k = Some (relay_stack os p n key sq k sent))"

lemma relayed:
  assumes "recv_documented os" and "pb_roundtrip p" and "resting (w, ks)" and "quiet w" and "linked w n key d"
    and "HeadPkg_Encode p pkg cid = (rp, cid')" and "sq = u32_to_int (cid + 1)" and "awaits os p ks n key d k sq" and "nodes w k = Some c"
    and "pb_parse_rsp p (Head_get_data (m_head rp)) = (rsp, True)" and "rsp_msg rsp = Some msg" and "msg \<noteq> []"
    and "delivers os w n (pkg_data rp)" and "0 \<le> server_socket (m_req c)"
    and "cs = calls w @ poll_call w # Sys_recv n 1024 # (if dom (map_of (seq_to_coroutine d)) = {sq} then [Sys_epoll_ctl CTL_DEL n 0] else [])"
    and "ret (os cs (Sys_send (server_socket (m_req c)) msg)) = int (length msg)"
  shows "\<exists>w'. main1_turn os inet_addr p raw (w, ks) = Some (Inr (w', ks(k := None))) \<and>
    calls w' = cs @ [Sys_send (server_socket (m_req c)) msg] \<and> head_id w' = head_id w \<and>
    nodes w' = (nodes w)(k := None) \<and> timers w' = (timers w)(k := None)"
proof -
  let ?procs = "\<lambda>_. process1 os inet_addr p raw" and ?code = "program_code p" and ?send = "Sys_send (server_socket (m_req c)) msg"
  define w1 where "w1 = snd (sys os (poll_call w) w)"
  note b = delivered_package [OF assms(1,13) w1_def assms(2,6)]
  have r: "co_ok w" "co_live w" "fd_ok w" "control w = 0" "asleep w" "dom ks \<subseteq> dom (nodes w)"
    using assms(3) by (simp_all add: resting_def)
  have l: "CFdMgr_Get n w = Some key" "fd_read key w = Some d" "0 \<le> n" "fd_state d = E_OTHER" "port_type d = PORT_TCP"
    "FdMgr.check d = HeadPkg_Check_ptr" "FdMgr.seq d = HeadPkg_Seq_ptr" "sm_sorted (seq_to_coroutine d)"
    using assms(5) by (simp_all add: linked_def)
  obtain sr sent where sr: "map_of (seq_to_coroutine d) sq = Some sr" "sr_id sr = k" "k \<noteq> 0" "mem_ok (sr_data sr)"
      and stack: "ks k = Some (relay_stack os p n key sq k sent)"
    using assms(5,8) by (auto simp: awaits_def linked_def)
  have p1: "co_ok w1" "co_live w1" "fd_read key w1 = Some d" "nodes w1 (sr_id sr) = Some c"
    using r(1,2) l(2) sr(2) assms(9) by (simp_all add: w1_def fd_read_def)
  have p2: "FdMgr.check d \<noteq> 0" "FdMgr.seq d \<noteq> 0" "0 < ret (recv_answer os n w1)" "0 < int (length (pkg_data rp))"
    "int (length (pkg_data rp)) = checked_size os ?code (FdMgr.check d) n w1"
    "sq = ?code (FdMgr.seq d) (m_data (recv_buffer os n w1)) (word_of_int (int (length (pkg_data rp))))"
    using b(2,3,5,6) by (simp_all add: l(6,7) assms(7)) (simp_all add: ptr_defs)
  obtain w2 d' buf where w2: "DoReadTcp os ?code n key w1 = Inr (w2, IO_OK)" "co_ok w2" "nodes w2 = (nodes w1)(sr_id sr \<mapsto> c\<lparr>m_state := E_READY\<rparr>)"
      "timers w2 = (timers w1)(sr_id sr := None)" "fd_table w2 = (fd_table w1)(key \<mapsto> d')" "sm_sorted (seq_to_coroutine d')"
      "map_of (seq_to_coroutine d') = (map_of (seq_to_coroutine d))(sq \<mapsto> sr\<lparr>sr_data := buf\<rparr>)"
      "contents buf = ret_bytes (recv_answer os n w1)" "mem_ok buf" "control w2 = control w1" "calls w2 = calls w1 @ [Sys_recv n 1024]"
      "head_id w2 = head_id w1" "fd_ok w1 \<longrightarrow> fd_ok w2"
    using reply_result [OF assms(1) p1(1-3) l(4) p2(1,2) l(3) p2(3,5,4,6) l(8) sr(1,4) p1(4)]
    by (elim exE conjE) (rule that; assumption)
  have n2: "nodes w2 = (nodes w)(k \<mapsto> c\<lparr>m_state := E_READY\<rparr>)" using w2(3) sr(2) by (simp add: w1_def)
  let ?u = "w2\<lparr>m_active := Some k, control := k\<rparr>"
  have u: "co_ok ?u" "nodes ?u k = Some (c\<lparr>m_state := E_READY\<rparr>)" using Schedule_result(2) [OF w2(2), of k] n2 by simp_all
  have uf: "fd_ok ?u" using w2(13) r(3) fd_ok_cong [of ?u w2] by (simp add: w1_def)
  have ur: "fd_read key ?u = Some d'" using w2(5) by (simp add: fd_read_def)
  have us: "map_of (seq_to_coroutine d') sq = Some (sr\<lparr>sr_data := buf\<rparr>)"
    "dom (map_of (seq_to_coroutine d')) = dom (map_of (seq_to_coroutine d))" using w2(7) sr(1) by auto
  have bytes: "contents buf = pkg_data rp" using w2(8) b(1) by simp
  have "CMemData_Size buf \<noteq> 0" using bytes b(3) by (auto simp: contents_def CMemData_Size_def)
  then obtain v where v: "relay_stack os p n key sq k sent ?u = Return 0 v" "co_ok v" "control v = control ?u" "nodes v = nodes ?u"
      "timers v = timers ?u" "calls v = cs @ [?send]" "head_id v = head_id ?u"
    using relay_sends [where os = os and n = n and k = k and p = p and pkg = sent and rsp = rsp and msg = msg,
        OF uf u(1) ur w2(6) us(1) _ u(2) _ _ assms(11,12) _ refl] decode_contents [OF assms(2,6) b(4) w2(9) bytes, of sent]
      assms(10,14-16) w2(11) us(2) by (auto simp: w1_def)
  have others: "node_state w2 j = None \<or> node_state w2 j = Some E_WAIT" if "j \<noteq> 0" "j \<noteq> k" for j
    using r(5) that n2 by (simp add: asleep_def)
  have c0: "control w2 = 0" using w2(10) r(4) by (simp add: w1_def)
  have run: "(case ks k of Some f \<Rightarrow> f | None \<Rightarrow> enter ?procs k) ?u = Return 0 v" using stack v(1) by simp
  obtain w' where w': "map_option (\<lambda>z. bind_res z (\<lambda>z. Inr (free_stacks z))) (ScheduleAll (run_coroutine ?procs) (w2, ks)) =
        Some (Inr (w', ks(k := None)))" "nodes w' = (nodes w)(k := None)" "timers w' = timers w2" "calls w' = calls v"
      "head_id w' = head_id v"
    using pass_ends [OF w2(2) c0 n2 _ sr(3) others r(6) run v(2)] v(3-5) by auto
  have "main_turn os ?code raw ?procs (w, ks) = Some (Inr (w', ks(k := None)))"
    using turn_reads [OF r(1) assms(4,13) w1_def l(1,2) _ l(5) w2(1)] l(4) w'(1) by simp
  then show ?thesis
    using w'(2-5) v(6,7) w2(4,12) sr(2) by (intro exI [of _ w']) (simp add: main1_turn_def w1_def)
qed

text \<open>
  C14: A reply is relayed in one round: when no timer is due and the one event is that the connection
  to the second program can be read, with one encoded package on it whose number is that of a
  request some coroutine of \<^verbatim>\<open>test1\<close> waits for, the next round of the loop waits for events, reads
  once, wakes the coroutine, which unwatches the connection if no other reply is outstanding, sends
  its client the message of the reply and ends, and frees it; no other coroutine, timer or stack
  changes.
\<close>

theorem reply_relayed:
  assumes "recv_documented os" and "pb_roundtrip p" and "resting (w, ks)" and "quiet w" and "linked w n key d"
    and "HeadPkg_Encode p pkg cid = (rp, cid')" and "sq = u32_to_int (cid + 1)" and "awaits os p ks n key d k sq" and "nodes w k = Some c"
    and "pb_parse_rsp p (Head_get_data (m_head rp)) = (rsp, True)" and "rsp_msg rsp = Some msg" and "msg \<noteq> []"
    and "delivers os w n (pkg_data rp)" and "0 \<le> server_socket (m_req c)"
    and "cs = calls w @ poll_call w # Sys_recv n 1024 # (if dom (map_of (seq_to_coroutine d)) = {sq} then [Sys_epoll_ctl CTL_DEL n 0] else [])"
    and "ret (os cs (Sys_send (server_socket (m_req c)) msg)) = int (length msg)"
  shows "\<exists>w'. main1_turn os inet_addr p raw (w, ks) = Some (Inr (w', ks(k := None))) \<and>
    calls w' = cs @ [Sys_send (server_socket (m_req c)) msg] \<and> head_id w' = head_id w \<and>
    nodes w' = (nodes w)(k := None) \<and> timers w' = (timers w)(k := None)"
  by (rule relayed [OF assms])

text \<open>
  The sleeper waits for a reply numbered 42 on its connection, descriptor 9, where a package with
  that number arrives; the message code takes the body for the message.
\<close>

definition echo_pb :: pb where
  "echo_pb = example_pb\<lparr>pb_parse_rsp := (\<lambda>bs. (\<lparr>rsp_cmd = None, rsp_data = None, rsp_msg = Some bs\<rparr>, True))\<rparr>"

definition example_awaited :: stFdData where
  "example_awaited = example_raw\<lparr>fd := 9, fd_state := E_OTHER, check := HeadPkg_Check_ptr, seq := HeadPkg_Seq_ptr,
     seq_to_coroutine := [(42, \<lparr>sr_id = 1, sr_data = CMemData_new\<rparr>)]\<rparr>"

definition example_relaying :: world where
  "example_relaying = example_asking\<lparr>m_fd_to_data := [(relay_key, example_awaited)]\<rparr>"

lemma echo_pb_facts:
  "pb_roundtrip echo_pb" "HeadPkg_Encode echo_pb (HeadPkg_SetData [9] HeadPkg_new) 41 = (example_request, 42)"
  "pb_parse_rsp echo_pb bs = (\<lparr>rsp_cmd = None, rsp_data = None, rsp_msg = Some bs\<rparr>, True)"
  "Head_get_data (m_head example_request) = [9]"
proof -
  show "pb_roundtrip echo_pb" using example_pb_roundtrip by (simp add: echo_pb_def pb_roundtrip_def)
  show "HeadPkg_Encode echo_pb (HeadPkg_SetData [9] HeadPkg_new) 41 = (example_request, 42)"
    by (simp add: example_request_def HeadPkg_Encode_def Let_def echo_pb_def)
  show "pb_parse_rsp echo_pb bs = (\<lparr>rsp_cmd = None, rsp_data = None, rsp_msg = Some bs\<rparr>, True)"
    by (simp add: echo_pb_def)
  show "Head_get_data (m_head example_request) = [9]"
    by (simp add: example_request_def HeadPkg_Encode_def Let_def HeadPkg_SetData_def Head_get_data_def)
qed

lemma example_relaying_facts:
  "resting (example_relaying, [1 \<mapsto> relay_stack os p 9 relay_key 42 1 HeadPkg_new])" "quiet example_relaying"
  "linked example_relaying 9 relay_key example_awaited"
  "awaits os p [1 \<mapsto> relay_stack os p 9 relay_key 42 1 HeadPkg_new] 9 relay_key example_awaited 1 42"
  "\<exists>c. nodes example_relaying 1 = Some c \<and> server_socket (m_req c) = 7"
proof -
  let ?w = example_relaying
  note f = example_asking_facts
  have co: "co_ok ?w" "co_live ?w" "control ?w = 0" "timers ?w = [1 \<mapsto> 1100]"
    using f(1-4) co_ok_cong [of ?w example_asking] by (simp_all add: example_relaying_def)
  have as: "asleep ?w" using f(7) by (simp add: asleep_def example_relaying_def)
  have "CExpireMgr_now ?w = 1000"
    by (simp add: CExpireMgr_now_def CTimerMS_new_def CTimerMS_GetMs_def example_relaying_def f(5) sdiv_1000_nonneg)
  then show "quiet ?w" using co(4) by (simp add: quiet_def)
  show node: "\<exists>c. nodes ?w 1 = Some c \<and> server_socket (m_req c) = 7" using f(10) by (auto simp: example_relaying_def)
  have d: "fd_read relay_key ?w = Some example_awaited" by (simp add: fd_read_def example_relaying_def)
  have e: "fd example_awaited = 9" by (simp add: example_awaited_def)
  have ok: "fd_ok ?w"
    by (auto simp: fd_ok_def example_relaying_def relay_key_def consistent_def key_wf_def key_less_def
        stIpPort_empty_def stIpPort_new_def stFd_empty_def less_stIpPort_def ip_port_less_def e sm_ok_def)
  have "relay_key \<in> fd_keys ?w \<and> socket_fd relay_key = 9 \<and> fd_visible (fd_keys ?w) relay_key"
    by (simp add: example_relaying_def fd_visible_def relay_key_def stIpPort_new_def)
  then have "CFdMgr_Get 9 ?w = Some relay_key" using Get_iff [OF ok, of 9 relay_key] by simp
  then show "linked ?w 9 relay_key example_awaited"
    using d by (simp add: linked_def example_awaited_def example_raw_def)
  show "resting (?w, [1 \<mapsto> relay_stack os p 9 relay_key 42 1 HeadPkg_new])"
    using co as ok node by (auto simp: resting_def)
  show "awaits os p [1 \<mapsto> relay_stack os p 9 relay_key 42 1 HeadPkg_new] 9 relay_key example_awaited 1 42"
    by (auto simp: awaits_def example_awaited_def)
qed

theorem reply_relayed_witness:
  "\<exists>w'. main1_turn (telling_os 9 (pkg_data example_request)) (\<lambda>_. 0) echo_pb example_raw
      (example_relaying, [1 \<mapsto> relay_stack (telling_os 9 (pkg_data example_request)) echo_pb 9 relay_key 42 1 HeadPkg_new]) = Some (Inr (w', Map.empty)) \<and>
    calls w' = calls example_relaying @ [poll_call example_relaying, Sys_recv 9 1024, Sys_epoll_ctl CTL_DEL 9 0, Sys_send 7 [9]] \<and>
    nodes w' 1 = None"
proof -
  let ?w = example_relaying
  let ?ks = "[1 \<mapsto> relay_stack (telling_os 9 (pkg_data example_request)) echo_pb 9 relay_key 42 1 HeadPkg_new]"
  note doc = telling_os_facts(1) [of 9 "pkg_data example_request"]
  obtain c where c: "nodes ?w 1 = Some c" "server_socket (m_req c) = 7" using example_relaying_facts(5) by blast
  have r: "pb_parse_rsp echo_pb (Head_get_data (m_head example_request)) = (\<lparr>rsp_cmd = None, rsp_data = None, rsp_msg = Some [9]\<rparr>, True)"
    "rsp_msg \<lparr>rsp_cmd = None, rsp_data = None, rsp_msg = Some [9]\<rparr> = Some [9]" "[9 :: u8] \<noteq> []" "42 = u32_to_int (41 + 1)"
    by (simp_all add: echo_pb_facts u32_to_int_def)
  have o: "delivers (telling_os 9 (pkg_data example_request)) ?w 9 (pkg_data example_request)" "0 \<le> server_socket (m_req c)"
    "ret (telling_os 9 (pkg_data example_request) cs (Sys_send (server_socket (m_req c)) [9])) = int (length [9 :: u8])" for cs
    using telling_os_facts(3) [of "pkg_data example_request"] by (simp_all add: example_request_length telling_os_facts(4) c(2))
  obtain w' where "main1_turn (telling_os 9 (pkg_data example_request)) (\<lambda>_. 0) echo_pb example_raw (?w, ?ks) = Some (Inr (w', ?ks(1 := None)))"
      "calls w' = (calls ?w @ poll_call ?w # Sys_recv 9 1024 # (if dom (map_of (seq_to_coroutine example_awaited)) = {42}
         then [Sys_epoll_ctl CTL_DEL 9 0] else [])) @ [Sys_send (server_socket (m_req c)) [9]]" "nodes w' = (nodes ?w)(1 := None)"
    using reply_relayed [where raw = example_raw and inet_addr = "\<lambda>_. 0", OF doc echo_pb_facts(1) example_relaying_facts(1-3)
        echo_pb_facts(2) r(4) example_relaying_facts(4) c(1) r(1-3) o(1,2) refl o(3)]
    by (elim exE conjE) (rule that; assumption)
  then show ?thesis
    by (intro exI [of _ w']) (simp add: c(2) example_awaited_def)
qed

end
