(* ===== verification/Exchange.thy ===== *)
theory Exchange
  imports Rounds
begin

section \<open>A request through both programs\<close>

text \<open>
  A client asks \<^verbatim>\<open>test1\<close>, which asks \<^verbatim>\<open>test2\<close>, which answers after ten seconds, and \<^verbatim>\<open>test1\<close> passes the
  answer on: two rounds of \<^verbatim>\<open>test1\<close> and three of \<^verbatim>\<open>test2\<close>, one of them only waiting. The first is here:
  \<^verbatim>\<open>test1\<close> forwards; those that park, answer and relay are in \<open>Rounds\<close>; the last theorem joins them.
  What makes the exchange succeed is that the number \<^verbatim>\<open>test1\<close> waits for is the one the
  reply carries, and each program numbers its packages with a counter of its own.
\<close>

subsection \<open>A request forwarded\<close>

lemma resting_step:
  assumes "resting (w, ks)" and "co_ok w'" and "control w' = 0" and "fd_ok w'"
    and "nodes w' = (nodes w)(k \<mapsto> c)" and "m_state c = E_WAIT" and "timers w' = (timers w)(k \<mapsto> e)"
  shows "resting (w', ks(k \<mapsto> f))"
proof -
  have "co_live w'"
    by (rule co_live_step [OF _ assms(2), of w k]) (use assms in \<open>simp_all add: resting_def\<close>)
  moreover have "asleep w'" using assms(1,5,6) by (simp add: resting_def asleep_def)
  ultimately show ?thesis using assms by (auto simp: resting_def)
qed

lemma Get_same_keys:
  assumes "fd_ok w" and "fd_ok w'" and "fd_keys w' = fd_keys w" and "0 \<le> n"
  shows "CFdMgr_Get n w' = CFdMgr_Get n w"
proof -
  have "CFdMgr_Get n w' = Some k \<longleftrightarrow> CFdMgr_Get n w = Some k" for k
    unfolding Get_iff [OF assms(1,4)] Get_iff [OF assms(2,4)] assms(3) by (rule refl)
  then show ?thesis by (metis option.exhaust)
qed

text \<open>What the check function of \<^verbatim>\<open>test1\<close> says of bytes that were read.\<close>

lemma checked_all:
  assumes "length (ret_bytes (recv_answer os n w)) < 2 ^ 31"
  shows "checked_size os (program_code p) check_ptr n w = int (length (ret_bytes (recv_answer os n w)))"
  using u32_to_int_small [OF assms] by (simp add: checked_size_def program_code_def ptr_defs main1_check_def recv_buffer_def)

text \<open>The round that forwards.\<close>

lemma forwarded:
  assumes "recv_documented os" and "pb_roundtrip p" and "resting (w, ks)" and "m_pkgcallback w = [(check_ptr, process_ptr)]" and "quiet w"
    and "nodes w (staticid w + 1) = None" and "k = staticid w + 1"
    and "CFdMgr_Get n w = Some ckey" and "fd_read ckey w = Some cd" and "0 \<le> n" and "fd_state cd = E_SERVER_CONN"
    and "port_type cd = PORT_TCP" and "FdMgr.check cd = check_ptr" and "delivers os w n bs" and "bs \<noteq> []"
    and "linked w m key d" and "CFdMgr_Get_ip ''10.244.181.24'' 31000 PORT_TCP w = Some key"
    and "now = tv_sec (ret_time (os (calls w @ [poll_call w]) (Sys_recv n 1024)))"
    and "HeadPkg_Encode p (HeadPkg_SetData (pb_print_req p \<lparr>req_cmd = Some 100, req_query = Some (word_of_int now)\<rparr>) HeadPkg_new)
      (head_id w) = (pkg, hid)" and "length (pkg_data pkg) < 2 ^ 31" and "sq = u32_to_int (head_id w + 1)"
    and "ret (os (calls w @ [poll_call w, Sys_recv n 1024]) (Sys_send m (pkg_data pkg))) = int (length (pkg_data pkg))"
    and "sent = ret_time (os (calls w @ [poll_call w]) (Sys_recv n 1024))"
  shows "\<exists>w' d' c. main1_turn os inet_addr p raw (w, ks) = Some (Inr (w', ks(k \<mapsto> relay_stack os p m key sq k pkg))) \<and>
    calls w' = calls w @ poll_call w # Sys_recv n 1024 # Sys_send m (pkg_data pkg) #
      (if dom (map_of (seq_to_coroutine d)) \<subseteq> {sq} then [Sys_epoll_ctl CTL_ADD m (EFDEVENT_mask FD_READ)] else []) \<and>
    head_id w' = head_id w + 1 \<and> nodes w' = (nodes w)(k \<mapsto> c) \<and> server_socket (m_req c) = n \<and>
    resting (w', ks(k \<mapsto> relay_stack os p m key sq k pkg)) \<and> linked w' m key d' \<and>
    awaits os p (ks(k \<mapsto> relay_stack os p m key sq k pkg)) m key d' k sq \<and>
    (\<forall>sq'. sq' \<noteq> sq \<longrightarrow> map_of (seq_to_coroutine d') sq' = map_of (seq_to_coroutine d) sq') \<and>
    timers w' = (timers w)(k \<mapsto> CExpireMgr_now w' + ucast (ucast (CTimerMS_LeftTime (clock w') (CTimerMS_new sent TIMEOUT)) :: u32)) \<and>
    clock_told os w'"
proof -
  let ?procs = "\<lambda>_. process1 os inet_addr p raw" and ?code = "program_code p"
  define w1 where "w1 = snd (sys os (poll_call w) w)"
  have r: "co_ok w" "co_live w" "fd_ok w" "control w = 0" "asleep w" "dom ks \<subseteq> dom (nodes w)"
    using assms(3) by (simp_all add: resting_def)
  have l: "CFdMgr_Get m w = Some key" "fd_read key w = Some d" "0 \<le> fd d" "fd d = m" "sm_sorted (seq_to_coroutine d)"
    "\<forall>sq sr. map_of (seq_to_coroutine d) sq = Some sr \<longrightarrow> mem_ok (sr_data sr)"
    using assms(16) by (simp_all add: linked_def)
  have a: "ret_bytes (recv_answer os n w1) = bs" "ret (recv_answer os n w1) = int (length bs)"
    using assms(14) by (simp_all add: delivers_def recv_answer_def w1_def)
  then have pos: "0 < ret (recv_answer os n w1)" using assms(15) by simp
  have sz: "int (length bs) = checked_size os ?code (FdMgr.check cd) n w1"
    using checked_all [of os n w1 p] recv_buffer_ok(1) [OF assms(1) pos] a(1) assms(13) by simp
  have k0: "k \<noteq> 0" using assms(6,7) co_okD(4) [OF r(1)] r(4) by auto
  obtain cb where cb: "sm_find (<) (FdMgr.check cd) (m_pkgcallback w1) = Some cb" "cb \<noteq> 0"
    using assms(4,13) by (simp add: sm_find_def sm_entry_def sm_lower_bound_def ptr_defs w1_def)
  have p1: "co_ok w1" "co_live w1" "nodes w1 (staticid w1 + 1) = None" "fd_read ckey w1 = Some cd"
    using r(1,2) assms(6,9) by (simp_all add: w1_def fd_read_def)
  have p2: "FdMgr.check cd \<noteq> 0" "0 < int (length bs)" "int (length bs) \<le> ret (recv_answer os n w1)"
    using pos a(2) by (simp_all add: assms(13) ptr_defs)
  obtain w2 c where w2: "DoReadTcp os ?code n ckey w1 = Inr (w2, IO_OK)" "co_ok w2" "nodes w2 = (nodes w1)(staticid w1 + 1 \<mapsto> c)"
      "m_state c = E_READY" "m_cb (m_req c) = cb" "server_socket (m_req c) = n" "timers w2 = timers w1" "control w2 = control w1"
      "m_fd_to_data w2 = m_fd_to_data w1" "calls w2 = calls w1 @ [Sys_recv n 1024]" "head_id w2 = head_id w1"
      "clock w2 = ret_time (recv_answer os n w1)"
    using request_result [OF assms(1) p1 assms(11) p2(1) assms(10) sz p2(2,3) cb(1)] by (elim exE conjE) (rule that; assumption)
  have n2: "nodes w2 = (nodes w)(k \<mapsto> c)" using w2(3) by (simp add: w1_def assms(7))
  have fds: "m_fd_to_data w2 = m_fd_to_data w" using w2(9) by (simp add: w1_def)
  let ?u = "w2\<lparr>m_active := Some k, control := k\<rparr>"
  have u: "co_ok ?u" "nodes ?u k = Some c" using Schedule_result(2) [OF w2(2), of k] n2 by simp_all
  have uf: "fd_ok ?u" using r(3) fd_ok_cong [of ?u w] fds by simp
  have uk: "CFdMgr_Get_ip ''10.244.181.24'' 31000 PORT_TCP ?u = Some key" "fd_read key ?u = Some d"
    using assms(17) l(2) fds by (simp_all add: CFdMgr_Get_ip_def CFdMgr_Exist_ip_def fd_read_def)
  have ue: "HeadPkg_Encode p (HeadPkg_SetData (pb_print_req p
      \<lparr>req_cmd = Some 100, req_query = Some (word_of_int (tv_sec (clock ?u)))\<rparr>) HeadPkg_new) (head_id ?u) = (pkg, hid)"
    "sq = u32_to_int (head_id ?u + 1)" "ret (os (calls ?u) (Sys_send (fd d) (pkg_data pkg))) = int (length (pkg_data pkg))"
    using assms(18,19,21,22) w2(10-12) l(4) by (simp_all add: w1_def recv_answer_def)
  have old: "\<forall>sr. map_of (seq_to_coroutine d) sq = Some sr \<longrightarrow> mem_ok (sr_data sr)" using l(6) by blast
  obtain ms v d1 sr where v: "process1 os inet_addr p raw k ?u = Wait ms v (relay_stack os p (fd d) key sq k pkg)" "fd_ok v" "co_ok v"
      "nodes v = nodes ?u" "timers v = timers ?u" "control v = control ?u" "head_id v = head_id ?u + 1" "fd_keys v = fd_keys ?u"
      "fd_read key v = Some d1" "d1 = d\<lparr>fd_state := E_OTHER, seq_to_coroutine := sm_assign (<) sq sr (seq_to_coroutine d), last_op_ret := IO_OK\<rparr>"
      "sr_id sr = control ?u" "mem_ok (sr_data sr)" "ms = ucast (CTimerMS_LeftTime (clock v) (CTimerMS_new (clock ?u) TIMEOUT))" "clock_told os v"
      "calls v = calls ?u @ Sys_send (fd d) (pkg_data pkg) #
        (if dom (map_of (seq_to_coroutine d)) \<subseteq> {sq} then [Sys_epoll_ctl CTL_ADD (fd d) (EFDEVENT_mask FD_READ)] else [])"
    using process1_waits [where os = os and raw = raw and inet_addr = inet_addr, OF assms(2) uf u uk l(5,3) ue(1) assms(20) ue(2,3) old]
    by (elim exE conjE) (rule that; assumption)
  let ?f = "relay_stack os p m key sq k pkg"
  have ks: "ks k = None" "dom ks \<subseteq> insert k (dom (nodes w))" using r(6) assms(6,7) by auto
  have "enter ?procs k ?u = process1 os inet_addr p raw k ?u"
    by (rule enter_runs [OF u(1) _ u(2)]) (use w2(5) cb(2) in simp_all)
  then have run: "(case ks k of Some f \<Rightarrow> f | None \<Rightarrow> enter ?procs k) ?u = Wait ms v ?f" using ks(1) v(1) l(4) by simp
  have others: "node_state w2 j = None \<or> node_state w2 j = Some E_WAIT" if "j \<noteq> 0" "j \<noteq> k" for j
    using r(5) that n2 by (simp add: asleep_def)
  have c0: "control w2 = 0" using w2(8) r(4) by (simp add: w1_def)
  obtain w' where w': "map_option (\<lambda>z. bind_res z (\<lambda>z. Inr (free_stacks z))) (ScheduleAll (run_coroutine ?procs) (w2, ks)) =
        Some (Inr (w', ks(k \<mapsto> ?f)))" "nodes w' = (nodes w)(k \<mapsto> c\<lparr>m_state := E_WAIT\<rparr>)"
      "timers w' = (timers w2)(k \<mapsto> CExpireMgr_now v + ucast ms)" "calls w' = calls v" "head_id w' = head_id v"
      "m_fd_to_data w' = m_fd_to_data v" "co_ok w'" "control w' = 0" "clock w' = clock v"
    using pass_waits [OF w2(2) c0 n2 w2(4) k0 others ks(2) run v(3)] v(4-6) by auto
  have turn: "main1_turn os inet_addr p raw (w, ks) = Some (Inr (w', ks(k \<mapsto> ?f)))"
    using turn_reads [OF r(1) assms(5,14) w1_def assms(8,9) _ assms(12) w2(1)] assms(11) w'(1) by (simp add: main1_turn_def)
  have ok': "fd_ok w'" using v(2) fd_ok_cong [OF w'(6)] by simp
  have rest: "resting (w', ks(k \<mapsto> ?f))"
    by (rule resting_step [OF assms(3) w'(7,8) ok' w'(2)]) (use w'(3) w2(7) in \<open>simp_all add: w1_def\<close>)
  have get: "CFdMgr_Get m w' = Some key"
    using Get_same_keys [OF r(3) ok' _, of m] l(1,3,4) v(8) fds w'(6) by simp
  have d1: "map_of (seq_to_coroutine d1) = (map_of (seq_to_coroutine d))(sq \<mapsto> sr)" "sm_sorted (seq_to_coroutine d1)"
    using v(10) l(5) by (simp_all add: sm_assign_lin)
  have "linked w' m key d1"
    using assms(16) get v(9) w'(6) d1 v(12) by (auto simp: linked_def fd_read_def v(10) split: if_splits)
  moreover have "awaits os p (ks(k \<mapsto> ?f)) m key d1 k sq"
    using k0 d1(1) v(11) by (auto simp: awaits_def)
  moreover have "calls w' = calls w @ poll_call w # Sys_recv n 1024 # Sys_send m (pkg_data pkg) #
      (if dom (map_of (seq_to_coroutine d)) \<subseteq> {sq} then [Sys_epoll_ctl CTL_ADD m (EFDEVENT_mask FD_READ)] else [])"
    using w'(4) v(15) w2(10) l(4) by (simp add: w1_def)
  moreover have "timers w' = (timers w)(k \<mapsto> CExpireMgr_now w' + ucast (ucast (CTimerMS_LeftTime (clock w') (CTimerMS_new sent TIMEOUT)) :: u32))"
    using w'(3,9) w2(7,12) v(13) by (simp add: w1_def CExpireMgr_now_def recv_answer_def assms(23))
  moreover have "clock_told os w'" using w'(9) v(14) by (simp add: clock_told_def)
  moreover have "head_id w' = head_id w + 1" using w'(5) v(7) w2(11) by (simp add: w1_def)
  ultimately show ?thesis
    using turn rest w'(2) w2(6) d1(1)
    by (intro exI [of _ w'] exI [of _ d1] exI [of _ "c\<lparr>m_state := E_WAIT\<rparr>"]) simp
qed

text \<open>
  C11: A request is forwarded in one round: when no timer is due and the one event is that a client's
  connection can be read, whatever bytes are on it, and \<^verbatim>\<open>test1\<close> has an open connection to the second
  program, the next round waits for events, reads once, and makes a coroutine that sends one package
  with the next number on that connection, watches the connection if nobody else does, and sleeps,
  waiting for a reply with that number; every coroutine sleeps after it and nothing else changes.
\<close>

theorem request_forwarded:
  assumes "recv_documented os" and "pb_roundtrip p" and "resting (w, ks)" and "m_pkgcallback w = [(check_ptr, process_ptr)]" and "quiet w"
    and "nodes w (staticid w + 1) = None" and "k = staticid w + 1"
    and "CFdMgr_Get n w = Some ckey" and "fd_read ckey w = Some cd" and "0 \<le> n" and "fd_state cd = E_SERVER_CONN"
    and "port_type cd = PORT_TCP" and "FdMgr.check cd = check_ptr" and "delivers os w n bs" and "bs \<noteq> []"
    and "linked w m key d" and "CFdMgr_Get_ip ''10.244.181.24'' 31000 PORT_TCP w = Some key"
    and "now = tv_sec (ret_time (os (calls w @ [poll_call w]) (Sys_recv n 1024)))"
    and "HeadPkg_Encode p (HeadPkg_SetData (pb_print_req p \<lparr>req_cmd = Some 100, req_query = Some (word_of_int now)\<rparr>) HeadPkg_new)
      (head_id w) = (pkg, hid)" and "length (pkg_data pkg) < 2 ^ 31" and "sq = u32_to_int (head_id w + 1)"
    and "ret (os (calls w @ [poll_call w, Sys_recv n 1024]) (Sys_send m (pkg_data pkg))) = int (length (pkg_data pkg))"
  shows "\<exists>w' d' c. main1_turn os inet_addr p raw (w, ks) = Some (Inr (w', ks(k \<mapsto> relay_stack os p m key sq k pkg))) \<and>
    calls w' = calls w @ poll_call w # Sys_recv n 1024 # Sys_send m (pkg_data pkg) #
      (if dom (map_of (seq_to_coroutine d)) \<subseteq> {sq} then [Sys_epoll_ctl CTL_ADD m (EFDEVENT_mask FD_READ)] else []) \<and>
    head_id w' = head_id w + 1 \<and> nodes w' = (nodes w)(k \<mapsto> c) \<and> server_socket (m_req c) = n \<and>
    resting (w', ks(k \<mapsto> relay_stack os p m key sq k pkg)) \<and> linked w' m key d' \<and>
    awaits os p (ks(k \<mapsto> relay_stack os p m key sq k pkg)) m key d' k sq \<and>
    (\<forall>sq'. sq' \<noteq> sq \<longrightarrow> map_of (seq_to_coroutine d') sq' = map_of (seq_to_coroutine d) sq')"
proof -
  let ?ks = "ks(k \<mapsto> relay_stack os p m key sq k pkg)"
  obtain w' d' c where "main1_turn os inet_addr p raw (w, ks) = Some (Inr (w', ?ks))"
      "calls w' = calls w @ poll_call w # Sys_recv n 1024 # Sys_send m (pkg_data pkg) #
        (if dom (map_of (seq_to_coroutine d)) \<subseteq> {sq} then [Sys_epoll_ctl CTL_ADD m (EFDEVENT_mask FD_READ)] else [])"
      "head_id w' = head_id w + 1" "nodes w' = (nodes w)(k \<mapsto> c)" "server_socket (m_req c) = n" "resting (w', ?ks)"
      "linked w' m key d'" "awaits os p ?ks m key d' k sq"
      "\<forall>sq'. sq' \<noteq> sq \<longrightarrow> map_of (seq_to_coroutine d') sq' = map_of (seq_to_coroutine d) sq'"
    using forwarded [where raw = raw and os = os and inet_addr = inet_addr, OF assms refl] by (elim exE conjE) (rule that; assumption)
  then show ?thesis by (intro exI [of _ w'] exI [of _ d'] exI [of _ c]) simp
qed

text \<open>The first program with a client on descriptor 7 and an idle link on 9.\<close>

definition example_linked :: world where
  "example_linked = example_serving
     \<lparr>m_fd_to_data := [(fd_key 7, example_raw\<lparr>fd := 7, fd_state := E_SERVER_CONN, check := check_ptr\<rparr>),
        (relay_key, example_awaited\<lparr>seq_to_coroutine := []\<rparr>)],
      m_pkgcallback := [(check_ptr, process_ptr)]\<rparr>"

lemma example_linked_facts:
  "resting (example_linked, Map.empty)" "quiet example_linked" "nodes example_linked (staticid example_linked + 1) = None"
  "CFdMgr_Get 7 example_linked = Some (fd_key 7)"
  "fd_read (fd_key 7) example_linked = Some (example_raw\<lparr>fd := 7, fd_state := E_SERVER_CONN, check := check_ptr\<rparr>)"
  "linked example_linked 9 relay_key (example_awaited\<lparr>seq_to_coroutine := []\<rparr>)"
  "CFdMgr_Get_ip ''10.244.181.24'' 31000 PORT_TCP example_linked = Some relay_key"
proof -
  let ?w = example_linked
  note f = example_serving_facts [OF example_procs_ok]
  have inv: "event_inv example_procs (example_serving, Map.empty)" "asleep example_serving"
    using f(1) by (simp_all add: loop_inv_def)
  have ne: "fd_key 7 \<noteq> relay_key" by (simp add: fd_key_def relay_key_def stIpPort_new_def)
  have e: "fd example_awaited = 9" by (simp add: example_awaited_def)
  have ok: "fd_ok ?w"
    by (auto simp: fd_ok_def example_linked_def relay_key_def fd_key_def consistent_def key_wf_def key_less_def
        stIpPort_empty_def stIpPort_new_def stFd_empty_def less_stIpPort_def ip_port_less_def e sm_ok_def)
  show "resting (?w, Map.empty)"
    using event_invD(2,4) [OF inv(1)] inv(2) f(2) ok co_ok_cong [of ?w example_serving]
    by (simp add: resting_def asleep_def) (simp add: example_linked_def)
  show "quiet ?w" "nodes ?w (staticid ?w + 1) = None"
    using f(3-5) by (simp_all add: quiet_def example_linked_def)
  have keys: "fd_key 7 \<in> fd_keys ?w" "relay_key \<in> fd_keys ?w" by (simp_all add: example_linked_def)
  then show "CFdMgr_Get 7 ?w = Some (fd_key 7)" by (intro Get_listen [OF ok]) simp_all
  show "fd_read (fd_key 7) ?w = Some (example_raw\<lparr>fd := 7, fd_state := E_SERVER_CONN, check := check_ptr\<rparr>)"
    by (simp add: fd_read_def example_linked_def)
  have "fd_read relay_key ?w = Some (example_awaited\<lparr>seq_to_coroutine := []\<rparr>)"
    using ne by (simp add: fd_read_def example_linked_def)
  moreover have "relay_key \<in> fd_keys ?w \<and> socket_fd relay_key = 9 \<and> fd_visible (fd_keys ?w) relay_key"
    using keys(2) by (simp add: example_linked_def fd_visible_def relay_key_def fd_key_def stIpPort_new_def)
  then have "CFdMgr_Get 9 ?w = Some relay_key" using Get_iff [OF ok, of 9 relay_key] by simp
  ultimately show "linked ?w 9 relay_key (example_awaited\<lparr>seq_to_coroutine := []\<rparr>)"
    by (simp add: linked_def example_awaited_def example_raw_def)
  show "CFdMgr_Get_ip ''10.244.181.24'' 31000 PORT_TCP ?w = Some relay_key"
    using keys(2) Get_ip_iff [OF ok, of "''10.244.181.24''" 31000 PORT_TCP relay_key]
    by (simp add: relay_key_def stIpPort_empty_def)
qed

theorem request_forwarded_witness:
  "\<exists>w' d' bs ks'. main1_turn (telling_os 7 [1, 2, 3]) (\<lambda>_. 0) example_pb example_raw (example_linked, Map.empty) = Some (Inr (w', ks')) \<and>
    calls w' = calls example_linked @ [poll_call example_linked, Sys_recv 7 1024, Sys_send 9 bs, Sys_epoll_ctl CTL_ADD 9 1] \<and>
    awaits (telling_os 7 [1, 2, 3]) example_pb ks' 9 relay_key d' 1 (u32_to_int (head_id example_linked + 1))"
proof -
  let ?w = example_linked and ?d = "example_awaited\<lparr>seq_to_coroutine := []\<rparr>"
  let ?now = "tv_sec (ret_time ((telling_os 7 [1, 2, 3]) (calls ?w @ [poll_call ?w]) (Sys_recv 7 1024)))"
  note f = example_linked_facts
  note doc = telling_os_facts(1) [of 7 "[1, 2, 3]"]
  have id: "1 = staticid ?w + 1" using example_serving_facts(4) [OF example_procs_ok] by (simp add: example_linked_def)
  have cbs: "m_pkgcallback ?w = [(check_ptr, process_ptr)]" by (simp add: example_linked_def)
  have del: "delivers (telling_os 7 [1, 2, 3]) ?w 7 [1, 2, 3]" by (rule telling_os_facts(3)) simp
  obtain pkg hid where e: "HeadPkg_Encode example_pb (HeadPkg_SetData (pb_print_req example_pb
      \<lparr>req_cmd = Some 100, req_query = Some (word_of_int ?now)\<rparr>) HeadPkg_new) (head_id ?w) = (pkg, hid)"
    by fastforce
  have len: "length (pkg_data pkg) < 2 ^ 31"
    using e by (auto simp: HeadPkg_Encode_def HeadPkg_SetData_def HeadPkg_new_def Head_new_def example_pb_def Let_def
        bytes32_def Head_get_data_def)
  have send: "ret ((telling_os 7 [1, 2, 3]) (calls ?w @ [poll_call ?w, Sys_recv 7 1024]) (Sys_send 9 (pkg_data pkg))) = int (length (pkg_data pkg))"
    by (rule telling_os_facts(4))
  have c: "(0 :: int) \<le> 7" "fd_state (example_raw\<lparr>fd := 7, fd_state := E_SERVER_CONN, check := check_ptr\<rparr>) = E_SERVER_CONN"
    "port_type (example_raw\<lparr>fd := 7, fd_state := E_SERVER_CONN, check := check_ptr\<rparr>) = PORT_TCP"
    "FdMgr.check (example_raw\<lparr>fd := 7, fd_state := E_SERVER_CONN, check := check_ptr\<rparr>) = check_ptr" "[1 :: u8, 2, 3] \<noteq> []"
    by (simp_all add: example_raw_def)
  let ?ks = "[1 \<mapsto> relay_stack (telling_os 7 [1, 2, 3]) example_pb 9 relay_key (u32_to_int (head_id ?w + 1)) 1 pkg]"
  obtain w' d' where "main1_turn (telling_os 7 [1, 2, 3]) (\<lambda>_. 0) example_pb example_raw (?w, Map.empty) = Some (Inr (w', ?ks))"
      "calls w' = calls ?w @ poll_call ?w # Sys_recv 7 1024 # Sys_send 9 (pkg_data pkg) #
        (if dom (map_of (seq_to_coroutine ?d)) \<subseteq> {u32_to_int (head_id ?w + 1)}
         then [Sys_epoll_ctl CTL_ADD 9 (EFDEVENT_mask FD_READ)] else [])"
      "awaits (telling_os 7 [1, 2, 3]) example_pb ?ks 9 relay_key d' 1 (u32_to_int (head_id ?w + 1))"
    using request_forwarded [where raw = example_raw and inet_addr = "\<lambda>_. 0", OF doc example_pb_roundtrip f(1) cbs f(2,3) id f(4,5)
        c(1-4) del c(5) f(6,7) refl e len refl send]
    by (elim exE conjE) (rule that; assumption)
  then show ?thesis
    by (intro exI [of _ w'] exI [of _ d'] exI [of _ "pkg_data pkg"] exI [of _ ?ks]) (simp add: EPOLLIN_def)
qed

subsection \<open>A request served, from its arrival to its reply\<close>

text \<open>A pass in which everybody sleeps does nothing, and a round without an event nothing but wait.\<close>

lemma pass_idle:
  assumes "co_ok w" and "asleep w" and "dom ks \<subseteq> dom (nodes w)"
  shows "map_option (\<lambda>z. bind_res z (\<lambda>z. Inr (free_stacks z))) (ScheduleAll run (w, ks)) = Some (Inr (w, ks))"
proof -
  have "j = 0 \<or> m_state c = E_WAIT" if "(j, c) \<in> set (m_idtonode w)" for j c
  proof -
    have "nodes w j = Some c" using map_of_in_set [OF co_okD(2) [OF assms(1)]] that by simp
    then show ?thesis using assms(2) by (auto simp: asleep_def)
  qed
  then have "all_asleep (m_idtonode w)" by (auto simp: all_asleep_def)
  then have "ScheduleAll run (w, ks) = Some (Inr (w, ks))"
    using loop_skip [of "(w, ks)" "[]" "m_idtonode w" "[]" run] assms(1)
    by (simp add: ScheduleAll_def ScheduleAll_loop.simps)
  moreover have "ks |` dom (nodes w) = ks"
  proof
    fix j
    show "(ks |` dom (nodes w)) j = ks j"
    proof (cases "nodes w j")
      case None
      then have "ks j = None" using assms(3) by (meson domIff subsetD)
      then show ?thesis by (simp add: restrict_map_def)
    qed (simp add: restrict_map_def domIff)
  qed
  ultimately show ?thesis by (simp add: free_stacks_def)
qed

lemma loop_inv_parts:
  assumes "loop_inv procs (w, ks)"
  shows "event_inv procs (w, ks)" "asleep w" "dom ks \<subseteq> dom (nodes w)"
  using assms by (simp_all add: loop_inv_def event_inv_def)

lemma turn_idles:
  assumes "co_ok w" and "asleep w" and "dom ks \<subseteq> dom (nodes w)" and "quiet w" and "ret (os (calls w) (poll_call w)) = 0"
  shows "main_turn os code raw procs (w, ks) = Some (Inr (snd (sys os (poll_call w) w), ks))"
proof -
  let ?w1 = "snd (sys os (poll_call w) w)"
  have "CExpireMgr_NextWaitTime w = (fst (CExpireMgr_NextWaitTime w), 0)"
    using next_idle [OF co_okD(1) [OF assms(1)]] assms(4) by (simp add: quiet_def prod_eq_iff)
  then have "RunOnce os code raw (run_coroutine procs) (w, ks) = Inr ((?w1, ks), IO_OK)"
    using assms(5) by (cases "CExpireMgr_NextWaitTime w") (simp add: RunOnce_def NUM_100_def case_prod_beta Let_def poll_call_def)
  moreover have "map_option (\<lambda>z. bind_res z (\<lambda>z. Inr (free_stacks z))) (ScheduleAll (run_coroutine procs) (?w1, ks)) = Some (Inr (?w1, ks))"
    by (rule pass_idle) (use assms(1-3) in \<open>simp_all add: asleep_def\<close>)
  ultimately show ?thesis by (simp add: main_turn_def)
qed

lemma poll_of_one:
  assumes "co_ok w" and "quiet w" and "timers w = [k \<mapsto> CExpireMgr_now w + 10000]"
  shows "poll_call w = Sys_epoll_wait 99 10000"
proof -
  have t: "timers w k = Some (CExpireMgr_now w + 10000)" by (simp add: assms(3))
  obtain i e where "CExpireMgr_NextWaitTime w = (e - CExpireMgr_now w, 0)" "timers w i = Some e"
    using next_wait [OF co_okD(1) [OF assms(1)] t] assms(2) by (auto simp: quiet_def)
  then have "CExpireMgr_NextWaitTime w = (10000, 0)" by (auto simp: assms(3) split: if_splits)
  then show ?thesis by (simp add: poll_call_def to_int_def)
qed

lemma served:
  assumes "recv_documented os" and "pb_roundtrip p"
    and "loop_inv (\<lambda>_. process2 os p localtime) (w, ks)" and "co_live w" and "timers w = Map.empty" and "nodes w (staticid w + 1) = None"
    and "CFdMgr_Get n w = Some key" and "fd_read key w = Some d" and "0 \<le> n"
    and "fd_state d = E_SERVER_CONN" and "port_type d = PORT_TCP" and "FdMgr.check d = HeadPkg_Check_ptr"
    and "HeadPkg_Encode p pkg cid = (rq, cid')" and "pb_parse_req p (Head_get_data (m_head rq)) = (req, True)"
    and "delivers os w n (pkg_data rq)"
    and "now = CExpireMgr_now (w\<lparr>clock := ret_time (os (calls w @ [poll_call w]) (Sys_recv n 1024))\<rparr>)" and "now < now + 10000"
    and "b = os (calls w @ [poll_call w, Sys_recv n 1024]) (Sys_epoll_wait 99 10000)" and "ret b = 0"
    and "now + 10000 \<le> CExpireMgr_now (w\<lparr>clock := ret_time b\<rparr>)"
    and "HeadPkg_Encode p (HeadPkg_SetData (pb_print_rsp p (data_rsp localtime req (w\<lparr>clock := ret_time b\<rparr>)))
      (fst (HeadPkg_Body (HeadPkg_new\<lparr>m_head := m_head rq\<rparr>)))) (head_id w) = (rp, hid)"
    and "ret (os (calls w @ [poll_call w, Sys_recv n 1024, Sys_epoll_wait 99 10000]) (Sys_send n (pkg_data rp))) = int (length (pkg_data rp))"
  shows "\<exists>w'. main_reach os (program_code p) raw (\<lambda>_. process2 os p localtime) (w, ks) (w', ks) \<and>
    calls w' = calls w @ [poll_call w, Sys_recv n 1024, Sys_epoll_wait 99 10000, Sys_send n (pkg_data rp)] \<and>
    head_id w' = head_id w + 1 \<and> nodes w' = nodes w \<and> timers w' = Map.empty \<and> m_fd_to_data w' = m_fd_to_data w \<and>
    loop_inv (\<lambda>_. process2 os p localtime) (w', ks)"
proof -
  let ?k = "staticid w + 1" and ?procs = "\<lambda>_. process2 os p localtime" and ?code = "program_code p"
  let ?f = "process2_reply os p localtime ?k (fst (HeadPkg_Body (HeadPkg_new\<lparr>m_head := m_head rq\<rparr>))) req"
  have q: "quiet w" by (simp add: quiet_def assms(5))
  obtain w1 c where w1: "main2_turn os p localtime raw (w, ks) = Some (Inr (w1, ks(?k \<mapsto> ?f)))"
      "calls w1 = calls w @ [poll_call w, Sys_recv n 1024]" "head_id w1 = head_id w" "m_fd_to_data w1 = m_fd_to_data w"
      "nodes w1 = (nodes w)(?k \<mapsto> c)" "server_socket (m_req c) = n" "timers w1 = (timers w)(?k \<mapsto> now + 10000)"
      "loop_inv ?procs (w1, ks(?k \<mapsto> ?f))" "clock w1 = ret_time (os (calls w @ [poll_call w]) (Sys_recv n 1024))"
    using parked [where raw = raw and os = os, OF assms(1-4) q assms(6-15) refl] unfolding assms(16) [symmetric]
    by (elim exE conjE) (rule that; simp)
  note i1 = loop_inv_parts [OF w1(8)]
  note ok1 = event_invD(2) [OF i1(1)]
  have now1: "CExpireMgr_now w1 = now" using w1(9) by (simp add: CExpireMgr_now_def assms(16))
  have t1: "timers w1 = [?k \<mapsto> CExpireMgr_now w1 + 10000]" using w1(7) assms(5) now1 by simp
  have q1: "quiet w1" using assms(17) now1 by (simp add: quiet_def t1)
  have p1: "poll_call w1 = Sys_epoll_wait 99 10000" by (rule poll_of_one [OF ok1 q1 t1])
  define w2 where "w2 = snd (sys os (poll_call w1) w1)"
  have idle: "main_turn os ?code raw ?procs (w1, ks(?k \<mapsto> ?f)) = Some (Inr (w2, ks(?k \<mapsto> ?f)))"
    unfolding w2_def by (rule turn_idles [OF ok1 i1(2,3) q1]) (simp add: p1 w1(2) assms(18,19) [symmetric])
  have inv2: "loop_inv ?procs (w2, ks(?k \<mapsto> ?f))"
    by (rule reach_loop_inv [OF _ w1(8)], rule main_reach.more [OF main_reach.start], rule main_step.round [OF idle])
  have c2: "clock w2 = ret_time b" by (simp add: w2_def sys_def Let_def p1 w1(2) assms(18))
  have t2: "timers w2 = [?k \<mapsto> now + 10000]" using t1 now1 by (simp add: w2_def)
  have k0: "?k \<noteq> 0"
    using assms(6) co_okD(4) [OF event_invD(2) [of ?procs w ks]] event_invD(4) [of ?procs w ks] assms(3) by (auto simp: loop_inv_def)
  have d2: "timers w2 0 = None" "timers w2 ?k = Some (now + 10000)" "now + 10000 \<le> CExpireMgr_now w2"
    "\<forall>j e'. timers w2 j = Some e' \<longrightarrow> now + 10000 < e' \<or> now + 10000 = e' \<and> ?k \<le> j"
    using k0 c2 assms(20) by (simp_all add: t2 CExpireMgr_now_def)
  have n2: "nodes w2 ?k = Some c" using w1(5) by (simp add: w2_def)
  have e2: "HeadPkg_Encode p (HeadPkg_SetData (pb_print_rsp p (data_rsp localtime req w2))
      (fst (HeadPkg_Body (HeadPkg_new\<lparr>m_head := m_head rq\<rparr>)))) (head_id w2) = (rp, hid)"
    using assms(21) c2 w1(3) by (simp add: data_rsp_def w2_def)
  have s2: "0 \<le> server_socket (m_req c)"
    "ret (os (calls w2) (Sys_send (server_socket (m_req c)) (pkg_data rp))) = int (length (pkg_data rp))"
    using assms(9,22) w1(2,6) by (simp_all add: w2_def p1)
  obtain w3 where w3: "main2_turn os p localtime raw (w2, ks(?k \<mapsto> ?f)) = Some (Inr (w3, ks(?k \<mapsto> ?f, ?k := None)))"
      "calls w3 = calls w2 @ [Sys_send (server_socket (m_req c)) (pkg_data rp)]" "head_id w3 = head_id w2 + 1"
      "nodes w3 = (nodes w2)(?k := None)" "timers w3 = (timers w2)(?k := None)" "m_fd_to_data w3 = m_fd_to_data w2"
      "loop_inv ?procs (w3, ks(?k \<mapsto> ?f, ?k := None))"
    using answered [where raw = raw, OF inv2 d2 fun_upd_same n2 s2(1) e2 s2(2)] by (elim exE conjE) (rule that; assumption)
  have "ks ?k = None" using event_invD(7) [of ?procs w ks ?k] assms(3,6) by (simp add: loop_inv_def)
  then have ks: "ks(?k \<mapsto> ?f, ?k := None) = ks" by (simp add: fun_upd_idem)
  have reach: "main_reach os ?code raw ?procs (w, ks) (w3, ks)"
    using main_reach.more [OF main_reach.more [OF main_reach.more [OF main_reach.start
        main_step.round [OF w1(1) [unfolded main2_turn_def]]] main_step.round [OF idle]]
        main_step.round [OF w3(1) [unfolded main2_turn_def ks]]] by blast
  have "nodes w3 = nodes w" using w3(4) w1(5) assms(6) by (simp add: w2_def fun_upd_idem)
  then show ?thesis
    using reach w3(2,3,5-7) w1(2-4,6) t2 unfolding ks
    by (intro exI [of _ w3]) (simp add: w2_def p1)
qed

subsection \<open>The numbers of the two programs\<close>

lemma stranded:
  assumes "recv_documented os" and "pb_roundtrip p" and "resting (w, ks)" and "quiet w" and "linked w n key d"
    and "HeadPkg_Encode p pkg cid = (rp, cid')" and "map_of (seq_to_coroutine d) (u32_to_int (cid + 1)) = None"
    and "delivers os w n (pkg_data rp)"
  shows "\<exists>w'. main1_turn os inet_addr p raw (w, ks) = Some (Inr (w', ks)) \<and>
    calls w' = calls w @ [poll_call w, Sys_recv n 1024, Sys_epoll_ctl CTL_DEL n 0] \<and> nodes w' = nodes w \<and> timers w' = timers w"
proof -
  let ?code = "program_code p"
  define w1 where "w1 = snd (sys os (poll_call w) w)"
  note b = delivered_package [OF assms(1,8) w1_def assms(2,6)]
  have r: "co_ok w" "asleep w" "dom ks \<subseteq> dom (nodes w)" using assms(3) by (simp_all add: resting_def)
  have l: "CFdMgr_Get n w = Some key" "fd_read key w = Some d" "0 \<le> n" "fd_state d = E_OTHER" "port_type d = PORT_TCP"
    "FdMgr.check d = HeadPkg_Check_ptr" "FdMgr.seq d = HeadPkg_Seq_ptr" "sm_sorted (seq_to_coroutine d)" "fd d = n"
    using assms(5) by (simp_all add: linked_def)
  have p: "0 < ret (recv_answer os n w1)" "fd_read key w1 = Some d" "FdMgr.check d \<noteq> 0"
    "0 < checked_size os ?code (FdMgr.check d) n w1"
    using b(2,3,5) l(2) by (simp_all add: l(6) w1_def fd_read_def) (simp add: ptr_defs)
  define w2 where "w2 = snd (sys os (Sys_epoll_ctl CTL_DEL n 0) (after_recv os n w1))"
  have read: "DoReadTcp os ?code n key w1 = Inr (w2, IO_ERR)"
    using read_reply [OF assms(1) l(3) p(1-3) l(4) p(4)] b(5,6) assms(7) l(6-9)
    by (simp add: DeliverReply_def sm_find_lin Let_def CMonitorEpoll_Del_def case_prod_beta w2_def) (simp add: ptr_defs)
  have w2: "co_ok w2" "asleep w2" "dom ks \<subseteq> dom (nodes w2)" using r by (simp_all add: w2_def w1_def asleep_def)
  have "main1_turn os inet_addr p raw (w, ks) = Some (Inr (w2, ks))"
    using turn_reads [OF r(1) assms(4,8) w1_def l(1,2) _ l(5) read] l(4) pass_idle [OF w2] by (simp add: main1_turn_def)
  then show ?thesis by (intro exI [of _ w2]) (simp add: w2_def w1_def)
qed

lemma u32_to_int_inj: "u32_to_int x = u32_to_int y \<longleftrightarrow> x = y"
  by (auto simp: u32_to_int_def intro: signed_word_eqI)

text \<open>
  C10: The exchange works only while the two programs have sent equally many packages: \<^verbatim>\<open>test2\<close>, due to
  answer, sends its reply under the next number of its own counter, not the request's number. When
  that reply reaches \<^verbatim>\<open>test1\<close>, where a coroutine waits for the answer to its request, sent when \<^verbatim>\<open>test1\<close>
  had counted to \<open>a\<close>, the message is passed on to the client exactly if the counter of \<^verbatim>\<open>test2\<close> was also
  at \<open>a\<close>. Otherwise the reply is dropped, nobody is woken, and the connection is no longer watched.
\<close>

theorem numbers_must_agree:
  assumes "recv_documented os1" and "pb_roundtrip p"
    and "loop_inv (\<lambda>_. process2 os2 p localtime) (w2, ks2)" and "timers w2 0 = None"
    and "timers w2 k2 = Some e" and "e \<le> CExpireMgr_now w2"
    and "\<forall>j e'. timers w2 j = Some e' \<longrightarrow> e < e' \<or> e = e' \<and> k2 \<le> j"
    and "ks2 k2 = Some (process2_reply os2 p localtime k2 pkg req)" and "nodes w2 k2 = Some c2" and "0 \<le> server_socket (m_req c2)"
    and "HeadPkg_Encode p (HeadPkg_SetData (pb_print_rsp p (data_rsp localtime req w2)) pkg) (head_id w2) = (rp, hid)"
    and "ret (os2 (calls w2) (Sys_send (server_socket (m_req c2)) (pkg_data rp))) = int (length (pkg_data rp))"
    and "resting (w1, ks1)" and "quiet w1" and "linked w1 n key d" and "awaits os1 p ks1 n key d k1 (u32_to_int (a + 1))"
    and "dom (map_of (seq_to_coroutine d)) = {u32_to_int (a + 1)}" and "nodes w1 k1 = Some c1"
    and "delivers os1 w1 n (pkg_data rp)"
    and "pb_parse_rsp p (pb_print_rsp p (data_rsp localtime req w2)) = (data_rsp localtime req w2, True)"
    and "rsp_msg (data_rsp localtime req w2) = Some msg" and "0 \<le> server_socket (m_req c1)"
    and "\<forall>cs. ret (os1 cs (Sys_send (server_socket (m_req c1)) msg)) = int (length msg)"
  shows "\<exists>w2' w1'. main2_turn os2 p localtime raw2 (w2, ks2) = Some (Inr (w2', ks2(k2 := None))) \<and>
    calls w2' = calls w2 @ [Sys_send (server_socket (m_req c2)) (pkg_data rp)] \<and>
    (if head_id w2 = a then
       main1_turn os1 inet_addr p raw1 (w1, ks1) = Some (Inr (w1', ks1(k1 := None))) \<and> nodes w1' = (nodes w1)(k1 := None) \<and>
       calls w1' = calls w1 @ [poll_call w1, Sys_recv n 1024, Sys_epoll_ctl CTL_DEL n 0, Sys_send (server_socket (m_req c1)) msg]
     else
       main1_turn os1 inet_addr p raw1 (w1, ks1) = Some (Inr (w1', ks1)) \<and> nodes w1' = nodes w1 \<and> timers w1' = timers w1 \<and>
       calls w1' = calls w1 @ [poll_call w1, Sys_recv n 1024, Sys_epoll_ctl CTL_DEL n 0])"
proof -
  obtain w2' where w2': "main2_turn os2 p localtime raw2 (w2, ks2) = Some (Inr (w2', ks2(k2 := None)))"
      "calls w2' = calls w2 @ [Sys_send (server_socket (m_req c2)) (pkg_data rp)]"
    using answered [where raw = raw2, OF assms(3-12)] by blast
  have data: "Head_get_data (m_head rp) = pb_print_rsp p (data_rsp localtime req w2)"
    using assms(11) by (auto simp: HeadPkg_Encode_def HeadPkg_SetData_def Head_get_data_def Let_def)
  show ?thesis
  proof (cases "head_id w2 = a")
    case True
    have "msg \<noteq> []" using assms(21) by (auto simp: data_rsp_def)
    from relayed [where raw = raw1 and inet_addr = inet_addr, OF assms(1,2,13-15,11) refl assms(16) [folded True] assms(18) _ assms(21) this assms(19,22) refl]
    obtain w1' where "main1_turn os1 inet_addr p raw1 (w1, ks1) = Some (Inr (w1', ks1(k1 := None)))" "nodes w1' = (nodes w1)(k1 := None)"
        "calls w1' = calls w1 @ [poll_call w1, Sys_recv n 1024, Sys_epoll_ctl CTL_DEL n 0, Sys_send (server_socket (m_req c1)) msg]"
      using assms(17,20,23) True data by auto
    then show ?thesis using w2' True by (intro exI [of _ w2'] exI [of _ w1']) simp
  next
    case False
    then have "map_of (seq_to_coroutine d) (u32_to_int (head_id w2 + 1)) = None"
      using assms(17) by (metis add_right_cancel domIff singletonD u32_to_int_inj)
    from stranded [where raw = raw1 and inet_addr = inet_addr, OF assms(1,2,13-15,11) this assms(19)]
    show ?thesis using w2' False by (metis (no_types, lifting))
  qed
qed

text \<open>The second program has sent nothing yet, while a reply numbered 42 is waited for.\<close>

definition talking_pb :: pb where
  "talking_pb = example_pb
     \<lparr>pb_parse_rsp := (\<lambda>bs. (\<lparr>rsp_cmd = Some 0, rsp_data = Some 0, rsp_msg = Some bs\<rparr>, True)),
      pb_print_rsp := (\<lambda>r. case rsp_msg r of None \<Rightarrow> [] | Some bs \<Rightarrow> bs)\<rparr>"

theorem numbers_must_agree_witness:
  "\<exists>w2 w2' w1' rp. main2_turn example_os talking_pb (\<lambda>_. example_tm) example_raw
      (w2, [1 \<mapsto> process2_reply example_os talking_pb (\<lambda>_. example_tm) 1 HeadPkg_new \<lparr>req_cmd = None, req_query = None\<rparr>]) =
      Some (Inr (w2', Map.empty)) \<and> calls w2' = calls w2 @ [Sys_send 7 (pkg_data (rp :: HeadPkg))] \<and>
    main1_turn (telling_os 9 (pkg_data rp)) (\<lambda>_. 0) talking_pb example_raw
      (example_relaying, [1 \<mapsto> relay_stack (telling_os 9 (pkg_data rp)) talking_pb 9 relay_key 42 1 HeadPkg_new]) =
      Some (Inr (w1', [1 \<mapsto> relay_stack (telling_os 9 (pkg_data rp)) talking_pb 9 relay_key 42 1 HeadPkg_new])) \<and>
    timers w1' 1 = Some 1100"
proof -
  let ?procs = "\<lambda>_. process2 example_os talking_pb (\<lambda>_. example_tm)"
  let ?req = "\<lparr>req_cmd = None, req_query = None\<rparr>"
  let ?f = "process2_reply example_os talking_pb (\<lambda>_. example_tm) 1 HeadPkg_new ?req"
  let ?w = "example_asking\<lparr>clock := \<lparr>tv_sec = 2, tv_usec = 0\<rparr>\<rparr>"
  have inv: "loop_inv ?procs (?w, [1 \<mapsto> ?f])"
    by (rule example_asking_inv)
      (use process2_keeps [OF example_send_documented] reply_keeps [OF example_send_documented] in \<open>auto simp: procs_ok_def\<close>)
  obtain c2 where c2: "nodes ?w 1 = Some c2" "server_socket (m_req c2) = 7" using example_asking_facts(10) by auto
  let ?rsp = "data_rsp (\<lambda>_. example_tm) ?req ?w"
  obtain msg where msg: "rsp_msg ?rsp = Some msg" "length msg \<le> 72" "?rsp = \<lparr>rsp_cmd = Some 0, rsp_data = Some 0, rsp_msg = Some msg\<rparr>"
    using GetYMDHMS_short [of "\<lambda>_. example_tm" 2] by (simp add: data_rsp_def default_u32_def bytes_of_def)
  obtain rp hid where e: "HeadPkg_Encode talking_pb (HeadPkg_SetData (pb_print_rsp talking_pb ?rsp) HeadPkg_new) (head_id ?w) = (rp, hid)"
    by fastforce
  have len: "length (pkg_data rp) \<le> 1024"
    using e msg(1,2) by (auto simp: HeadPkg_Encode_def Let_def bytes32_def HeadPkg_SetData_def Head_get_data_def talking_pb_def example_pb_def)
  let ?os = "telling_os 9 (pkg_data rp)"
  have t: "timers ?w 0 = None" "timers ?w 1 = Some 1100" "1100 \<le> CExpireMgr_now ?w"
    "\<forall>j e'. timers ?w j = Some e' \<longrightarrow> 1100 < e' \<or> 1100 = e' \<and> 1 \<le> j"
    by (simp_all add: example_asking_facts(3) now_at)
  have s: "0 \<le> server_socket (m_req c2)"
    "ret (example_os (calls ?w) (Sys_send (server_socket (m_req c2)) (pkg_data rp))) = int (length (pkg_data rp))"
    by (simp_all add: example_os_def c2(2))
  obtain c1 where c1: "nodes example_relaying 1 = Some c1" "server_socket (m_req c1) = 7" using example_relaying_facts(5) by blast
  let ?ks = "[1 \<mapsto> relay_stack ?os talking_pb 9 relay_key 42 1 HeadPkg_new]"
  have p: "pb_roundtrip talking_pb" "pb_parse_rsp talking_pb (pb_print_rsp talking_pb ?rsp) = (?rsp, True)"
    using example_pb_roundtrip msg(1,3) by (simp_all add: talking_pb_def pb_roundtrip_def)
  have n: "awaits ?os talking_pb ?ks 9 relay_key example_awaited 1 (u32_to_int (41 + 1))"
    "dom (map_of (seq_to_coroutine example_awaited)) = {u32_to_int (41 + 1)}" "0 \<le> server_socket (m_req c1)"
    "\<forall>cs. ret (?os cs (Sys_send (server_socket (m_req c1)) msg)) = int (length msg)"
    using example_relaying_facts(4) [of ?os talking_pb] c1(2) telling_os_facts(4)
    by (simp_all add: u32_to_int_def example_awaited_def)
  have ne: "head_id ?w \<noteq> 41" using example_asking_facts(11) by simp
  obtain w2' w1' where r: "main2_turn example_os talking_pb (\<lambda>_. example_tm) example_raw (?w, [1 \<mapsto> ?f]) =
        Some (Inr (w2', [1 \<mapsto> ?f](1 := None)))"
      "calls w2' = calls ?w @ [Sys_send (server_socket (m_req c2)) (pkg_data rp)]"
      "main1_turn ?os (\<lambda>_. 0) talking_pb example_raw (example_relaying, ?ks) = Some (Inr (w1', ?ks))" "timers w1' = timers example_relaying"
    using numbers_must_agree [where ?raw1.0 = example_raw and ?raw2.0 = example_raw and inet_addr = "\<lambda>_. 0",
        OF telling_os_facts(1) p(1) inv t fun_upd_same c2(1) s(1) e s(2) example_relaying_facts(1-3) n(1,2) c1(1)
          telling_os_facts(3) [OF len] p(2) msg(1) n(3,4)] unfolding if_not_P [OF ne]
    by (elim exE conjE) (rule that; assumption)
  have "timers example_relaying 1 = Some 1100" by (simp add: example_relaying_def example_asking_facts(3))
  then show ?thesis
    using r c2(2) by (intro exI [of _ ?w] exI [of _ w2'] exI [of _ w1'] exI [of _ rp]) simp
qed

subsection \<open>The whole exchange\<close>

text \<open>
  C9: An exchange completes. Two programs that have sent equally many packages and have nothing under
  way, a client's bytes at \<^verbatim>\<open>test1\<close>, and a network that brings what the one sends to the other: \<^verbatim>\<open>test1\<close>
  sends its request, \<^verbatim>\<open>test2\<close> takes it, waits ten seconds, and replies, and \<^verbatim>\<open>test1\<close> passes the message
  with the time of day on to its client. These are the only calls either program makes, each is
  back in a state between rounds without new coroutines, timers or stacks, and the counters are again equal.
\<close>

theorem exchange_completes:
  assumes "pb_roundtrip p" and "recv_documented os1" and "recv_documented os2" and "head_id w2 = head_id w1"
    and "resting (w1, ks1)" and "m_pkgcallback w1 = [(check_ptr, process_ptr)]" and "quiet w1" and "nodes w1 (staticid w1 + 1) = None"
    and "CFdMgr_Get n w1 = Some ckey" and "fd_read ckey w1 = Some cd" and "0 \<le> n" and "fd_state cd = E_SERVER_CONN"
    and "port_type cd = PORT_TCP" and "FdMgr.check cd = check_ptr" and "delivers os1 w1 n bs" and "bs \<noteq> []"
    and "linked w1 m key d" and "seq_to_coroutine d = []" and "CFdMgr_Get_ip ''10.244.181.24'' 31000 PORT_TCP w1 = Some key"
    and "ask = \<lparr>req_cmd = Some 100, req_query = Some (word_of_int (tv_sec (ret_time (os1 (calls w1 @ [poll_call w1]) (Sys_recv n 1024)))))\<rparr>"
    and "HeadPkg_Encode p (HeadPkg_SetData (pb_print_req p ask) HeadPkg_new) (head_id w1) = (rq, hid1)"
    and "pb_parse_req p (pb_print_req p ask) = (ask, True)"
    and "ret (os1 (calls w1 @ [poll_call w1, Sys_recv n 1024]) (Sys_send m (pkg_data rq))) = int (length (pkg_data rq))"
    and "loop_inv (\<lambda>_. process2 os2 p localtime) (w2, ks2)" and "co_live w2" and "timers w2 = Map.empty" and "nodes w2 (staticid w2 + 1) = None"
    and "CFdMgr_Get n2 w2 = Some key2" and "fd_read key2 w2 = Some d2" and "0 \<le> n2"
    and "fd_state d2 = E_SERVER_CONN" and "port_type d2 = PORT_TCP" and "FdMgr.check d2 = HeadPkg_Check_ptr"
    and "delivers os2 w2 n2 (pkg_data rq)"
    and "now = CExpireMgr_now (w2\<lparr>clock := ret_time (os2 (calls w2 @ [poll_call w2]) (Sys_recv n2 1024))\<rparr>)" and "now < now + 10000"
    and "b = os2 (calls w2 @ [poll_call w2, Sys_recv n2 1024]) (Sys_epoll_wait 99 10000)" and "ret b = 0"
    and "now + 10000 \<le> CExpireMgr_now (w2\<lparr>clock := ret_time b\<rparr>)" and "say = data_rsp localtime ask (w2\<lparr>clock := ret_time b\<rparr>)"
    and "HeadPkg_Encode p (HeadPkg_SetData (pb_print_rsp p say) (HeadPkg_new\<lparr>m_head := m_head rq\<rparr>)) (head_id w2) = (rp, hid2)"
    and "ret (os2 (calls w2 @ [poll_call w2, Sys_recv n2 1024, Sys_epoll_wait 99 10000]) (Sys_send n2 (pkg_data rp))) = int (length (pkg_data rp))"
    and "\<forall>v ks. main1_turn os1 inet_addr p raw1 (w1, ks1) = Some (Inr (v, ks)) \<longrightarrow> quiet v \<and> delivers os1 v m (pkg_data rp)"
    and "pb_parse_rsp p (pb_print_rsp p say) = (say, True)" and "msg = bytes_of (GetYMDHMS localtime (tv_sec (ret_time b))) @ [13, 10]"
    and "\<forall>cs. ret (os1 cs (Sys_send n msg)) = int (length msg)"
  shows "\<exists>v1 v2 poll. main_reach os1 (program_code p) raw1 (\<lambda>_. process1 os1 inet_addr p raw1) (w1, ks1) (v1, ks1) \<and>
    main_reach os2 (program_code p) raw2 (\<lambda>_. process2 os2 p localtime) (w2, ks2) (v2, ks2) \<and>
    calls v1 = calls w1 @ [poll_call w1, Sys_recv n 1024, Sys_send m (pkg_data rq), Sys_epoll_ctl CTL_ADD m (EFDEVENT_mask FD_READ),
      poll, Sys_recv m 1024, Sys_epoll_ctl CTL_DEL m 0, Sys_send n msg] \<and>
    calls v2 = calls w2 @ [poll_call w2, Sys_recv n2 1024, Sys_epoll_wait 99 10000, Sys_send n2 (pkg_data rp)] \<and>
    nodes v1 = nodes w1 \<and> timers v1 = timers w1 \<and> nodes v2 = nodes w2 \<and> timers v2 = timers w2 \<and>
    head_id v1 = head_id w1 + 1 \<and> head_id v2 = head_id v1"
proof -
  let ?k = "staticid w1 + 1" and ?sq = "u32_to_int (head_id w1 + 1)"
  let ?ks = "ks1(?k \<mapsto> relay_stack os1 p m key ?sq ?k rq)"
  let ?procs1 = "\<lambda>_. process1 os1 inet_addr p raw1"
  have rq: "Head_get_data (m_head rq) = pb_print_req p ask" "fst (HeadPkg_Body (HeadPkg_new\<lparr>m_head := m_head rq\<rparr>)) = HeadPkg_new\<lparr>m_head := m_head rq\<rparr>"
    using assms(21) by (auto simp: HeadPkg_Encode_def HeadPkg_SetData_def HeadPkg_Body_def Head_get_data_def Let_def)
  have rp: "Head_get_data (m_head rp) = pb_print_rsp p say"
    using assms(41) by (auto simp: HeadPkg_Encode_def HeadPkg_SetData_def Head_get_data_def Let_def)
  have len: "length (pkg_data rq) < 2 ^ 31" by (rule delivered_package(4) [OF assms(3,34) refl assms(1,21)])
  obtain u d' c where u: "main1_turn os1 inet_addr p raw1 (w1, ks1) = Some (Inr (u, ?ks))"
      "calls u = calls w1 @ poll_call w1 # Sys_recv n 1024 # Sys_send m (pkg_data rq) #
        (if dom (map_of (seq_to_coroutine d)) \<subseteq> {?sq} then [Sys_epoll_ctl CTL_ADD m (EFDEVENT_mask FD_READ)] else [])"
      "head_id u = head_id w1 + 1" "nodes u = (nodes w1)(?k \<mapsto> c)" "server_socket (m_req c) = n" "resting (u, ?ks)"
      "linked u m key d'" "awaits os1 p ?ks m key d' ?k ?sq"
      "\<forall>sq'. sq' \<noteq> ?sq \<longrightarrow> map_of (seq_to_coroutine d') sq' = map_of (seq_to_coroutine d) sq'"
      "timers u = (timers w1)(?k \<mapsto> CExpireMgr_now u + ucast (ucast (CTimerMS_LeftTime (clock u)
        (CTimerMS_new (ret_time (os1 (calls w1 @ [poll_call w1]) (Sys_recv n 1024))) TIMEOUT)) :: u32))"
    using forwarded [where raw = raw1 and os = os1 and inet_addr = inet_addr, OF assms(2,1,5-8) refl assms(9-17,19) refl
        assms(21) [unfolded assms(20)] len refl assms(23) refl]
    by (elim exE conjE) (rule that; assumption)
  have pr: "pb_parse_req p (Head_get_data (m_head rq)) = (ask, True)" using rq(1) assms(22) by simp
  have er: "HeadPkg_Encode p (HeadPkg_SetData (pb_print_rsp p (data_rsp localtime ask (w2\<lparr>clock := ret_time b\<rparr>)))
      (fst (HeadPkg_Body (HeadPkg_new\<lparr>m_head := m_head rq\<rparr>)))) (head_id w2) = (rp, hid2)"
    unfolding rq(2) assms(40) [symmetric] by (rule assms(41))
  obtain v2 where v2: "main_reach os2 (program_code p) raw2 (\<lambda>_. process2 os2 p localtime) (w2, ks2) (v2, ks2)"
      "calls v2 = calls w2 @ [poll_call w2, Sys_recv n2 1024, Sys_epoll_wait 99 10000, Sys_send n2 (pkg_data rp)]"
      "head_id v2 = head_id w2 + 1" "nodes v2 = nodes w2" "timers v2 = Map.empty"
    using served [where raw = raw2 and os = os2, OF assms(3,1,24-33,21) pr assms(34-39) er assms(42)]
    by (elim exE conjE) (rule that; assumption)
  have q: "quiet u" "delivers os1 u m (pkg_data rp)" using assms(43) u(1) by blast+
  have dom: "dom (map_of (seq_to_coroutine d')) = {?sq}"
    using u(8,9) assms(18) by (auto simp: awaits_def)
  have msg: "rsp_msg say = Some msg" "msg \<noteq> []" using assms(40,45) by (simp_all add: data_rsp_def)
  have n: "nodes u ?k = Some c" "0 \<le> server_socket (m_req c)" using u(4,5) assms(11) by simp_all
  have aw: "awaits os1 p ?ks m key d' ?k (u32_to_int (head_id w2 + 1))" using u(8) assms(4) by simp
  obtain v1 where v1: "main1_turn os1 inet_addr p raw1 (u, ?ks) = Some (Inr (v1, ?ks(?k := None)))"
      "calls v1 = (calls u @ poll_call u # Sys_recv m 1024 # (if dom (map_of (seq_to_coroutine d')) = {u32_to_int (head_id w2 + 1)}
         then [Sys_epoll_ctl CTL_DEL m 0] else [])) @ [Sys_send (server_socket (m_req c)) msg]"
      "head_id v1 = head_id u" "nodes v1 = (nodes u)(?k := None)" "timers v1 = (timers u)(?k := None)"
    using relayed [where raw = raw1 and inet_addr = inet_addr, OF assms(2,1) u(6) q(1) u(7) assms(41) refl aw n(1) _ msg q(2) n(2) refl]
      rp assms(44,46) u(5) by auto
  have new: "ks1 ?k = None" "timers w1 ?k = None"
    using assms(5,8) co_okD(7) [of w1 ?k] by (cases "timers w1 ?k"; auto simp: resting_def)+
  have ks: "?ks(?k := None) = ks1" using new(1) by (simp add: fun_upd_idem)
  have "main_reach os1 (program_code p) raw1 ?procs1 (w1, ks1) (v1, ks1)"
    using main_reach.more [OF main_reach.more [OF main_reach.start main_step.round [OF u(1) [unfolded main1_turn_def]]]
        main_step.round [OF v1(1) [unfolded main1_turn_def ks]]] by blast
  moreover have "nodes v1 = nodes w1" "timers v1 = timers w1"
    using v1(4,5) u(4,10) assms(8) new(2) by (simp_all add: fun_upd_idem)
  moreover have "calls v1 = calls w1 @ [poll_call w1, Sys_recv n 1024, Sys_send m (pkg_data rq), Sys_epoll_ctl CTL_ADD m (EFDEVENT_mask FD_READ),
      poll_call u, Sys_recv m 1024, Sys_epoll_ctl CTL_DEL m 0, Sys_send n msg]"
    using v1(2) u(2,5) assms(4,18) dom by simp
  ultimately show ?thesis
    using v2 v1(3) u(3) assms(4,26) by (intro exI [of _ v1] exI [of _ v2] exI [of _ "poll_call u"]) simp
qed

text \<open>
  Both programs with a client each, on descriptor 7. The system of \<^verbatim>\<open>test1\<close> reports the client's bytes,
  and the reply once a request has been sent; that of \<^verbatim>\<open>test2\<close> the request, and then nothing for 19 seconds.
\<close>

definition exchange_pb :: pb where
  "exchange_pb = example_pb
     \<lparr>pb_parse_req := (\<lambda>bs. (\<lparr>req_cmd = Some 100, req_query = Some 1\<rparr>, True)),
      pb_parse_rsp := (\<lambda>bs. (\<lparr>rsp_cmd = Some 100, rsp_data = Some 1, rsp_msg = Some bs\<rparr>, True)),
      pb_print_rsp := (\<lambda>r. case rsp_msg r of None \<Rightarrow> [] | Some bs \<Rightarrow> bs)\<rparr>"

definition asked_os :: "u8 list \<Rightarrow> os" where
  "asked_os bs cs c =
     (if list_ex (\<lambda>c. case c of Sys_send n _ \<Rightarrow> n = 9 | _ \<Rightarrow> False) cs then telling_os 9 bs cs c
      else telling_os 7 [1, 2, 3] cs c)"

definition serving_os :: "u8 list \<Rightarrow> os" where
  "serving_os bs cs c =
     (if list_ex (\<lambda>c. case c of Sys_recv n _ \<Rightarrow> n = 7 | _ \<Rightarrow> False) cs
      then (example_os cs c)\<lparr>ret_time := \<lparr>tv_sec = 20, tv_usec = 0\<rparr>\<rparr> else telling_os 7 bs cs c)"

lemma exchange_os_documented: "recv_documented (asked_os bs)" "recv_documented (serving_os bs)"
  using telling_os_facts(1) [of 9 bs] telling_os_facts(1) [of 7] example_os_documented
  by (simp_all add: recv_documented_def asked_os_def serving_os_def)

lemma asked_os_facts:
  "ret_time (asked_os bs cs c) = \<lparr>tv_sec = 1, tv_usec = 0\<rparr>" "ret (asked_os bs cs (Sys_send m bs')) = int (length bs')"
  by (simp_all add: asked_os_def telling_os_def example_os_def)

lemma example_serving_start: "calls example_serving = []" "head_id example_serving = 0"
  by (simp_all add: example_serving_def) (simp_all add: world_start_def)

lemma asked_delivers:
  "delivers (asked_os bs) example_linked 7 [1, 2, 3]"
  "Sys_send 9 bs' \<in> set (calls u) \<Longrightarrow> length bs \<le> 1024 \<Longrightarrow> delivers (asked_os bs) u 9 bs"
proof -
  show "delivers (asked_os bs) example_linked 7 [1, 2, 3]"
    using telling_os_facts(3) [where bs = "[1, 2, 3]" and w = example_linked and n = 7] example_serving_start(1)
    by (simp add: delivers_def asked_os_def poll_call_def example_linked_def)
  show "delivers (asked_os bs) u 9 bs" if "Sys_send 9 bs' \<in> set (calls u)" "length bs \<le> 1024"
  proof -
    have "list_ex (\<lambda>c. case c of Sys_send n _ \<Rightarrow> n = 9 | _ \<Rightarrow> False) (calls u)" using that(1) by (auto simp: list_ex_iff intro!: bexI [of _ "Sys_send 9 bs'"])
    then show ?thesis
      using telling_os_facts(3) [OF that(2), where w = u and n = 9] by (simp add: delivers_def asked_os_def)
  qed
qed

lemma serving_delivers: "length bs \<le> 1024 \<Longrightarrow> delivers (serving_os bs) example_serving 7 bs"
  using telling_os_facts(3) [where bs = bs and w = example_serving and n = 7] example_serving_start(1)
  by (simp add: delivers_def serving_os_def poll_call_def)

text \<open>The state of the first program once it has asked.\<close>

lemma asked_turn:
  assumes "HeadPkg_Encode exchange_pb (HeadPkg_SetData (pb_print_req exchange_pb \<lparr>req_cmd = Some 100, req_query = Some 1\<rparr>)
      HeadPkg_new) 0 = (rq, hid)" and "length bs \<le> 1024"
    and "main1_turn (asked_os bs) (\<lambda>_. 0) exchange_pb example_raw (example_linked, Map.empty) = Some (Inr (v, ks))"
  shows "quiet v \<and> delivers (asked_os bs) v 9 bs"
proof -
  let ?w = example_linked
  note f = example_linked_facts
  have id: "1 = staticid ?w + 1" using example_serving_facts(4) [OF example_procs_ok] by (simp add: example_linked_def)
  have start: "timers ?w = Map.empty" "head_id ?w = 0" "m_pkgcallback ?w = [(check_ptr, process_ptr)]"
    using example_serving_facts(3) [OF example_procs_ok] example_serving_start(2) by (simp_all add: example_linked_def)
  have c: "(0 :: int) \<le> 7" "fd_state (example_raw\<lparr>fd := 7, fd_state := E_SERVER_CONN, check := check_ptr\<rparr>) = E_SERVER_CONN"
    "port_type (example_raw\<lparr>fd := 7, fd_state := E_SERVER_CONN, check := check_ptr\<rparr>) = PORT_TCP"
    "FdMgr.check (example_raw\<lparr>fd := 7, fd_state := E_SERVER_CONN, check := check_ptr\<rparr>) = check_ptr" "[1 :: u8, 2, 3] \<noteq> []"
    by (simp_all add: example_raw_def)
  have e: "HeadPkg_Encode exchange_pb (HeadPkg_SetData (pb_print_req exchange_pb \<lparr>req_cmd = Some 100, req_query = Some (word_of_int
      (tv_sec (ret_time (asked_os bs (calls ?w @ [poll_call ?w]) (Sys_recv 7 1024)))))\<rparr>) HeadPkg_new) (head_id ?w) = (rq, hid)"
    using assms(1) start(2) by (simp add: asked_os_facts)
  have len: "length (pkg_data rq) < 2 ^ 31"
    using assms(1) by (auto simp: HeadPkg_Encode_def HeadPkg_SetData_def HeadPkg_new_def Head_new_def exchange_pb_def example_pb_def Let_def
        bytes32_def Head_get_data_def)
  have pb: "pb_roundtrip exchange_pb" using example_pb_roundtrip by (simp add: exchange_pb_def pb_roundtrip_def)
  obtain u where u: "main1_turn (asked_os bs) (\<lambda>_. 0) exchange_pb example_raw (?w, Map.empty) = Some (Inr (u, ks))"
      "Sys_send 9 (pkg_data rq) \<in> set (calls u)" "clock_told (asked_os bs) u"
      "timers u = (timers ?w)(1 \<mapsto> CExpireMgr_now u + ucast (ucast (CTimerMS_LeftTime (clock u)
        (CTimerMS_new (ret_time (asked_os bs (calls ?w @ [poll_call ?w]) (Sys_recv 7 1024))) TIMEOUT)) :: u32))"
    using forwarded [where raw = example_raw and inet_addr = "\<lambda>_. 0", OF exchange_os_documented(1) [of bs] pb f(1) start(3) f(2,3) id
        f(4,5) c(1-4) asked_delivers(1) c(5) f(6,7) refl e len refl asked_os_facts(2) refl] assms(3)
    by auto
  have t: "timers u = [1 \<mapsto> 91000]"
    using u(3,4) start(1)
    by (auto simp: clock_told_def asked_os_facts CExpireMgr_now_def CTimerMS_LeftTime_def CTimerMS_GetElapsedTime_def
        CTimerMS_new_def CTimerMS_GetMs_def TIMEOUT_def sdiv_1000_nonneg)
  moreover have "CExpireMgr_now u = 1000"
    using u(3) by (auto simp: clock_told_def asked_os_facts CExpireMgr_now_def CTimerMS_GetMs_def CTimerMS_new_def sdiv_1000_nonneg)
  ultimately show ?thesis
    using u(1) assms(3) asked_delivers(2) [OF u(2) assms(2)] by (simp add: quiet_def)
qed

theorem exchange_completes_witness:
  "\<exists>bs rp v1 v2 poll. main_reach (asked_os (rp :: u8 list)) (program_code exchange_pb) example_raw
      (\<lambda>_. process1 (asked_os rp) (\<lambda>_. 0) exchange_pb example_raw) (example_linked, Map.empty) (v1, Map.empty) \<and>
    main_reach (serving_os bs) (program_code exchange_pb) example_raw
      (\<lambda>_. process2 (serving_os bs) exchange_pb (\<lambda>_. example_tm)) (example_serving, Map.empty) (v2, Map.empty) \<and>
    calls v1 = [poll_call example_linked, Sys_recv 7 1024, Sys_send 9 bs, Sys_epoll_ctl CTL_ADD 9 1, poll, Sys_recv 9 1024,
      Sys_epoll_ctl CTL_DEL 9 0, Sys_send 7 (bytes_of (GetYMDHMS (\<lambda>_. example_tm) 20) @ [13, 10])] \<and>
    calls v2 = [poll_call example_serving, Sys_recv 7 1024, Sys_epoll_wait 99 10000, Sys_send 7 rp] \<and>
    head_id v1 = 1 \<and> head_id v2 = 1"
proof -
  let ?w1 = example_linked and ?w2 = example_serving and ?lt = "\<lambda>_. example_tm"
  let ?ask = "\<lparr>req_cmd = Some 100, req_query = Some 1\<rparr>"
  let ?msg = "bytes_of (GetYMDHMS ?lt 20) @ [13, 10]"
  let ?say = "\<lparr>rsp_cmd = Some 100, rsp_data = Some 1, rsp_msg = Some ?msg\<rparr>"
  have pb: "pb_roundtrip exchange_pb" using example_pb_roundtrip by (simp add: exchange_pb_def pb_roundtrip_def)
  obtain rq hid1 where rq: "HeadPkg_Encode exchange_pb (HeadPkg_SetData (pb_print_req exchange_pb ?ask) HeadPkg_new) 0 = (rq, hid1)"
    by fastforce
  obtain rp hid2 where rp: "HeadPkg_Encode exchange_pb (HeadPkg_SetData (pb_print_rsp exchange_pb ?say)
      (HeadPkg_new\<lparr>m_head := m_head rq\<rparr>)) 0 = (rp, hid2)"
    by fastforce
  have "length ?msg \<le> 72" using GetYMDHMS_short [of ?lt 20] by (simp add: bytes_of_def)
  then have len: "length (pkg_data rq) \<le> 1024" "length (pkg_data rp) \<le> 1024"
    using rq rp by (auto simp: HeadPkg_Encode_def Let_def bytes32_def HeadPkg_SetData_def Head_get_data_def exchange_pb_def example_pb_def)
  let ?os1 = "asked_os (pkg_data rp)" and ?os2 = "serving_os (pkg_data rq)"
  have doc: "send_documented ?os2"
    using telling_os_facts(2) [of 7 "pkg_data rq"] example_send_documented by (simp add: send_documented_def serving_os_def)
  have "procs_ok (\<lambda>_. process2 ?os2 exchange_pb ?lt)" unfolding procs_ok_def using process2_keeps [OF doc] by blast
  note f2 = example_serving_facts [OF this] and f1 = example_linked_facts
  have start: "timers ?w1 = Map.empty" "head_id ?w1 = 0" "m_pkgcallback ?w1 = [(check_ptr, process_ptr)]" "calls ?w1 = []"
    "seq_to_coroutine (example_awaited\<lparr>seq_to_coroutine := []\<rparr>) = []" "head_id ?w2 = head_id ?w1"
    using f2(3) example_serving_start by (simp_all add: example_linked_def)
  have c: "(0 :: int) \<le> 7" "fd_state (example_raw\<lparr>fd := 7, fd_state := E_SERVER_CONN, check := f\<rparr>) = E_SERVER_CONN"
    "port_type (example_raw\<lparr>fd := 7, fd_state := E_SERVER_CONN, check := f\<rparr>) = PORT_TCP"
    "FdMgr.check (example_raw\<lparr>fd := 7, fd_state := E_SERVER_CONN, check := f\<rparr>) = f" "[1 :: u8, 2, 3] \<noteq> []" for f
    by (simp_all add: example_raw_def)
  have ask: "?ask = \<lparr>req_cmd = Some 100, req_query = Some (word_of_int
      (tv_sec (ret_time (?os1 (calls ?w1 @ [poll_call ?w1]) (Sys_recv 7 1024)))))\<rparr>"
    by (simp add: asked_os_facts)
  have enc: "HeadPkg_Encode exchange_pb (HeadPkg_SetData (pb_print_req exchange_pb ?ask) HeadPkg_new) (head_id ?w1) = (rq, hid1)"
    "HeadPkg_Encode exchange_pb (HeadPkg_SetData (pb_print_rsp exchange_pb ?say) (HeadPkg_new\<lparr>m_head := m_head rq\<rparr>)) (head_id ?w2) = (rp, hid2)"
    using rq rp start(2,6) by simp_all
  have new: "nodes ?w2 (staticid ?w2 + 1) = None" using f2(4,5) by simp
  let ?b = "?os2 (calls ?w2 @ [poll_call ?w2, Sys_recv 7 1024]) (Sys_epoll_wait 99 10000)"
  have b: "ret_time (?os2 (calls ?w2 @ [poll_call ?w2]) (Sys_recv 7 1024)) = \<lparr>tv_sec = 1, tv_usec = 0\<rparr>"
    "ret_time ?b = \<lparr>tv_sec = 20, tv_usec = 0\<rparr>" "ret ?b = 0"
    "ret (?os2 (calls ?w2 @ [poll_call ?w2, Sys_recv 7 1024, Sys_epoll_wait 99 10000]) (Sys_send 7 (pkg_data rp))) = int (length (pkg_data rp))"
    using example_serving_start(1) by (simp_all add: serving_os_def telling_os_def example_os_def poll_call_def)
  have now: "(1000 :: u64) = CExpireMgr_now (?w2\<lparr>clock := ret_time (?os2 (calls ?w2 @ [poll_call ?w2]) (Sys_recv 7 1024))\<rparr>)"
    "(1000 :: u64) < 1000 + 10000" "(1000 :: u64) + 10000 \<le> CExpireMgr_now (?w2\<lparr>clock := ret_time ?b\<rparr>)"
    using now_at [where w = ?w2 and n = 1] now_at [where w = ?w2 and n = 20] by (simp_all add: b(1,2))
  have say: "?say = data_rsp ?lt ?ask (?w2\<lparr>clock := ret_time ?b\<rparr>)" "?msg = bytes_of (GetYMDHMS ?lt (tv_sec (ret_time ?b))) @ [13, 10]"
    by (simp_all add: data_rsp_def default_u32_def b(2))
  have parse: "pb_parse_req exchange_pb (pb_print_req exchange_pb ?ask) = (?ask, True)"
    "pb_parse_rsp exchange_pb (pb_print_rsp exchange_pb ?say) = (?say, True)"
    by (simp_all add: exchange_pb_def)
  have turn: "\<forall>v ks. main1_turn ?os1 (\<lambda>_. 0) exchange_pb example_raw (?w1, Map.empty) = Some (Inr (v, ks)) \<longrightarrow>
      quiet v \<and> delivers ?os1 v 9 (pkg_data rp)"
    using asked_turn [OF rq len(2)] by blast
  have sends: "\<forall>cs. ret (?os1 cs (Sys_send 7 ?msg)) = int (length ?msg)" by (simp only: asked_os_facts simp_thms)
  obtain v1 v2 poll where "main_reach ?os1 (program_code exchange_pb) example_raw
        (\<lambda>_. process1 ?os1 (\<lambda>_. 0) exchange_pb example_raw) (?w1, Map.empty) (v1, Map.empty)"
      "main_reach ?os2 (program_code exchange_pb) example_raw (\<lambda>_. process2 ?os2 exchange_pb ?lt) (?w2, Map.empty) (v2, Map.empty)"
      "calls v1 = calls ?w1 @ [poll_call ?w1, Sys_recv 7 1024, Sys_send 9 (pkg_data rq), Sys_epoll_ctl CTL_ADD 9 (EFDEVENT_mask FD_READ),
        poll, Sys_recv 9 1024, Sys_epoll_ctl CTL_DEL 9 0, Sys_send 7 ?msg]"
      "calls v2 = calls ?w2 @ [poll_call ?w2, Sys_recv 7 1024, Sys_epoll_wait 99 10000, Sys_send 7 (pkg_data rp)]"
      "head_id v1 = head_id ?w1 + 1" "head_id v2 = head_id v1"
    using exchange_completes [where ?raw1.0 = example_raw and ?raw2.0 = example_raw and inet_addr = "\<lambda>_. 0", OF pb
        exchange_os_documented(1) [of "pkg_data rp"] exchange_os_documented(2) [of "pkg_data rq"] start(6) f1(1) start(3) f1(2,3)
        f1(4,5) c(1-4) asked_delivers(1) c(5) f1(6) start(5) f1(7) ask enc(1) parse(1) asked_os_facts(2)
        f2(1,2,3) new f2(6,7) c(1-4) serving_delivers [OF len(1)] now(1,2) refl b(3) now(3) say(1)
        enc(2) b(4) turn parse(2) say(2) sends]
    by (elim exE conjE) (rule that; assumption)
  then show ?thesis
    using start(2,4) example_serving_start(1)
    by (intro exI [of _ "pkg_data rq"] exI [of _ "pkg_data rp"] exI [of _ v1] exI [of _ v2] exI [of _ poll]) (simp add: EPOLLIN_def)
qed

end
