(* ===== verification/Inflight.thy ===== *)
theory Inflight
  imports RequestReply Turn
begin

section \<open>Requests in flight on one connection\<close>

text \<open>
  Several coroutines share a connection: each enters its sequence number in the map of the entry,
  \<^verbatim>\<open>DoReadTcp\<close> stores each reply under its number, and each \<^verbatim>\<open>tcpsendrecv\<close> takes its own out when it
  goes on. The abstract state of the connection is a map from numbers to the coroutine that asked
  and the bytes received for it; a run is any sequence of requests, reads, takings and steps that
  have nothing to do with the entry, in any order.
\<close>

type_synonym pending = "int \<rightharpoonup> u32 \<times> u8 list"

definition pending :: "stFdData \<Rightarrow> pending" where
  "pending d = (\<lambda>sq. map_option (\<lambda>sr. (sr_id sr, contents (sr_data sr))) (map_of (seq_to_coroutine d) sq))"

datatype conn_event = Asked int u32 | Answered int "u8 list" | Taken int "u8 list"

primrec conn_after :: "conn_event \<Rightarrow> pending \<Rightarrow> pending" where
  "conn_after (Asked sq k) p = p(sq \<mapsto> (k, []))"
| "conn_after (Answered sq bs) p = (case p sq of None \<Rightarrow> p | Some (k, _) \<Rightarrow> p(sq \<mapsto> (k, bs)))"
| "conn_after (Taken sq bs) p = p(sq := None)"

definition outstanding :: "pending \<Rightarrow> conn_event list \<Rightarrow> pending" where
  "outstanding p es = fold conn_after es p"

lemma outstanding_simps [simp]:
  "outstanding p [] = p" "outstanding p (es @ [e]) = conn_after e (outstanding p es)"
  by (simp_all add: outstanding_def)

inductive conn_run :: "os \<Rightarrow> code \<Rightarrow> int \<Rightarrow> stFdKey \<Rightarrow> world \<Rightarrow> conn_event list \<Rightarrow> world \<Rightarrow> bool"
  for os code n key w where
  start: "conn_run os code n key w [] w"
| elsewhere: "conn_run os code n key w es v \<Longrightarrow> fd_read key v' = fd_read key v \<or> fd_read key v' = None \<Longrightarrow>
    conn_run os code n key w es v'"
| asked: "conn_run os code n key w es v \<Longrightarrow> connect_finish sq key v = Return r v' \<Longrightarrow> active_id v = Some k \<Longrightarrow>
    conn_run os code n key w (es @ [Asked (u32_to_int (word_of_int sq)) k]) v'"
| answered: "conn_run os code n key w es v \<Longrightarrow> fd_read key v = Some d \<Longrightarrow> DoReadTcp os code n key v = Inr (v', IO_OK) \<Longrightarrow>
    sz = checked_size os code (check d) n v \<Longrightarrow> sq = code (seq d) (m_data (recv_buffer os n v)) (word_of_int sz) \<Longrightarrow>
    conn_run os code n key w (es @ [Answered sq (ret_bytes (recv_answer os n v))]) v'"
| refused: "conn_run os code n key w es v \<Longrightarrow> fd_ok v \<Longrightarrow> DoReadTcp os code n key v = Inr (v', r) \<Longrightarrow> r \<noteq> IO_OK \<Longrightarrow>
    conn_run os code n key w es v'"
| taken: "conn_run os code n key w es v \<Longrightarrow> sendrecv_finish os n key sq dst v = Return (IO_OK, buf) v' \<Longrightarrow>
    conn_run os code n key w (es @ [Taken sq (contents buf)]) v'"

subsection \<open>Each step against the map\<close>

definition entry_fine :: "stFdData \<Rightarrow> bool" where
  "entry_fine d \<longleftrightarrow> fd_state d = E_OTHER \<and> sm_sorted (seq_to_coroutine d) \<and>
     (\<forall>sq sr. map_of (seq_to_coroutine d) sq = Some sr \<longrightarrow> mem_ok (sr_data sr))"

lemma asked_entry:
  assumes "connect_finish sq key v = Return r v'" and "active_id v = Some k" and "fd_read key v = Some d" and "entry_fine d"
  shows "\<exists>d'. fd_read key v' = Some d' \<and> entry_fine d' \<and>
    pending d' = conn_after (Asked (u32_to_int (word_of_int sq)) k) (pending d)"
proof -
  let ?q = "u32_to_int (word_of_int sq)"
  define buf where "buf = CMemData_Clear (case sm_find (<) ?q (seq_to_coroutine d) of None \<Rightarrow> CMemData_new | Some sr \<Rightarrow> sr_data sr)"
  define d' where "d' = d\<lparr>fd_state := E_OTHER, seq_to_coroutine := sm_assign (<) ?q \<lparr>sr_id = k, sr_data = buf\<rparr> (seq_to_coroutine d),
    last_op_ret := IO_OK\<rparr>"
  have fine: "sm_sorted (seq_to_coroutine d)" "\<And>q sr. map_of (seq_to_coroutine d) q = Some sr \<Longrightarrow> mem_ok (sr_data sr)"
    using assms(4) by (auto simp: entry_fine_def)
  have "v' = fd_write key (\<lambda>e. stFdData_Clear (e\<lparr>fd_state := E_OTHER,
      seq_to_coroutine := sm_assign (<) ?q \<lparr>sr_id = k, sr_data = buf\<rparr> (seq_to_coroutine e)\<rparr>)) v"
    using assms(1-3) by (simp add: connect_finish_def Let_def buf_def)
  then have read: "fd_read key v' = Some d'"
    using assms(3) by (simp add: fd_read_after_write stFdData_Clear_def d'_def)
  have m: "map_of (seq_to_coroutine d') = (map_of (seq_to_coroutine d))(?q \<mapsto> \<lparr>sr_id = k, sr_data = buf\<rparr>)"
    using fine(1) by (simp add: d'_def sm_assign_lin)
  have old: "mem_ok (case sm_find (<) ?q (seq_to_coroutine d) of None \<Rightarrow> CMemData_new | Some sr \<Rightarrow> sr_data sr)"
    using fine by (simp add: sm_find_lin split: option.split)
  have buf: "mem_ok buf" "contents buf = []"
    using mem_ok_Clear [OF old] by (simp_all add: buf_def contents_Clear)
  have "entry_fine d'" using fine m buf(1) by (auto simp: entry_fine_def) (simp_all add: d'_def)
  moreover have "pending d' = (pending d)(?q \<mapsto> (k, []))"
    using m buf(2) by (auto simp: pending_def)
  ultimately show ?thesis using read by (intro exI [of _ d']) simp
qed

lemma new_expanded:
  "CMemData_LeftSize CMemData_new \<le> DEF_RECV_SIZE"
  "CMemData_Expand DEF_RECV_SIZE CMemData_new = Inr \<lparr>m_data = replicate 1024 0, m_offset = 0\<rparr>"
  "unat (CMemData_LeftSize \<lparr>m_data = replicate 1024 0, m_offset = 0\<rparr>) = 1024"
  by (simp_all add: CMemData_LeftSize_def CMemData_new_def DEF_RECV_SIZE_def CMemData_Expand_def read_bytes_def
      write_bytes_def Let_def)

text \<open>A read that succeeds on a connection is a reply whose number is waited for.\<close>

lemma read_ok_reply:
  assumes "DoReadTcp os code n key v = Inr (v', IO_OK)" and "fd_read key v = Some d" and "fd_state d = E_OTHER" and "0 \<le> n"
    and "recv_documented os"
  shows "0 < ret (recv_answer os n v) \<and>
    DeliverReply os code d key (recv_buffer os n v) (checked_size os code (check d) n v) (after_recv os n v) = Inr (v', IO_OK)"
proof -
  have c: "check d \<noteq> 0" using assms(1,2) by (auto simp: DoReadTcp_def)
  have pos: "0 < ret (recv_answer os n v)"
  proof (rule ccontr)
    assume "\<not> 0 < ret (recv_answer os n v)"
    then have "\<exists>d0 r. tcprecv os code n CMemData_new (check d) 0 v = Inr (after_recv os n v, d0, 0, r)"
      using assms(4) new_expanded by (auto simp: tcprecv_def case_prod_beta recv_answer_def Let_def)
    then show False using assms(1,2) c by (auto simp: DoReadTcp_def)
  qed
  have sz: "0 < checked_size os code (check d) n v"
    using assms(1,2) c tcprecv_fresh [OF assms(5,4) c pos, of code] by (auto simp: DoReadTcp_def split: if_splits)
  show ?thesis
    using pos assms(1) read_reply [OF assms(5,4) pos assms(2) c assms(3) sz] by simp
qed

lemma answered_entry:
  assumes "DoReadTcp os code n key v = Inr (v', IO_OK)" and "fd_read key v = Some d" and "entry_fine d" and "0 \<le> n"
    and "recv_documented os" and "sz = checked_size os code (check d) n v"
    and "sq = code (seq d) (m_data (recv_buffer os n v)) (word_of_int sz)"
  shows "\<exists>d'. fd_read key v' = Some d' \<and> entry_fine d' \<and>
    pending d' = conn_after (Answered sq (ret_bytes (recv_answer os n v))) (pending d)"
proof -
  let ?md = "recv_buffer os n v"
  have fine: "fd_state d = E_OTHER" "sm_sorted (seq_to_coroutine d)"
      "\<And>q sr. map_of (seq_to_coroutine d) q = Some sr \<Longrightarrow> mem_ok (sr_data sr)"
    using assms(3) by (auto simp: entry_fine_def)
  have pos: "0 < ret (recv_answer os n v)" and run: "DeliverReply os code d key ?md sz (after_recv os n v) = Inr (v', IO_OK)"
    using read_ok_reply [OF assms(1,2) fine(1) assms(4,5)] assms(6) by simp_all
  note b = recv_buffer_ok [OF assms(5) pos]
  obtain sr buf where sr: "map_of (seq_to_coroutine d) sq = Some sr"
      "CMemData_Copy (m_data ?md) (CMemData_Size ?md) (CMemData_Clear (sr_data sr)) = Inr buf"
      "CoroutineMgr_SetReady (sr_id sr) (fd_write key (\<lambda>e. e\<lparr>seq_to_coroutine :=
         sm_assign (<) sq (sr\<lparr>sr_data := buf\<rparr>) (seq_to_coroutine e)\<rparr>) (after_recv os n v)) = Inr v'"
    using run fine(2) unfolding DeliverReply_def Let_def assms(7) [symmetric]
    by (auto simp: sm_find_lin bind_res_Inr_iff split: if_splits option.splits)
  let ?src = "CMemData_Clear (sr_data sr)"
  have len: "unat (CMemData_Size ?md) \<le> length (m_data ?md)" using b(3) by (simp add: mem_ok_def CMemData_Size_def)
  have "unat (m_offset ?src) + unat (CMemData_Size ?md) < 2 ^ 32"
    using unsigned_less [of "CMemData_Size ?md", where 'a = nat] by (simp add: CMemData_Clear_def)
  then have buf: "mem_ok buf" "contents buf = ret_bytes (recv_answer os n v)"
    using Copy_result [OF mem_ok_Clear [OF fine(3) [OF sr(1)]] _ len] sr(2) b(4) unfolding contents_Clear append_Nil
    by (auto simp: contents_def [of ?md] CMemData_Size_def)
  define d' where "d' = d\<lparr>seq_to_coroutine := sm_assign (<) sq (sr\<lparr>sr_data := buf\<rparr>) (seq_to_coroutine d)\<rparr>"
  have read: "fd_read key v' = Some d'"
    using SetReady_world_frame(1) [OF sr(3)] assms(2) by (simp add: fd_read_def fd_write_table d'_def)
  have m: "map_of (seq_to_coroutine d') = (map_of (seq_to_coroutine d))(sq \<mapsto> sr\<lparr>sr_data := buf\<rparr>)"
    using fine(2) by (simp add: d'_def sm_assign_lin)
  have "entry_fine d'" using fine m buf(1) by (auto simp: entry_fine_def) (simp_all add: d'_def)
  moreover have "pending d sq = Some (sr_id sr, contents (sr_data sr))" using sr(1) by (simp add: pending_def)
  then have "pending d' = conn_after (Answered sq (ret_bytes (recv_answer os n v))) (pending d)"
    using m buf(2) by (auto simp: pending_def)
  ultimately show ?thesis using read by blast
qed

text \<open>A read that fails leaves the entry alone or, at the end of the stream, may remove it.\<close>

lemma DelFd_entry:
  fixes v :: world
  assumes "fd_ok v" and "0 \<le> n"
  shows "fd_table (DelFd os n v) = (case CFdMgr_Get n v of None \<Rightarrow> fd_table v | Some k \<Rightarrow> (fd_table v)(k := None))"
    and "nodes (DelFd os n v) = nodes v"
proof -
  define w1 where "w1 = CExpireMgr_Del (word_of_int n) (fst (CMonitorEpoll_Del os n v))"
  have w1: "m_fd_to_data w1 = m_fd_to_data v" "nodes w1 = nodes v"
    by (simp_all add: w1_def CMonitorEpoll_Del_def case_prod_beta Let_def)
  have ok: "fd_ok w1" using fd_ok_cong [OF w1(1)] assms(1) by simp
  have get: "CFdMgr_Get n w1 = CFdMgr_Get n v" using w1(1) by (simp add: CFdMgr_Get_def CFdMgr_Exist_def)
  obtain x where x: "fst (CFdMgr_Destroy n w1) = w1\<lparr>m_fd_to_data := x\<rparr>"
      "map_of x = (case CFdMgr_Get n v of None \<Rightarrow> fd_table v | Some k \<Rightarrow> (fd_table v)(k := None))"
    using Destroy_fd_result [OF ok assms(2), unfolded get w1(1)] by (elim exE conjE) (rule that; simp)
  have t: "m_fd_to_data (DelFd os n v) = x"
    using x(1) by (simp add: DelFd_def Let_def w1_def [symmetric] case_prod_beta split: option.splits)
  show "fd_table (DelFd os n v) = (case CFdMgr_Get n v of None \<Rightarrow> fd_table v | Some k \<Rightarrow> (fd_table v)(k := None))"
    unfolding t by (rule x(2))
  show "nodes (DelFd os n v) = nodes v"
    using x(1) w1(2) by (simp add: DelFd_def Let_def w1_def [symmetric] case_prod_beta split: option.splits)
qed

lemma DelFd_calls:
  fixes v :: world
  assumes "fd_ok v" and "0 \<le> n" and "CFdMgr_Get n v = Some key"
  shows "calls (DelFd os n v) =
    calls v @ Sys_epoll_ctl CTL_DEL n 0 # (if n \<in> set (connecting v) then [] else [Sys_close n])"
proof -
  define w1 where "w1 = CExpireMgr_Del (word_of_int n) (fst (CMonitorEpoll_Del os n v))"
  have w1: "m_fd_to_data w1 = m_fd_to_data v" "calls w1 = calls v @ [Sys_epoll_ctl CTL_DEL n 0]" "connecting w1 = connecting v"
    by (simp_all add: w1_def CMonitorEpoll_Del_def case_prod_beta Let_def)
  obtain d where d: "CFdMgr_Exist n v = Some (key, d)" using assms(3) by (auto simp: CFdMgr_Get_def)
  then have "(key, d) \<in> set (m_fd_to_data v)" unfolding CFdMgr_Exist_def by (rule sm_entry_in)
  then have "fd d = n" using assms(1,3) Get_iff [OF assms(1,2), of key] by (auto simp: fd_ok_def)
  moreover have "CFdMgr_Exist n w1 = Some (key, d)" using d w1(1) by (simp add: CFdMgr_Exist_def)
  moreover have "calls (fst (CFdMgr_Destroy n w1)) = calls w1" by (simp add: CFdMgr_Destroy_def split: option.split)
  ultimately show ?thesis using w1(2,3) by (simp add: DelFd_def Let_def w1_def [symmetric])
qed

lemma DelFd_timers:
  fixes v :: world
  assumes "exp_ok v"
  shows "timers (DelFd os n v) = (timers v)(word_of_int n := None)"
proof -
  let ?w = "fst (CMonitorEpoll_Del os n v)"
  have w: "exp_ok ?w" "timers ?w = timers v"
    using assms by (simp_all add: CMonitorEpoll_Del_def case_prod_beta Let_def exp_ok_def)
  have "m_id_to_expire (DelFd os n v) = m_id_to_expire (CExpireMgr_Del (word_of_int n) ?w)"
    by (auto simp: DelFd_def Let_def CFdMgr_Destroy_def split: option.splits)
  then show ?thesis using Del_timers [OF w(1), of "word_of_int n"] w(2) by simp
qed

lemma tcprecv_closed:
  assumes "0 \<le> n" and "ret (recv_answer os n v) = 0"
  shows "tcprecv os code n CMemData_new cb sz v =
    Inr (after_recv os n v, \<lparr>m_data = replicate 1024 0, m_offset = 0\<rparr>, sz, IO_REMOTE_CLOSE)"
  using assms new_expanded by (simp add: tcprecv_def case_prod_beta recv_answer_def Let_def)

lemma DelFd_read:
  fixes v :: world
  assumes "fd_ok v" and "0 \<le> n"
  shows "fd_read key (DelFd os n v) = fd_read key v \<or> fd_read key (DelFd os n v) = None"
  using DelFd_entry(1) [OF assms, of os] by (auto simp: fd_read_def split: option.splits)

lemma tcprecv_frame:
  assumes "tcprecv os code n md cb sz v = Inr (v', md', sz', r)"
  shows "v' = v \<or> (\<exists>c. v' = snd (sys os c v))"
  using assms unfolding tcprecv_def
  by (auto simp: bind_res_Inr_iff case_prod_beta Let_def split: if_splits option.splits)

lemma refused_entry:
  fixes v :: world
  assumes "DoReadTcp os code n key v = Inr (v', r)" and "r \<noteq> IO_OK" and "fd_ok v" and "0 \<le> n"
    and "fd_read key v = Some d" and "fd_state d = E_OTHER"
  shows "fd_read key v' = fd_read key v \<or> fd_read key v' = None"
proof (cases "check d = 0")
  case True
  then show ?thesis using assms(1,5) by (simp add: DoReadTcp_def)
next
  case False
  obtain w1 md sz q where t: "tcprecv os code n CMemData_new (check d) 0 v = Inr (w1, md, sz, q)"
    using assms(1,5) False by (auto simp: DoReadTcp_def bind_res_Inr_iff)
  have w1: "fd_ok w1" "fd_read key w1 = fd_read key v"
    using tcprecv_frame [OF t] assms(3) by (auto simp: fd_read_def)
  show ?thesis
  proof (cases "sz \<le> 0 \<or> q \<noteq> IO_OK")
    case True
    then have "v' = (if q = IO_REMOTE_CLOSE then DelFd os n w1 else w1)"
      using assms(1,5) False t by (simp add: DoReadTcp_def)
    then show ?thesis using DelFd_read [OF w1(1) assms(4), of key os] w1(2) by auto
  next
    case fail: False
    then have "DeliverReply os code d key md sz w1 = Inr (v', r)"
      using assms(1,5,6) False t by (simp add: DoReadTcp_def IsClient_def IsOtherConn_def)
    then have "v' = fst (CMonitorEpoll_Del os (fd d) w1)"
      using assms(2) by (auto simp: DeliverReply_def Let_def bind_res_Inr_iff split: if_splits option.splits)
    then show ?thesis using w1(2) by (simp add: CMonitorEpoll_Del_def case_prod_beta Let_def fd_read_def)
  qed
qed

lemma taken_entry:
  assumes "sendrecv_finish os n key sq dst v = Return (IO_OK, buf) v'" and "fd_read key v = Some d" and "entry_fine d"
  shows "\<exists>d'. fd_read key v' = Some d' \<and> entry_fine d' \<and> pending d' = conn_after (Taken sq (contents buf)) (pending d) \<and>
    (\<exists>k. pending d sq = Some (k, contents buf)) \<and> contents buf \<noteq> []"
proof -
  have fine: "fd_state d = E_OTHER" "sm_sorted (seq_to_coroutine d)"
      "\<And>q sr. map_of (seq_to_coroutine d) q = Some sr \<Longrightarrow> mem_ok (sr_data sr)"
    using assms(3) by (auto simp: entry_fine_def)
  let ?rest = "sm_erase (<) sq (seq_to_coroutine d)"
  obtain sr where sr: "map_of (seq_to_coroutine d) sq = Some sr" "CMemData_Size (sr_data sr) \<noteq> 0" "buf = sr_data sr"
      "v' = (let w1 = fd_write key (\<lambda>e. e\<lparr>seq_to_coroutine := ?rest\<rparr>) v in
        if ?rest = [] then fst (CMonitorEpoll_Del os n w1) else w1)"
    using assms(1,2) fine(2) by (auto simp: sendrecv_finish_def sm_find_lin Let_def split: if_splits option.splits)
  let ?d = "d\<lparr>seq_to_coroutine := ?rest\<rparr>"
  have read: "fd_read key v' = Some ?d"
    using sr(4) assms(2) by (simp add: Let_def CMonitorEpoll_Del_def case_prod_beta fd_read_def fd_write_table)
  have m: "map_of ?rest = (map_of (seq_to_coroutine d))(sq := None)" "sm_sorted ?rest"
    using fine(2) by (simp_all add: sm_erase_lin)
  have "mem_ok buf" using fine(3) [OF sr(1)] sr(3) by simp
  then have "contents buf \<noteq> []" using sr(2,3) by (auto simp: contents_def mem_ok_def CMemData_Size_def unat_eq_0)
  moreover have "entry_fine ?d" using fine m by (auto simp: entry_fine_def split: if_splits)
  moreover have "pending ?d = (pending d)(sq := None)" using m(1) by (auto simp: pending_def)
  moreover have "pending d sq = Some (sr_id sr, contents buf)" using sr(1,3) by (simp add: pending_def)
  ultimately show ?thesis using read by auto
qed

text \<open>What holds after every run.\<close>

definition run_inv :: "stFdKey \<Rightarrow> pending \<Rightarrow> conn_event list \<Rightarrow> world \<Rightarrow> bool" where
  "run_inv key p es v \<longleftrightarrow>
     (\<forall>d. fd_read key v = Some d \<longrightarrow> entry_fine d \<and> pending d = outstanding p es) \<and>
     (\<forall>xs ys sq bs. es = xs @ Taken sq bs # ys \<longrightarrow> bs \<noteq> [] \<and> (\<exists>k. outstanding p xs sq = Some (k, bs)))"

lemma run_invD:
  assumes "run_inv key p es v"
  shows "fd_read key v = Some d \<Longrightarrow> entry_fine d" and "fd_read key v = Some d \<Longrightarrow> pending d = outstanding p es"
    and "es = xs @ Taken sq bs # ys \<Longrightarrow> bs \<noteq> [] \<and> (\<exists>k. outstanding p xs sq = Some (k, bs))"
  using assms by (simp_all add: run_inv_def)

lemma run_inv_same:
  assumes "run_inv key p es v" and "fd_read key v' = fd_read key v \<or> fd_read key v' = None"
  shows "run_inv key p es v'"
  using assms by (auto simp: run_inv_def)

lemma run_inv_step:
  assumes "run_inv key p es v" and "fd_read key v' = Some d'" and "entry_fine d'"
    and "pending d' = conn_after e (outstanding p es)"
    and "\<And>sq bs. e = Taken sq bs \<Longrightarrow> bs \<noteq> [] \<and> (\<exists>k. outstanding p es sq = Some (k, bs))"
  shows "run_inv key p (es @ [e]) v'"
proof -
  have "bs \<noteq> [] \<and> (\<exists>k. outstanding p xs sq = Some (k, bs))" if split: "es @ [e] = xs @ Taken sq bs # ys" for xs ys sq bs
  proof (cases ys rule: rev_cases)
    case Nil
    then show ?thesis using split assms(5) [of sq bs] by simp
  next
    case (snoc zs z)
    then show ?thesis using split run_invD(3) [OF assms(1), of xs sq bs zs] by simp
  qed
  then show ?thesis using assms(2-4) by (simp add: run_inv_def)
qed

lemma run_keeps:
  assumes "conn_run os code n key w es v" and "fd_read key w = Some d0" and "entry_fine d0" and "0 \<le> n" and "recv_documented os"
  shows "run_inv key (pending d0) es v"
  using assms(1)
proof (induction rule: conn_run.induct)
  case start
  then show ?case using assms(2,3) by (simp add: run_inv_def)
next
  case (elsewhere es v v')
  then show ?case using run_inv_same by blast
next
  case (asked es v sq r v' k)
  obtain d where d: "fd_read key v = Some d" using asked.hyps(2) by (auto simp: connect_finish_def split: option.splits)
  obtain d' where d': "fd_read key v' = Some d'" "entry_fine d'"
      "pending d' = conn_after (Asked (u32_to_int (word_of_int sq)) k) (pending d)"
    using asked_entry [OF asked.hyps(2,3) d run_invD(1) [OF asked.IH d]] by blast
  show ?case
    by (rule run_inv_step [OF asked.IH d'(1,2) d'(3) [unfolded run_invD(2) [OF asked.IH d]]]) simp
next
  case (answered es v d v' sz sq)
  obtain d' where d': "fd_read key v' = Some d'" "entry_fine d'"
      "pending d' = conn_after (Answered sq (ret_bytes (recv_answer os n v))) (pending d)"
    using answered_entry [OF answered.hyps(3,2) run_invD(1) [OF answered.IH answered.hyps(2)] assms(4,5) answered.hyps(4,5)] by blast
  show ?case
    by (rule run_inv_step [OF answered.IH d'(1,2) d'(3) [unfolded run_invD(2) [OF answered.IH answered.hyps(2)]]]) simp
next
  case (refused es v v' r)
  obtain d where d: "fd_read key v = Some d" using refused.hyps(3) by (auto simp: DoReadTcp_def split: option.splits)
  have "fd_state d = E_OTHER" using run_invD(1) [OF refused.IH d] by (simp add: entry_fine_def)
  from refused_entry [OF refused.hyps(3,4,2) assms(4) d this] show ?case
    by (rule run_inv_same [OF refused.IH])
next
  case (taken es v sq dst buf v')
  obtain d where d: "fd_read key v = Some d" using taken.hyps(2) by (auto simp: sendrecv_finish_def split: option.splits)
  note p = run_invD(2) [OF taken.IH d]
  obtain d' k where d': "fd_read key v' = Some d'" "entry_fine d'" "pending d' = conn_after (Taken sq (contents buf)) (pending d)"
      "pending d sq = Some (k, contents buf)" "contents buf \<noteq> []"
    using taken_entry [OF taken.hyps(2) d run_invD(1) [OF taken.IH d]] by blast
  show ?case
    by (rule run_inv_step [OF taken.IH d'(1,2) d'(3) [unfolded p]]) (use d'(4,5) p in auto)
qed

subsection \<open>Properties\<close>

text \<open>
  C17: Replies are never mixed up. Along any sequence of requests, reads and takings on one
  connection, interleaved with anything that leaves its entry alone or removes it, the map of the
  entry is the one the sequence gives, and what a \<^verbatim>\<open>tcpsendrecv\<close> takes for its sequence number is
  not empty and is exactly what the last read brought for that number since it was asked.
\<close>

theorem replies_not_mixed:
  assumes "conn_run os code n key w es v" and "fd_read key w = Some d0" and "entry_fine d0" and "0 \<le> n" and "recv_documented os"
  shows "(\<forall>d. fd_read key v = Some d \<longrightarrow> pending d = outstanding (pending d0) es) \<and>
    (\<forall>xs ys sq bs. es = xs @ Taken sq bs # ys \<longrightarrow> bs \<noteq> [] \<and> (\<exists>k. outstanding (pending d0) xs sq = Some (k, bs)))"
  using run_keeps [OF assms] unfolding run_inv_def by blast


theorem replies_not_mixed_witness:
  "\<exists>v buf. conn_run example_os example_code 9 (FdKey (IpPort ''10.0.0.1'' 80 PORT_TCP) 9) example_world
      [Answered 5 [1, 2, 3], Taken 5 (contents buf)] v \<and> contents buf = [1, 2, 3]"
proof -
  let ?key = "FdKey (IpPort ''10.0.0.1'' 80 PORT_TCP) 9"
  let ?sr = "\<lparr>sr_id = 1, sr_data = CMemData_new\<rparr>"
  let ?d = "example_raw\<lparr>fd := 9, fd_state := E_OTHER, check := 1, seq := 2, seq_to_coroutine := [(5, ?sr)]\<rparr>"
  have fine: "entry_fine ?d" by (simp add: entry_fine_def)
  obtain c where c: "nodes example_world 1 = Some c" using example_world_facts(6) by blast
  have p: "fd_state ?d = E_OTHER" "check ?d \<noteq> 0" "seq ?d \<noteq> 0" "(0 :: int) \<le> 9" "0 < ret (recv_answer example_os 9 example_world)"
    "3 = checked_size example_os example_code (check ?d) 9 example_world" "(0 :: int) < 3"
    "5 = example_code (seq ?d) (m_data (recv_buffer example_os 9 example_world)) (word_of_int 3)"
    "sm_sorted (seq_to_coroutine ?d)" "map_of (seq_to_coroutine ?d) 5 = Some ?sr" "mem_ok (sr_data ?sr)"
    "nodes example_world (sr_id ?sr) = Some c"
    using c by (simp_all add: example_recv example_code_def)
  obtain v1 d1 buf where v1: "DoReadTcp example_os example_code 9 ?key example_world = Inr (v1, IO_OK)"
      "fd_table v1 = (fd_table example_world)(?key \<mapsto> d1)" "sm_sorted (seq_to_coroutine d1)"
      "map_of (seq_to_coroutine d1) = (map_of (seq_to_coroutine ?d))(5 \<mapsto> ?sr\<lparr>sr_data := buf\<rparr>)"
      "contents buf = ret_bytes (recv_answer example_os 9 example_world)"
    using reply_result [OF example_os_documented example_world_facts(1,2) example_read(3) p]
    by (elim exE conjE) (rule that; assumption)
  have step: "conn_run example_os example_code 9 ?key example_world [Answered 5 [1, 2, 3]] v1"
    using conn_run.answered [OF conn_run.start example_read(3) v1(1) p(6,8)] by (simp add: example_recv)
  have bytes: "contents buf = [1, 2, 3]" using v1(5) by (simp add: example_recv)
  have "sm_find (<) 5 (seq_to_coroutine d1) = Some (?sr\<lparr>sr_data := buf\<rparr>)" "CMemData_Size buf \<noteq> 0"
    using v1(3,4) bytes by (auto simp: sm_find_lin contents_def CMemData_Size_def)
  then obtain v2 where v2: "sendrecv_finish example_os 9 ?key 5 CMemData_new v1 = Return (IO_OK, buf) v2"
    using v1(2) by (simp add: sendrecv_finish_def fd_read_def Let_def)
  have run: "conn_run example_os example_code 9 ?key example_world [Answered 5 [1, 2, 3], Taken 5 (contents buf)] v2"
    using conn_run.taken [OF step v2] by simp
  have "\<exists>k. outstanding (pending ?d) [Answered 5 [1, 2, 3]] 5 = Some (k, contents buf)"
    using replies_not_mixed [OF run example_read(3) fine p(4) example_os_documented]
    by (metis append_Cons append_Nil)
  then have "contents buf = [1, 2, 3]" by (simp add: outstanding_def pending_def)
  then show ?thesis using run by blast
qed

text \<open>A turn in which the code that is due faults.\<close>

lemma due_fault:
  fixes u :: world
  assumes u: "co_ok u" "timers u 0 = None" "timers u k = Some e" "e \<le> CExpireMgr_now u"
      "\<forall>j e'. timers u j = Some e' \<longrightarrow> e < e' \<or> e = e' \<and> k \<le> j"
    and ks: "ks k = Some f" and f: "\<And>v. m_fd_to_data v = m_fd_to_data u \<Longrightarrow> f v = Fail fault"
  shows "RunOnce os code raw (run_coroutine procs) (u, ks) = Inl fault"
proof -
  obtain i e' c w0 where i: "timers u i = Some e'" "\<forall>j e''. timers u j = Some e'' \<longrightarrow> e' < e'' \<or> e' = e'' \<and> i \<le> j"
      "CoroutineMgr_SetReady i u = Inr w0"
      "RunOnce os code raw (run_coroutine procs) (u, ks) =
        bind_res (run_coroutine procs i (w0\<lparr>m_active := Some i, control := i\<rparr>, ks)) (\<lambda>y. Inr (y, IO_OK))"
    using RunOnce_due [OF u(1-4), of os code raw "run_coroutine procs" ks]
    by (elim exE conjE) (rule that; assumption)
  have "i = k" using i(2) [rule_format, OF u(3)] u(5) [rule_format, OF i(1)] by auto
  moreover have "f (w0\<lparr>m_active := Some k, control := k\<rparr>) = Fail fault"
    by (rule f) (simp add: SetReady_world_frame(1) [OF i(3)])
  then have "run_coroutine procs k (w0\<lparr>m_active := Some k, control := k\<rparr>, ks) = Inl fault"
    using ks by (simp add: run_coroutine_def finish_run_def)
  ultimately show ?thesis using i(4) by simp
qed

text \<open>
  C19: The peer may end a connection while a request on it waits for its reply. The read then
  removes the entry but wakes nobody, so the coroutine sleeps on with its timer; and the turn of
  the loop in which that timer is the earliest one due faults, since \<^verbatim>\<open>tcpsendrecv\<close> goes on by
  looking its number up in the entry it had, which is gone.
\<close>

theorem close_while_waiting_faults:
  fixes v :: world
  assumes "fd_ok v" and "co_ok v" and "0 \<le> n" and "fd_read key v = Some d" and "check d \<noteq> 0"
    and "CFdMgr_Get n v = Some key" and "ret (recv_answer os n v) = 0" and "timers v k = Some e" and "k \<noteq> word_of_int n"
  shows "\<exists>v'. DoReadTcp os code n key v = Inr (v', IO_ERR) \<and> fd_read key v' = None \<and>
    node_state v' k = Some E_WAIT \<and> timers v' k = Some e \<and>
    (\<forall>(u :: world) ks g. co_ok u \<longrightarrow> fd_read key u = None \<longrightarrow> timers u 0 = None \<longrightarrow> timers u k = Some e \<longrightarrow>
       e \<le> CExpireMgr_now u \<longrightarrow> (\<forall>j e'. timers u j = Some e' \<longrightarrow> e < e' \<or> e = e' \<and> k \<le> j) \<longrightarrow>
       ks k = Some (\<lambda>w. bind_co (sendrecv_finish os n key sq dst w) g) \<longrightarrow>
       RunOnce os code raw (run_coroutine procs) (u, ks) = Inl Null_Deref)"
proof -
  have read: "DoReadTcp os code n key v = Inr (DelFd os n (after_recv os n v), IO_ERR)"
    using assms(3-5,7) by (simp add: DoReadTcp_def tcprecv_closed)
  have w: "fd_ok (after_recv os n v)" "CFdMgr_Get n (after_recv os n v) = Some key"
    using assms(1,6) by (simp_all add: CFdMgr_Get_def CFdMgr_Exist_def)
  have gone: "fd_read key (DelFd os n (after_recv os n v)) = None"
    using DelFd_entry(1) [OF w(1) assms(3), of os] w(2) by (simp add: fd_read_def)
  have "node_state v k = Some E_WAIT" by (rule co_okD(7) [OF assms(2,8)])
  then have st: "node_state (DelFd os n (after_recv os n v)) k = Some E_WAIT"
    using DelFd_entry(2) [OF w(1) assms(3), of os] by simp
  have "exp_ok (after_recv os n v)" using co_okD(1) [OF assms(2)] by (simp add: exp_ok_def)
  then have tm: "timers (DelFd os n (after_recv os n v)) k = Some e"
    using DelFd_timers [of "after_recv os n v" os n] assms(8,9) by simp
  have "RunOnce os code raw (run_coroutine procs) (u, ks) = Inl Null_Deref"
    if u: "co_ok u" "fd_read key u = None" "timers u 0 = None" "timers u k = Some e" "e \<le> CExpireMgr_now u"
        "\<forall>j e'. timers u j = Some e' \<longrightarrow> e < e' \<or> e = e' \<and> k \<le> j"
      and ks: "ks k = Some (\<lambda>w. bind_co (sendrecv_finish os n key sq dst w) g)" for u :: world and ks g
    by (rule due_fault [where ks = ks and k = k and u = u and e = e, OF u(1,3-6)], rule ks) (use u(2) in \<open>simp add: sendrecv_finish_def fd_read_def\<close>)
  then show ?thesis using read gone st tm by blast
qed


definition closed_os :: os where
  "closed_os cs c = (example_os cs c)\<lparr>ret := 0\<rparr>"

definition example_stuck :: stacks where
  "example_stuck = [1 \<mapsto> \<lambda>w. bind_co (sendrecv_finish closed_os 9 (FdKey (IpPort ''10.0.0.1'' 80 PORT_TCP) 9) 5 CMemData_new w)
     (\<lambda>_ w'. Return 0 w')]"

theorem close_while_waiting_faults_witness:
  "(\<exists>v'. DoReadTcp closed_os example_code 9 (FdKey (IpPort ''10.0.0.1'' 80 PORT_TCP) 9) example_sleeping = Inr (v', IO_ERR)) \<and>
   RunOnce closed_os example_code example_raw (run_coroutine example_procs)
     (example_sleeping\<lparr>m_fd_to_data := [], clock := \<lparr>tv_sec = 2, tv_usec = 0\<rparr>\<rparr>, example_stuck) = Inl Null_Deref"
proof -
  let ?key = "FdKey (IpPort ''10.0.0.1'' 80 PORT_TCP) 9"
  let ?u = "example_sleeping\<lparr>m_fd_to_data := [], clock := \<lparr>tv_sec = 2, tv_usec = 0\<rparr>\<rparr>"
  let ?d = "example_raw\<lparr>fd := 9, fd_state := E_OTHER, check := 1, seq := 2,
    seq_to_coroutine := [(5, \<lparr>sr_id = 1, sr_data = CMemData_new\<rparr>)]\<rparr>"
  have m: "m_fd_to_data example_sleeping = example_fds"
    using Wait_world_frame(1) [OF example_sleeping_facts(7)] example_world_fds(2) by simp
  have ok: "fd_ok example_sleeping" using fd_ok_cong [of example_sleeping example_world] m example_world_fds(1,2) by simp
  have read: "fd_read ?key example_sleeping = Some ?d"
    using example_read(3) m by (simp add: fd_read_def example_world_fds(2))
  have get: "CFdMgr_Get 9 example_sleeping = Some ?key"
    using Get_iff [OF ok, of 9 ?key] m
    by (simp add: example_fds_def fd_visible_def fd_key_def stIpPort_new_def)
  have c: "check ?d \<noteq> 0" "ret (recv_answer closed_os 9 example_sleeping) = 0"
    "timers example_sleeping 1 = Some 1100" "(1 :: u32) \<noteq> word_of_int 9"
    by (simp_all add: recv_answer_def closed_os_def example_sleeping_facts(3))
  have u: "co_ok ?u" "fd_read ?key ?u = None" "timers ?u 0 = None" "timers ?u 1 = Some 1100" "1100 \<le> CExpireMgr_now ?u"
    "\<forall>j e'. timers ?u j = Some e' \<longrightarrow> 1100 < e' \<or> 1100 = e' \<and> 1 \<le> j"
    using example_sleeping_facts(1) co_ok_cong(1) [of ?u example_sleeping] now_at [of 2 "example_sleeping\<lparr>m_fd_to_data := []\<rparr>"]
    by (simp_all add: fd_read_def example_sleeping_facts(3))
  have ks: "example_stuck 1 = Some (\<lambda>w. bind_co (sendrecv_finish closed_os 9 ?key 5 CMemData_new w) (\<lambda>_ w'. Return 0 w'))"
    by (simp add: example_stuck_def)
  obtain v' where v': "DoReadTcp closed_os example_code 9 ?key example_sleeping = Inr (v', IO_ERR)"
      "\<forall>(u :: world) ks g. co_ok u \<longrightarrow> fd_read ?key u = None \<longrightarrow> timers u 0 = None \<longrightarrow> timers u 1 = Some 1100 \<longrightarrow>
       1100 \<le> CExpireMgr_now u \<longrightarrow> (\<forall>j e'. timers u j = Some e' \<longrightarrow> 1100 < e' \<or> 1100 = e' \<and> 1 \<le> j) \<longrightarrow>
       ks 1 = Some (\<lambda>w. bind_co (sendrecv_finish closed_os 9 ?key 5 CMemData_new w) g) \<longrightarrow>
       RunOnce closed_os example_code example_raw (run_coroutine example_procs) (u, ks) = Inl Null_Deref"
    using close_while_waiting_faults [where os = closed_os and code = example_code and raw = example_raw and procs = example_procs
        and sq = 5 and dst = CMemData_new, OF ok example_sleeping_facts(1) zero_le_numeral read c(1) get c(2-4)]
    by (elim exE conjE) (rule that; assumption)
  have "RunOnce closed_os example_code example_raw (run_coroutine example_procs) (?u, example_stuck) = Inl Null_Deref"
    using v'(2) [THEN spec [of _ ?u], THEN spec [of _ example_stuck], THEN spec [of _ "\<lambda>_ w'. Return 0 w'"]] u ks by simp
  then show ?thesis using v'(1) by blast
qed

end
