(* ===== verification/Connect.thy ===== *)
theory Connect
  imports Inflight
begin

section \<open>Opening a connection (tcpconnect and the event loop)\<close>

text \<open>
  A connection is opened over two turns: \<^verbatim>\<open>tcpconnect\<close> makes the socket and its entry and waits,
  \<^verbatim>\<open>TcpConnect\<close> of the event loop stores the outcome in the entry and wakes the waiter, which
  then finishes \<^verbatim>\<open>tcpconnect\<close>. The properties follow both outcomes to the end, and two ways in
  which it goes wrong: a connection that is there at once, and one that another coroutine
  wants while it is being opened.
\<close>

lemma new_entry [simp]:
  "check (stFdData_new raw) = 0" "port_type (stFdData_new raw) = PORT_UDP" "seq (stFdData_new raw) = 0" "seq_to_coroutine (stFdData_new raw) = []"
  by (simp_all add: stFdData_new_def)

lemma sm_one [simp]:
  "sm_assign lt k v [] = [(k, v)]" "sm_find lt k [] = None" "CMemData_Clear CMemData_new = CMemData_new"
  by (simp_all add: sm_assign_def sm_find_def sm_entry_def sm_before_def sm_lower_bound_def CMemData_Clear_def CMemData_new_def)

lemma process_connect:
  assumes "CFdMgr_Get n v = Some key" and "fd_read key v = Some d" and "fd_state d = E_CONNECT"
  shows "process_event os code raw (n, event) v = TcpConnect os n event key v"
  using assms by (simp add: process_event_def)

text \<open>The outcome stored and the waiter woken.\<close>

lemma TcpConnect_result:
  fixes v :: world
  assumes "co_ok v" and "fd_read key v = Some d" and "nodes v (context_id d) = Some c"
  shows "\<exists>v'. TcpConnect os n event key v = Inr v' \<and> co_ok v' \<and>
    nodes v' = (nodes v)(context_id d \<mapsto> c\<lparr>m_state := E_READY\<rparr>) \<and> timers v' = (timers v)(context_id d := None) \<and>
    fd_table v' = (fd_table v)(key \<mapsto> d\<lparr>last_op_ret := (if EPOLLERR AND event = 0 then IO_OK else IO_ERR)\<rparr>)"
proof -
  let ?r = "if EPOLLERR AND event = 0 then IO_OK else IO_ERR"
  define w1 where "w1 = (if EPOLLERR AND event = 0 then fd_write key (\<lambda>d. d\<lparr>last_op_ret := IO_OK\<rparr>) v
    else fd_write key (\<lambda>d. d\<lparr>last_op_ret := IO_ERR\<rparr>) (snd (sys os (Sys_getsockopt n) v)))"
  have w1: "co_ok w1" "nodes w1 = nodes v" "timers w1 = timers v" "fd_table w1 = (fd_table v)(key \<mapsto> d\<lparr>last_op_ret := ?r\<rparr>)"
    using assms(1,2) by (simp_all add: w1_def fd_write_table fd_read_def)
  obtain v' where v': "CoroutineMgr_SetReady (context_id d) w1 = Inr v'" "co_ok v'"
      "nodes v' = (nodes w1)(context_id d \<mapsto> c\<lparr>m_state := E_READY\<rparr>)" "timers v' = (timers w1)(context_id d := None)"
    using SetReady_result [OF w1(1), of "context_id d" c] assms(3) w1(2) by auto
  have "TcpConnect os n event key v = Inr v'"
    using v'(1) w1(4) by (simp add: TcpConnect_def w1_def [symmetric] fd_read_def)
  then show ?thesis
    using v' w1 SetReady_world_frame(1) [OF v'(1)] by (intro exI [of _ v']) simp
qed

text \<open>What \<^verbatim>\<open>tcpconnect\<close> does when it goes on.\<close>

lemma finish_result:
  fixes u :: world
  assumes "co_ok u" and "fd_read key u = Some d"
  shows "\<exists>u'. connect_finish sq key u = Return (fd d, Some key) u' \<and> calls u' = calls u \<and>
    fd_table u' = (fd_table u)(key \<mapsto> d\<lparr>fd_state := E_OTHER,
      seq_to_coroutine := sm_assign (<) (u32_to_int (word_of_int sq))
        \<lparr>sr_id = control u, sr_data = CMemData_Clear (case sm_find (<) (u32_to_int (word_of_int sq)) (seq_to_coroutine d) of
           None \<Rightarrow> CMemData_new | Some sr \<Rightarrow> sr_data sr)\<rparr> (seq_to_coroutine d), last_op_ret := IO_OK\<rparr>)"
  using assms active_id_co [OF assms(1)]
  by (simp add: connect_finish_def fd_write_table fd_read_def stFdData_Clear_def Let_def)

lemma resumed_result:
  fixes u :: world
  assumes "co_ok u" and "fd_ok u" and "0 \<le> n" and "fd_read key u = Some d" and "CFdMgr_Get n u = Some key"
    and "seq_to_coroutine d = []" and "fd d = n"
  shows "if last_op_ret d = IO_OK
    then \<exists>u' d'. connect_resumed os n sq key u = Return (n, Some key) u' \<and> fd_table u' = (fd_table u)(key \<mapsto> d') \<and>
      d' = d\<lparr>context_id := 0, fd_state := E_OTHER, seq_to_coroutine := [(u32_to_int (word_of_int sq),
          \<lparr>sr_id = control u, sr_data = CMemData_new\<rparr>)]\<rparr> \<and>
      calls u' = calls u @ [Sys_epoll_ctl CTL_DEL n 0]
    else \<exists>u'. connect_resumed os n sq key u = Return (-2, None) u' \<and> fd_table u' = (fd_table u)(key := None) \<and>
      calls u' = calls u @ [Sys_epoll_ctl CTL_DEL n 0, Sys_close n]"
proof -
  let ?w1 = "fst (CMonitorEpoll_Del os n u)"
  define w2 where "w2 = (fd_write key (\<lambda>e. e\<lparr>context_id := 0\<rparr>) ?w1)\<lparr>connecting := remove1 n (connecting ?w1)\<rparr>"
  have w1: "calls ?w1 = calls u @ [Sys_epoll_ctl CTL_DEL n 0]" "fd_read key ?w1 = Some d" "co_ok ?w1" "fd_ok ?w1"
      "m_fd_to_data ?w1 = m_fd_to_data u" "control ?w1 = control u"
    using assms(1,2,4) fd_ok_cong [of ?w1 u] by (simp_all add: CMonitorEpoll_Del_def case_prod_beta Let_def fd_read_def)
  have w2: "calls w2 = calls u @ [Sys_epoll_ctl CTL_DEL n 0]" "fd_read key w2 = Some (d\<lparr>context_id := 0\<rparr>)" "co_ok w2"
      "fd_ok w2" "fd_table w2 = (fd_table u)(key \<mapsto> d\<lparr>context_id := 0\<rparr>)" "control w2 = control u"
    using w1 fd_write_ok [OF w1(4), of "\<lambda>e. e\<lparr>context_id := 0\<rparr>"]
    by (simp_all add: w2_def fd_read_after_write fd_write_table fd_read_def)
  have run: "connect_resumed os n sq key u = (if last_op_ret d \<noteq> IO_OK then
      (case CFdMgr_Destroy n w2 of
         (w3, IO_OK) \<Rightarrow> Return (-2, None) (snd (sys os (Sys_close n) w3))
       | (w3, _) \<Rightarrow> Return (-2, None) w3) else connect_finish sq key w2)"
    using w1(2) by (simp add: connect_resumed_def w2_def Let_def)
  show ?thesis
  proof (cases "last_op_ret d = IO_OK")
    case True
    obtain u' where u': "connect_finish sq key w2 = Return (fd (d\<lparr>context_id := 0\<rparr>), Some key) u'" "calls u' = calls w2"
        "fd_table u' = (fd_table w2)(key \<mapsto> (d\<lparr>context_id := 0\<rparr>)\<lparr>fd_state := E_OTHER, seq_to_coroutine :=
           sm_assign (<) (u32_to_int (word_of_int sq)) \<lparr>sr_id = control w2, sr_data = CMemData_Clear
             (case sm_find (<) (u32_to_int (word_of_int sq)) (seq_to_coroutine (d\<lparr>context_id := 0\<rparr>)) of
              None \<Rightarrow> CMemData_new | Some sr \<Rightarrow> sr_data sr)\<rparr> (seq_to_coroutine (d\<lparr>context_id := 0\<rparr>)), last_op_ret := IO_OK\<rparr>)"
      using finish_result [OF w2(3,2), of sq] by blast
    then show ?thesis
      using run True w2(1,5,6) assms(6,7) by (auto simp: sm_one)
  next
    case False
    have "fd_keys w2 = fd_keys u" using w1(5) by (simp add: w2_def fd_write_keys_eq)
    then have "CFdMgr_Get n w2 = Some key"
      using Get_iff [OF w2(4) assms(3)] Get_iff [OF assms(2,3), of key] assms(5) by simp
    then obtain x where "CFdMgr_Destroy n w2 = (w2\<lparr>m_fd_to_data := x\<rparr>, IO_OK)" "map_of x = (fd_table w2)(key := None)"
      using Destroy_fd_result [OF w2(4) assms(3)] by auto
    then show ?thesis using run False w2(1,5) by simp
  qed
qed

text \<open>The outcome stored, the waiter woken, and the call finished once it runs.\<close>

lemma connect_woken:
  fixes v :: world
  assumes "co_ok v" and "CFdMgr_Get n v = Some key" and "fd_read key v = Some d" and "fd_state d = E_CONNECT"
    and "nodes v (context_id d) \<noteq> None" and "seq_to_coroutine d = []" and "fd d = n" and "0 \<le> n"
  shows "\<exists>v'. process_event os code raw (n, event) v = Inr v' \<and>
    node_state v' (context_id d) = Some E_READY \<and> timers v' (context_id d) = None \<and>
    (\<forall>u. co_ok u \<longrightarrow> fd_ok u \<longrightarrow> CFdMgr_Get n u = Some key \<longrightarrow> fd_read key u = fd_read key v' \<longrightarrow>
      (if EPOLLERR AND event = 0
       then \<exists>u' d'. connect_resumed os n sq key u = Return (n, Some key) u' \<and> calls u' = calls u @ [Sys_epoll_ctl CTL_DEL n 0] \<and>
         fd_read key u' = Some d' \<and> fd_state d' = E_OTHER \<and> check d' = check d \<and> seq d' = seq d \<and>
         seq_to_coroutine d' = [(u32_to_int (word_of_int sq), \<lparr>sr_id = control u, sr_data = CMemData_new\<rparr>)]
       else \<exists>u'. connect_resumed os n sq key u = Return (-2, None) u' \<and> fd_read key u' = None \<and>
         calls u' = calls u @ [Sys_epoll_ctl CTL_DEL n 0, Sys_close n]))"
    (is "\<exists>v'. _ \<and> _ \<and> _ \<and> (\<forall>u. _ \<longrightarrow> _ \<longrightarrow> _ \<longrightarrow> _ \<longrightarrow> ?done u)")
proof -
  obtain c where c: "nodes v (context_id d) = Some c" using assms(5) by blast
  define d1 where "d1 = d\<lparr>last_op_ret := (if EPOLLERR AND event = 0 then IO_OK else IO_ERR)\<rparr>"
  obtain v' where v': "TcpConnect os n event key v = Inr v'" "nodes v' = (nodes v)(context_id d \<mapsto> c\<lparr>m_state := E_READY\<rparr>)"
      "timers v' = (timers v)(context_id d := None)" "fd_table v' = (fd_table v)(key \<mapsto> d1)"
    using TcpConnect_result [OF assms(1,3) c, of os n event] unfolding d1_def by blast
  have finished: "?done u" if u: "co_ok u" "fd_ok u" "CFdMgr_Get n u = Some key" "fd_read key u = fd_read key v'" for u
  proof -
    have r: "fd_read key u = Some d1" using u(4) v'(4) by (simp add: fd_read_def)
    have e: "seq_to_coroutine d1 = []" "fd d1 = n" using assms(6,7) by (simp_all add: d1_def)
    show ?thesis
      using resumed_result [OF u(1,2) assms(8) r u(3) e, of os sq] by (auto simp: d1_def fd_read_def)
  qed
  show ?thesis
    using process_connect [OF assms(2-4)] v'(1-3) finished by (intro exI [of _ v']) auto
qed

text \<open>What \<^verbatim>\<open>tcpconnect\<close> leaves when it has to wait.\<close>

lemma tcpconnect_waits:
  fixes w :: world
  assumes "fd_ok w" and "co_ok w" and "ip_fresh (IpPort i p PORT_TCP) w"
    and "n = ret (os (calls w) (Sys_socket PORT_TCP))" and "fd_fresh n w"
    and "b = os (calls w @ [Sys_socket PORT_TCP]) (Sys_connect n \<lparr>sin_addr = inet_addr i, sin_port = htons p\<rparr>)"
    and "ret b \<noteq> 0" and "errno b = EINPROGRESS" and "key = FdKey (IpPort i p PORT_TCP) n"
  shows "\<exists>w' d. tcpconnect os inet_addr raw i p timeout cb_seq cb_check sq w = Wait timeout w' (connect_resumed os n sq key) \<and>
    fd_ok w' \<and> fd_read key w' = Some d \<and>
    calls w' = calls w @ [Sys_socket PORT_TCP, Sys_connect n \<lparr>sin_addr = inet_addr i, sin_port = htons p\<rparr>,
      Sys_epoll_ctl CTL_ADD n (EFDEVENT_mask FD_READ_WRITE)] \<and>
    fd_state d = E_CONNECT \<and> context_id d = control w \<and> check d = cb_check \<and> seq d = cb_seq \<and> fd d = n \<and>
    seq_to_coroutine d = []"
proof -
  obtain w3 where w3: "tcpconnect os inet_addr raw i p timeout cb_seq cb_check sq w =
      (if ret b \<noteq> 0 \<and> errno b \<noteq> EINPROGRESS then Return (2, None) w3
       else if ret b = 0 then connect_finish sq key w3
       else (case active_id w3 of
           None \<Rightarrow> Fail Null_Deref
         | Some me \<Rightarrow> Wait timeout
             ((fst (CMonitorEpoll_Add os n FD_READ_WRITE (fd_write key
               (\<lambda>e. e\<lparr>fd_state := E_CONNECT, check := cb_check, seq := cb_seq, port_type := PORT_TCP, context_id := me\<rparr>) w3)))\<lparr>connecting := n # connecting w3\<rparr>)
             (connect_resumed os n sq key)))"
      "fd_ok w3" "co_ok w3 = co_ok w" "control w3 = control w"
      "fd_table w3 = (fd_table w)(key \<mapsto> (stFdData_new raw)\<lparr>fd := n\<rparr>)"
      "calls w3 = calls w @ [Sys_socket PORT_TCP, Sys_connect n \<lparr>sin_addr = inet_addr i, sin_port = htons p\<rparr>]"
    using tcpconnect_new [where os = os and inet_addr = inet_addr, OF assms(1,3-6), of raw timeout cb_seq cb_check sq,
      folded assms(9)]
    by (elim exE conjE) (rule that; assumption)
  let ?f = "\<lambda>e. e\<lparr>fd_state := E_CONNECT, check := cb_check, seq := cb_seq, port_type := PORT_TCP, context_id := control w\<rparr>"
  define d where "d = ?f ((stFdData_new raw)\<lparr>fd := n\<rparr>)"
  define w' where "w' = (fst (CMonitorEpoll_Add os n FD_READ_WRITE (fd_write key ?f w3)))\<lparr>connecting := n # connecting w3\<rparr>"
  have d: "fd_state d = E_CONNECT" "context_id d = control w" "check d = cb_check" "seq d = cb_seq" "fd d = n"
    "seq_to_coroutine d = []" by (simp_all add: d_def)
  have run: "tcpconnect os inet_addr raw i p timeout cb_seq cb_check sq w = Wait timeout w' (connect_resumed os n sq key)"
    using w3(1,3,4) assms(2,7,8) active_id_co [of w3] by (simp add: w'_def)
  have "fd_ok (fd_write key ?f w3)" by (rule fd_write_ok [OF w3(2)]) simp
  then have w': "fd_ok w'" "fd_read key w' = Some d"
      "calls w' = calls w @ [Sys_socket PORT_TCP, Sys_connect n \<lparr>sin_addr = inet_addr i, sin_port = htons p\<rparr>,
        Sys_epoll_ctl CTL_ADD n (EFDEVENT_mask FD_READ_WRITE)]"
    using w3(5,6) by (simp_all add: w'_def CMonitorEpoll_Add_def case_prod_beta Let_def fd_write_table fd_read_def d_def)
  show ?thesis by (intro exI [of _ w'] exI [of _ d] conjI) (rule run w' d)+
qed

subsection \<open>Properties\<close>

text \<open>
  C18: A connection attempt that is in progress is carried to its end. \<^verbatim>\<open>tcpconnect\<close> makes the entry,
  watches the socket and waits. When later the entry is still as it was left, and still found by its
  descriptor, and the system reports an event on the socket, the loop wakes the waiter. With no error in the event,
  \<^verbatim>\<open>tcpconnect\<close> then returns the descriptor, of an entry that is ready for use by the callbacks it was
  given and has the request's number entered for the coroutine; with an error it returns \<open>-2\<close>, the
  entry is gone and the descriptor closed. Either way the socket is no longer watched.
\<close>

theorem connect_completes:
  fixes w :: world
  assumes "fd_ok w" and "co_ok w" and "ip_fresh (IpPort i p PORT_TCP) w"
    and "n = ret (os (calls w) (Sys_socket PORT_TCP))" and "fd_fresh n w"
    and "b = os (calls w @ [Sys_socket PORT_TCP]) (Sys_connect n \<lparr>sin_addr = inet_addr i, sin_port = htons p\<rparr>)"
    and "ret b \<noteq> 0" and "errno b = EINPROGRESS" and "key = FdKey (IpPort i p PORT_TCP) n"
  shows "\<exists>w' f d. tcpconnect os inet_addr raw i p timeout cb_seq cb_check sq w = Wait timeout w' f \<and> fd_ok w' \<and>
    calls w' = calls w @ [Sys_socket PORT_TCP, Sys_connect n \<lparr>sin_addr = inet_addr i, sin_port = htons p\<rparr>,
      Sys_epoll_ctl CTL_ADD n (EFDEVENT_mask FD_READ_WRITE)] \<and>
    fd_read key w' = Some d \<and> fd_state d = E_CONNECT \<and>
    (\<forall>(v :: world) event. co_ok v \<longrightarrow> CFdMgr_Get n v = Some key \<longrightarrow> fd_read key v = Some d \<longrightarrow> nodes v (control w) \<noteq> None \<longrightarrow>
      (\<exists>v'. process_event os code raw (n, event) v = Inr v' \<and>
        node_state v' (control w) = Some E_READY \<and> timers v' (control w) = None \<and>
        (\<forall>u. co_ok u \<longrightarrow> fd_ok u \<longrightarrow> CFdMgr_Get n u = Some key \<longrightarrow> fd_read key u = fd_read key v' \<longrightarrow>
          (if EPOLLERR AND event = 0
           then \<exists>u' d'. f u = Return (n, Some key) u' \<and> calls u' = calls u @ [Sys_epoll_ctl CTL_DEL n 0] \<and>
             fd_read key u' = Some d' \<and> fd_state d' = E_OTHER \<and> check d' = cb_check \<and> seq d' = cb_seq \<and>
             seq_to_coroutine d' = [(u32_to_int (word_of_int sq), \<lparr>sr_id = control u, sr_data = CMemData_new\<rparr>)]
           else \<exists>u'. f u = Return (-2, None) u' \<and> fd_read key u' = None \<and>
             calls u' = calls u @ [Sys_epoll_ctl CTL_DEL n 0, Sys_close n]))))"
proof -
  obtain w' d where run: "tcpconnect os inet_addr raw i p timeout cb_seq cb_check sq w = Wait timeout w' (connect_resumed os n sq key)"
    and w': "fd_ok w'" "fd_read key w' = Some d"
      "calls w' = calls w @ [Sys_socket PORT_TCP, Sys_connect n \<lparr>sin_addr = inet_addr i, sin_port = htons p\<rparr>,
        Sys_epoll_ctl CTL_ADD n (EFDEVENT_mask FD_READ_WRITE)]"
    and d: "fd_state d = E_CONNECT" "context_id d = control w" "check d = cb_check" "seq d = cb_seq" "fd d = n"
      "seq_to_coroutine d = []"
    using tcpconnect_waits [where inet_addr = inet_addr and os = os, OF assms, of raw timeout cb_seq cb_check sq]
    by (elim exE conjE) (rule that; assumption)
  have n: "0 \<le> n" using assms(5) by (simp add: fd_fresh_def)
  have woken: "\<exists>v'. process_event os code raw (n, event) v = Inr v' \<and>
      node_state v' (control w) = Some E_READY \<and> timers v' (control w) = None \<and>
      (\<forall>u. co_ok u \<longrightarrow> fd_ok u \<longrightarrow> CFdMgr_Get n u = Some key \<longrightarrow> fd_read key u = fd_read key v' \<longrightarrow>
        (if EPOLLERR AND event = 0
         then \<exists>u' d'. connect_resumed os n sq key u = Return (n, Some key) u' \<and> calls u' = calls u @ [Sys_epoll_ctl CTL_DEL n 0] \<and>
           fd_read key u' = Some d' \<and> fd_state d' = E_OTHER \<and> check d' = cb_check \<and> seq d' = cb_seq \<and>
           seq_to_coroutine d' = [(u32_to_int (word_of_int sq), \<lparr>sr_id = control u, sr_data = CMemData_new\<rparr>)]
         else \<exists>u'. connect_resumed os n sq key u = Return (-2, None) u' \<and> fd_read key u' = None \<and>
           calls u' = calls u @ [Sys_epoll_ctl CTL_DEL n 0, Sys_close n]))"
    if v: "co_ok v" "CFdMgr_Get n v = Some key" "fd_read key v = Some d" "nodes v (control w) \<noteq> None" for v :: world and event
  proof -
    have "nodes v (context_id d) \<noteq> None" using v(4) d(2) by simp
    from connect_woken [OF v(1-3) d(1) this d(6,5) n, of os code raw event sq] show ?thesis unfolding d(2-4) .
  qed
  show ?thesis
    by (rule exI [of _ w'], rule exI [of _ "connect_resumed os n sq key"], rule exI [of _ d], intro conjI allI impI)
      (rule run w' d(1) woken; assumption)+
qed

definition pending_os :: os where
  "pending_os cs c = (example_os cs c)\<lparr>ret := (case c of Sys_socket t \<Rightarrow> 11 | Sys_connect n a \<Rightarrow> -1 | _ \<Rightarrow> 0),
     errno := EINPROGRESS\<rparr>"

lemma example_fresh:
  "ip_fresh (IpPort ''10.0.0.9'' 80 PORT_TCP) example_world" "fd_fresh 11 example_world"
  by (simp_all add: ip_fresh_def fd_fresh_def example_world_fds example_fds_def fd_key_def
      stIpPort_empty_def stIpPort_new_def)

theorem connect_completes_witness:
  "\<exists>w' f. tcpconnect pending_os (\<lambda>_. 0) example_raw ''10.0.0.9'' 80 1000 2 1 5 example_world = Wait 1000 w' f \<and>
    Sys_epoll_ctl CTL_ADD 11 (EFDEVENT_mask FD_READ_WRITE) \<in> set (calls w')"
proof -
  have n: "11 = ret (pending_os (calls example_world) (Sys_socket PORT_TCP))" by (simp add: pending_os_def)
  have b: "ret (pending_os (calls example_world @ [Sys_socket PORT_TCP]) (Sys_connect 11 \<lparr>sin_addr = 0, sin_port = htons 80\<rparr>)) \<noteq> 0"
    "errno (pending_os (calls example_world @ [Sys_socket PORT_TCP]) (Sys_connect 11 \<lparr>sin_addr = 0, sin_port = htons 80\<rparr>)) = EINPROGRESS"
    by (simp_all add: pending_os_def)
  obtain w' f where "tcpconnect pending_os (\<lambda>_. 0) example_raw ''10.0.0.9'' 80 1000 2 1 5 example_world = Wait 1000 w' f"
      "calls w' = calls example_world @ [Sys_socket PORT_TCP, Sys_connect 11 \<lparr>sin_addr = 0, sin_port = htons 80\<rparr>,
        Sys_epoll_ctl CTL_ADD 11 (EFDEVENT_mask FD_READ_WRITE)]"
    using connect_completes [where os = pending_os and inet_addr = "\<lambda>_. 0" and code = example_code,
        OF example_world_fds(1) example_world_facts(1) example_fresh(1) n example_fresh(2) refl b refl, of example_raw 1000 2 1 5]
    by (elim exE conjE) (rule that; assumption)
  then show ?thesis by (intro exI [of _ w'] exI [of _ f]) simp
qed

text \<open>
  C34: A connection that is there at once cannot be read: when \<^verbatim>\<open>connect\<close> succeeds without having to
  wait, \<^verbatim>\<open>tcpconnect\<close> returns the descriptor, but the entry gets neither the callbacks nor the type of
  a stream, so that as long as it is unchanged no event on the socket has any effect in the loop:
  nothing is read and no reply wakes the coroutine.
\<close>

theorem immediate_connect_deaf:
  fixes w :: world
  assumes "fd_ok w" and "co_ok w" and "ip_fresh (IpPort i p PORT_TCP) w"
    and "n = ret (os (calls w) (Sys_socket PORT_TCP))" and "fd_fresh n w"
    and "ret (os (calls w @ [Sys_socket PORT_TCP]) (Sys_connect n \<lparr>sin_addr = inet_addr i, sin_port = htons p\<rparr>)) = 0"
    and "key = FdKey (IpPort i p PORT_TCP) n"
  shows "\<exists>w' d. tcpconnect os inet_addr raw i p timeout cb_seq cb_check sq w = Return (n, Some key) w' \<and>
    fd_read key w' = Some d \<and> check d = 0 \<and> seq d = 0 \<and> fd_state d = E_OTHER \<and> port_type d = PORT_UDP \<and>
    map_of (seq_to_coroutine d) (u32_to_int (word_of_int sq)) = Some \<lparr>sr_id = control w, sr_data = CMemData_new\<rparr> \<and>
    (\<forall>(v :: world) event. CFdMgr_Get n v = Some key \<longrightarrow> fd_read key v = Some d \<longrightarrow>
       process_event os' code raw (n, event) v = Inr v)"
proof -
  let ?d = "(stFdData_new raw)\<lparr>fd := n\<rparr>"
  obtain w3 where w3: "tcpconnect os inet_addr raw i p timeout cb_seq cb_check sq w = connect_finish sq key w3"
      "co_ok w3" "fd_table w3 = (fd_table w)(key \<mapsto> ?d)" "control w3 = control w"
    using tcpconnect_new [where os = os and inet_addr = inet_addr, OF assms(1,3,4,5) refl, of raw timeout cb_seq cb_check sq,
      folded assms(7)] assms(2,6) by auto
  have d: "fd_read key w3 = Some ?d" using w3(3) by (simp add: fd_read_def)
  obtain w' where "connect_finish sq key w3 = Return (n, Some key) w'"
      "fd_table w' = (fd_table w3)(key \<mapsto> ?d\<lparr>fd_state := E_OTHER, seq_to_coroutine :=
        [(u32_to_int (word_of_int sq), \<lparr>sr_id = control w3, sr_data = CMemData_new\<rparr>)], last_op_ret := IO_OK\<rparr>)"
    using finish_result [OF w3(2) d, of sq] by auto
  then show ?thesis
    using w3(1,4)
    by (intro exI [of _ w'] exI [of _ "?d\<lparr>fd_state := E_OTHER, seq_to_coroutine :=
        [(u32_to_int (word_of_int sq), \<lparr>sr_id = control w3, sr_data = CMemData_new\<rparr>)], last_op_ret := IO_OK\<rparr>"])
      (simp add: fd_read_def process_event_def IsListenFd_def DoReadUdp_def)
qed

definition ready_os :: os where
  "ready_os cs c = (example_os cs c)\<lparr>ret := (case c of Sys_socket t \<Rightarrow> 11 | _ \<Rightarrow> 0)\<rparr>"

theorem immediate_connect_deaf_witness:
  "\<exists>w' d. tcpconnect ready_os (\<lambda>_. 0) example_raw ''10.0.0.9'' 80 1000 2 1 5 example_world =
      Return (11, Some (FdKey (IpPort ''10.0.0.9'' 80 PORT_TCP) 11)) w' \<and>
    fd_read (FdKey (IpPort ''10.0.0.9'' 80 PORT_TCP) 11) w' = Some d \<and> check d = 0"
proof -
  have n: "11 = ret (ready_os (calls example_world) (Sys_socket PORT_TCP))"
    "ret (ready_os (calls example_world @ [Sys_socket PORT_TCP]) (Sys_connect 11 \<lparr>sin_addr = 0, sin_port = htons 80\<rparr>)) = 0"
    by (simp_all add: ready_os_def)
  show ?thesis
    using immediate_connect_deaf [where os = ready_os and inet_addr = "\<lambda>_. 0" and code = example_code and os' = ready_os,
        OF example_world_fds(1) example_world_facts(1) example_fresh(1) n(1) example_fresh(2) n(2) refl, of example_raw 1000 2 1 5]
    by (elim exE conjE) (intro exI conjI; assumption)
qed

text \<open>What a read that finds no data does to a connection, and to the coroutines.\<close>

lemma read_nothing:
  fixes v :: world
  assumes "fd_ok v" and "co_ok v" and "0 \<le> n" and "CFdMgr_Get n v = Some key" and "fd_read key v = Some d"
    and "fd_state d = E_OTHER" and "port_type d = PORT_TCP" and "check d \<noteq> 0" and "CanRead event"
  shows "ret (recv_answer os n v) < 0 \<Longrightarrow> process_event os code raw (n, event) v = Inr (after_recv os n v)"
    and "ret (recv_answer os n v) = 0 \<Longrightarrow> \<exists>v'. process_event os code raw (n, event) v = Inr v' \<and>
      nodes v' = nodes v \<and> timers v' = (timers v)(word_of_int n := None) \<and> fd_table v' = (fd_table v)(key := None) \<and>
      calls v' = calls v @ Sys_recv n 1024 # Sys_epoll_ctl CTL_DEL n 0 #
        (if n \<in> set (connecting v) then [] else [Sys_close n])"
proof -
  have run: "process_event os code raw (n, event) v = bind_res (DoReadTcp os code n key v) (\<lambda>r. Inr (fst r))"
    using assms(4-7,9) by (simp add: process_event_def IsListenFd_def)
  show "process_event os code raw (n, event) v = Inr (after_recv os n v)" if "ret (recv_answer os n v) < 0"
    using run that assms(3,5,8) new_expanded
    by (simp add: DoReadTcp_def tcprecv_def case_prod_beta recv_answer_def Let_def)
  let ?v = "after_recv os n v"
  have w: "fd_ok ?v" "CFdMgr_Get n ?v = Some key" "exp_ok ?v"
    using assms(1,4) co_okD(1) [OF assms(2)] by (simp_all add: CFdMgr_Get_def CFdMgr_Exist_def exp_ok_def)
  assume "ret (recv_answer os n v) = 0"
  then have "process_event os code raw (n, event) v = Inr (DelFd os n ?v)"
    using run assms(3,5,8) by (simp add: DoReadTcp_def tcprecv_closed)
  then show "\<exists>v'. process_event os code raw (n, event) v = Inr v' \<and>
      nodes v' = nodes v \<and> timers v' = (timers v)(word_of_int n := None) \<and> fd_table v' = (fd_table v)(key := None) \<and>
      calls v' = calls v @ Sys_recv n 1024 # Sys_epoll_ctl CTL_DEL n 0 #
        (if n \<in> set (connecting v) then [] else [Sys_close n])"
    using DelFd_entry [OF w(1) assms(3), of os] DelFd_timers [OF w(3), of os n] DelFd_calls [OF w(1) assms(3) w(2), of os] w(2)
    by (intro exI [of _ "DelFd os n ?v"]) simp
qed

text \<open>
  C35: A connection that is still being opened can be taken away from the coroutine that waits for
  it: a second \<^verbatim>\<open>tcpconnect\<close> to the same address returns the descriptor at once, without a
  connection, and marks the entry as ready. No event without data then tells the outcome to the first
  coroutine: as long as the entry is so, one that only says the socket can be written changes nothing; one
  that says it can be read, as a failed connection does, makes the loop read, which changes nothing
  but the calls made if it errs, and at the end of the stream removes the entry, without closing
  a socket the first coroutine still holds, and without a change to any coroutine (a timer may go that
  belongs to the coroutine with the descriptor's number). When the first coroutine goes on, after its
  timeout, it finds success, also when the connection has failed, if the entry is still there; and if
  it was removed, the turn of the loop faults, as \<^verbatim>\<open>tcpconnect\<close> goes on with the entry it had.
\<close>

theorem connecting_reused:
  fixes w :: world
  assumes "co_ok w" and "CFdMgr_Get_ip i p PORT_TCP w = Some key" and "fd_read key w = Some d" and "fd_state d = E_CONNECT"
    and "fd d = n" and "0 \<le> n" and "port_type d = PORT_TCP" and "check d \<noteq> 0"
  shows "\<exists>w' d'. tcpconnect os inet_addr raw i p timeout cb_seq cb_check sq w = Return (n, Some key) w' \<and>
    calls w' = calls w \<and> fd_read key w' = Some d' \<and> fd_state d' = E_OTHER \<and> last_op_ret d' = IO_OK \<and>
    context_id d' = context_id d \<and>
    (\<forall>(v :: world) event. fd_ok v \<longrightarrow> co_ok v \<longrightarrow> CFdMgr_Get n v = Some key \<longrightarrow> fd_read key v = Some d' \<longrightarrow>
       (if \<not> CanRead event then process_event os code raw (n, event) v = Inr v
        else if ret (recv_answer os n v) < 0
        then \<exists>v'. process_event os code raw (n, event) v = Inr v' \<and> nodes v' = nodes v \<and> timers v' = timers v \<and>
          m_fd_to_data v' = m_fd_to_data v \<and> calls v' = calls v @ [Sys_recv n 1024]
        else ret (recv_answer os n v) = 0 \<longrightarrow>
          (\<exists>v'. process_event os code raw (n, event) v = Inr v' \<and> nodes v' = nodes v \<and>
             timers v' = (timers v)(word_of_int n := None) \<and> fd_table v' = (fd_table v)(key := None) \<and>
             calls v' = calls v @ Sys_recv n 1024 # Sys_epoll_ctl CTL_DEL n 0 #
               (if n \<in> set (connecting v) then [] else [Sys_close n])))) \<and>
    (\<forall>u :: world. co_ok u \<longrightarrow> fd_read key u = Some d' \<longrightarrow>
       (\<exists>u'. connect_resumed os n sq' key u = Return (n, Some key) u' \<and> calls u' = calls u @ [Sys_epoll_ctl CTL_DEL n 0])) \<and>
    (\<forall>(u :: world) k e ks g. co_ok u \<longrightarrow> fd_read key u = None \<longrightarrow> timers u 0 = None \<longrightarrow> timers u k = Some e \<longrightarrow>
       e \<le> CExpireMgr_now u \<longrightarrow> (\<forall>j e'. timers u j = Some e' \<longrightarrow> e < e' \<or> e = e' \<and> k \<le> j) \<longrightarrow>
       ks k = Some (\<lambda>w. bind_co (connect_resumed os n sq' key w) g) \<longrightarrow>
       RunOnce os code raw (run_coroutine procs) (u, ks) = Inl Null_Deref)"
proof -
  obtain w' d' where w': "tcpconnect os inet_addr raw i p timeout cb_seq cb_check sq w = Return (n, Some key) w'"
      "calls w' = calls w" "fd_read key w' = Some d'"
      and d': "fd_state d' = E_OTHER" "last_op_ret d' = IO_OK" "context_id d' = context_id d" "fd d' = n"
      "port_type d' = PORT_TCP" "check d' \<noteq> 0"
    using finish_result [OF assms(1,3), of sq] assms(2,5,7,8) by (auto simp: tcpconnect_def fd_read_def)
  have quiet: "process_event os code raw (n, event) v = Inr v"
    if "CFdMgr_Get n v = Some key" "fd_read key v = Some d'" "\<not> CanRead event" for v :: world and event
    using that d'(1) by (simp add: process_event_def IsListenFd_def)
  have resumed: "\<exists>u'. connect_resumed os n sq' key u = Return (n, Some key) u' \<and> calls u' = calls u @ [Sys_epoll_ctl CTL_DEL n 0]"
    if u: "co_ok u" "fd_read key u = Some d'" for u :: world
  proof -
    let ?w1 = "fst (CMonitorEpoll_Del os n u)"
    let ?w2 = "(fd_write key (\<lambda>e. e\<lparr>context_id := 0\<rparr>) ?w1)\<lparr>connecting := remove1 n (connecting ?w1)\<rparr>"
    have w1: "co_ok ?w1" "fd_read key ?w1 = Some d'" "calls ?w1 = calls u @ [Sys_epoll_ctl CTL_DEL n 0]"
      using u by (simp_all add: CMonitorEpoll_Del_def case_prod_beta Let_def fd_read_def)
    then have "co_ok ?w2" "fd_read key ?w2 = Some (d'\<lparr>context_id := 0\<rparr>)" "calls ?w2 = calls u @ [Sys_epoll_ctl CTL_DEL n 0]"
      by (simp_all add: fd_read_def fd_write_table)
    from finish_result [OF this(1,2), of sq'] this(3)
    show ?thesis using w1(2) d'(2,4) by (auto simp: connect_resumed_def Let_def)
  qed
  have fault: "RunOnce os code raw (run_coroutine procs) (u, ks) = Inl Null_Deref"
    if u: "co_ok u" "fd_read key u = None" "timers u 0 = None" "timers u k = Some e" "e \<le> CExpireMgr_now u"
        "\<forall>j e'. timers u j = Some e' \<longrightarrow> e < e' \<or> e = e' \<and> k \<le> j"
      and ks: "ks k = Some (\<lambda>w. bind_co (connect_resumed os n sq' key w) g)" for u :: world and k e ks g
    by (rule due_fault [where ks = ks and k = k and u = u and e = e, OF u(1,3-6)], rule ks)
      (use u(2) in \<open>simp add: connect_resumed_def fd_read_def Let_def CMonitorEpoll_Del_def case_prod_beta\<close>)
  show ?thesis
  proof (rule exI [of _ w'], rule exI [of _ d'], intro conjI allI impI)
    fix v :: world and event
    assume v: "fd_ok v" "co_ok v" "CFdMgr_Get n v = Some key" "fd_read key v = Some d'"
    note r = read_nothing [where event = event, OF v(1,2) assms(6) v(3,4) d'(1,5,6)]
    show "if \<not> CanRead event then process_event os code raw (n, event) v = Inr v
        else if ret (recv_answer os n v) < 0
        then \<exists>v'. process_event os code raw (n, event) v = Inr v' \<and> nodes v' = nodes v \<and> timers v' = timers v \<and>
          m_fd_to_data v' = m_fd_to_data v \<and> calls v' = calls v @ [Sys_recv n 1024]
        else ret (recv_answer os n v) = 0 \<longrightarrow>
          (\<exists>v'. process_event os code raw (n, event) v = Inr v' \<and> nodes v' = nodes v \<and>
             timers v' = (timers v)(word_of_int n := None) \<and> fd_table v' = (fd_table v)(key := None) \<and>
             calls v' = calls v @ Sys_recv n 1024 # Sys_epoll_ctl CTL_DEL n 0 #
               (if n \<in> set (connecting v) then [] else [Sys_close n]))"
      using quiet [OF v(3,4)] r by simp
  qed (rule w' d' resumed fault; assumption)+
qed

text \<open>The entry on descriptor 9 is being opened; later it is gone, and coroutine 1 is due to go on with it.\<close>

theorem connecting_reused_witness:
  "(\<exists>w'. tcpconnect example_os (\<lambda>_. 0) example_raw ''10.0.0.1'' 80 1000 2 1 6
      (fd_write (FdKey (IpPort ''10.0.0.1'' 80 PORT_TCP) 9) (\<lambda>e. e\<lparr>fd_state := E_CONNECT\<rparr>) example_world) =
      Return (9, Some (FdKey (IpPort ''10.0.0.1'' 80 PORT_TCP) 9)) w' \<and> calls w' = []) \<and>
   RunOnce example_os example_code example_raw (run_coroutine example_procs)
     (example_sleeping\<lparr>m_fd_to_data := [], clock := \<lparr>tv_sec = 2, tv_usec = 0\<rparr>\<rparr>,
      [1 \<mapsto> \<lambda>w. bind_co (connect_resumed example_os 9 5 (FdKey (IpPort ''10.0.0.1'' 80 PORT_TCP) 9) w) (\<lambda>_ w'. Return 0 w')]) =
     Inl Null_Deref"
proof -
  let ?key = "FdKey (IpPort ''10.0.0.1'' 80 PORT_TCP) 9"
  let ?w = "fd_write ?key (\<lambda>e. e\<lparr>fd_state := E_CONNECT\<rparr>) example_world"
  let ?u = "example_sleeping\<lparr>m_fd_to_data := [], clock := \<lparr>tv_sec = 2, tv_usec = 0\<rparr>\<rparr>"
  let ?g = "\<lambda>_ w' :: world. Return (0 :: int) w'"
  let ?ks = "[1 \<mapsto> \<lambda>w. bind_co (connect_resumed example_os 9 5 ?key w) ?g] :: stacks"
  have ok: "fd_ok ?w" by (rule fd_write_ok [OF example_world_fds(1)]) simp
  have "?key \<in> fd_keys ?w"
    using example_world_fds(2) by (simp add: fd_write_keys_eq) (simp add: example_fds_def)
  then have get: "CFdMgr_Get_ip ''10.0.0.1'' 80 PORT_TCP ?w = Some ?key"
    using Get_ip_iff [OF ok, of "''10.0.0.1''" 80 PORT_TCP ?key] by (simp add: stIpPort_empty_def)
  have co: "co_ok ?w" using example_world_facts(1) by simp
  obtain d where d: "fd_read ?key ?w = Some d" "fd_state d = E_CONNECT" "fd d = 9" "port_type d = PORT_TCP" "check d \<noteq> 0"
    using example_read(3) by (simp add: fd_read_after_write example_raw_def)
  have "calls ?w = []" using example_world_facts(10) by simp
  moreover obtain w' where w': "tcpconnect example_os (\<lambda>_. 0) example_raw ''10.0.0.1'' 80 1000 2 1 6 ?w = Return (9, Some ?key) w'"
      "calls w' = calls ?w"
      "\<forall>(u :: world) k e ks g. co_ok u \<longrightarrow> fd_read ?key u = None \<longrightarrow> timers u 0 = None \<longrightarrow> timers u k = Some e \<longrightarrow>
       e \<le> CExpireMgr_now u \<longrightarrow> (\<forall>j e'. timers u j = Some e' \<longrightarrow> e < e' \<or> e = e' \<and> k \<le> j) \<longrightarrow>
       ks k = Some (\<lambda>w. bind_co (connect_resumed example_os 9 5 ?key w) g) \<longrightarrow>
       RunOnce example_os example_code example_raw (run_coroutine example_procs) (u, ks) = Inl Null_Deref"
    using connecting_reused [where os = example_os and inet_addr = "\<lambda>_. 0" and code = example_code and procs = example_procs
        and sq' = 5, OF co get d(1-3) zero_le_numeral d(4,5), of example_raw 1000 2 1 6]
    by (elim exE conjE) (rule that; assumption)
  moreover have u: "co_ok ?u" "fd_read ?key ?u = None" "timers ?u 0 = None" "timers ?u 1 = Some 1100" "1100 \<le> CExpireMgr_now ?u"
    "\<forall>j e'. timers ?u j = Some e' \<longrightarrow> 1100 < e' \<or> 1100 = e' \<and> 1 \<le> j"
    using example_sleeping_facts(1) co_ok_cong(1) [of ?u example_sleeping] now_at [of 2 "example_sleeping\<lparr>m_fd_to_data := []\<rparr>"]
    by (simp_all add: fd_read_def example_sleeping_facts(3))
  have "RunOnce example_os example_code example_raw (run_coroutine example_procs) (?u, ?ks) = Inl Null_Deref"
    by (rule w'(3) [THEN spec, THEN spec, THEN spec, THEN spec, THEN spec, THEN mp, THEN mp, THEN mp, THEN mp, THEN mp, THEN mp, THEN mp,
        of ?u 1 1100 ?ks ?g, OF u fun_upd_same])
  ultimately show ?thesis by auto
qed

end
