(* ===== verification/Logging.thy ===== *)
theory Logging
  imports World
begin

section \<open>Text: format, LOG, DebugString and Dump\<close>

text \<open>
  The functions that make text, and the two that write it to the standard output. A \<^verbatim>\<open>printf\<close>
  template is translated into the text it expands to; \<^verbatim>\<open>format\<close> then cuts what does not fit its
  buffer, and the string made of the buffer ends at the first zero byte.
\<close>

definition format_text :: "nat \<Rightarrow> string \<Rightarrow> string" where
  "format_text sz txt = takeWhile (\<lambda>c. c \<noteq> CHR 0x00) (take (sz - 1) txt)"

definition print_d :: "int \<Rightarrow> string" where
  "print_d i = (if i < 0 then ''-'' else []) @ dec_of (nat \<bar>i\<bar>)"

definition log_line :: "(int \<Rightarrow> tm) \<Rightarrow> int \<Rightarrow> string \<Rightarrow> nat \<Rightarrow> string \<Rightarrow> string" where
  "log_line localtime ts func line msg =
     ''['' @ format_text 1024 (GetYMDHMS localtime ts) @ ''][''  @ func @ '':'' @ dec_of line @ ''] '' @ msg @ [CHR 0x0A]"

definition LOG :: "os \<Rightarrow> (int \<Rightarrow> tm) \<Rightarrow> string \<Rightarrow> nat \<Rightarrow> string \<Rightarrow> 'z world_scheme \<Rightarrow> 'z world_scheme" where
  "LOG os localtime func line msg w =
     snd (sys os (Sys_print (log_line localtime (tv_sec (clock w)) func line msg)) w)"

subsection \<open>DebugString\<close>

text \<open>A pointer as \<^verbatim>\<open>ostream\<close> prints it.\<close>

definition print_ptr :: "u64 \<Rightarrow> string" where
  "print_ptr p = (if p = 0 then ''0'' else ''0x'' @ hex_of (unat p))"

definition stReqData_DebugString :: "stReqData \<Rightarrow> string" where
  "stReqData_DebugString r =
     ''ReqData:'' @ [CHR 0x0A] @
     ''recvdata size '' @ dec_of (unat (CMemData_Size (recvdata r))) @
       '' leftsize '' @ dec_of (unat (CMemData_LeftSize (recvdata r))) @ [CHR 0x0A] @
     ''remoteaddr '' @ dec_of (unat (sin_addr (remoteaddr r))) @ '' '' @ dec_of (unat (sin_port (remoteaddr r))) @ [CHR 0x0A] @
     ''id '' @ dec_of (unat (req_id r)) @ [CHR 0x0A] @
     ''socket '' @ print_d (server_socket r) @ [CHR 0x0A] @
     ''callback '' @ print_ptr (m_cb r) @ [CHR 0x0A]"

fun EPORTTYPE_int :: "EPORTTYPE \<Rightarrow> nat" where
  "EPORTTYPE_int PORT_TCP = 0"
| "EPORTTYPE_int PORT_UDP = 1"

fun E_FD_TYPE_int :: "E_FD_TYPE \<Rightarrow> nat" where
  "E_FD_TYPE_int E_LISTEN = 0"
| "E_FD_TYPE_int E_SERVER_CONN = 1"
| "E_FD_TYPE_int E_OTHER = 2"
| "E_FD_TYPE_int E_CONNECT = 3"

definition stFdData_DebugString :: "stFdData \<Rightarrow> string" where
  "stFdData_DebugString d = '' port type '' @ dec_of (EPORTTYPE_int (port_type d)) @
     '' fdtype '' @ dec_of (E_FD_TYPE_int (fd_state d)) @ '' fd '' @ print_d (fd d)"

definition stFdKey_DebugString :: "stFdKey \<Rightarrow> string" where
  "stFdKey_DebugString k = ''ip '' @ ip (ip_port k) @ '' port '' @ dec_of (unat (port (ip_port k))) @
     '' fd '' @ print_d (socket_fd k)"

subsection \<open>The table in print\<close>

definition Dump_entry :: "os \<Rightarrow> (int \<Rightarrow> tm) \<Rightarrow> stFdKey \<times> stFdData \<Rightarrow> 'z world_scheme \<Rightarrow> 'z world_scheme" where
  "Dump_entry os localtime e =
     LOG os localtime ''Dump'' 232 (stFdKey_DebugString (fst e) @ '' '' @ stFdData_DebugString (snd e))"

definition CFdMgr_Dump :: "os \<Rightarrow> (int \<Rightarrow> tm) \<Rightarrow> 'z world_scheme \<Rightarrow> 'z world_scheme" where
  "CFdMgr_Dump os localtime w = fold (Dump_entry os localtime) (m_fd_to_data w) w"

subsection \<open>A map in print\<close>

text \<open>\<^verbatim>\<open>testmap\<close> of test2, which shows the order in which a map is run through.\<close>

definition testmap_entries :: "(int, string) smap" where
  "testmap_entries = fold (\<lambda>(k, s). sm_assign (<) k s)
     [(3, ''234''), (- 43, ''34''), (92, ''32423''), (39, ''32423''), (- 389, ''3434'')] []"

definition testmap :: "os \<Rightarrow> (int \<Rightarrow> tm) \<Rightarrow> 'z world_scheme \<Rightarrow> 'z world_scheme" where
  "testmap os localtime w =
     fold (\<lambda>(k, s). LOG os localtime ''testmap'' 78 (print_d k @ '' '' @ s)) testmap_entries w"

lemma testmap_order:
  "testmap_entries = [(- 389, ''3434''), (- 43, ''34''), (3, ''234''), (39, ''32423''), (92, ''32423'')]"
  by (simp add: testmap_entries_def sm_assign_def sm_entry_def sm_before_def sm_lower_bound_def)

subsection \<open>A timing loop\<close>

text \<open>
  \<^verbatim>\<open>test\<close> of test1 reads a timer ten million times and shows the time that took. The readings are thrown
  away and change nothing; the time of day at the end of the loop, which reading the clock does not
  fix, is the parameter \<open>later\<close>.
\<close>

definition main1_test :: "os \<Rightarrow> (int \<Rightarrow> tm) \<Rightarrow> timeval \<Rightarrow> 'z world_scheme \<Rightarrow> 'z world_scheme" where
  "main1_test os localtime later w =
     (let timer = CTimerMS_new (clock w) 0;
          w1 = w\<lparr>clock := later\<rparr>
      in LOG os localtime ''test'' 75 (''result '' @ dec_of (unat (CTimerMS_GetElapsedTime (clock w1) timer))) w1)"

subsection \<open>Facts\<close>

lemma format_text_short: "0 < sz \<Longrightarrow> length (format_text sz txt) < sz"
  using length_takeWhile_le [of "\<lambda>c. c \<noteq> CHR 0x00" "take (sz - 1) txt"] by (auto simp: format_text_def)

lemma format_text_whole: "length txt < sz \<Longrightarrow> CHR 0x00 \<notin> set txt \<Longrightarrow> format_text sz txt = txt"
  by (auto simp: format_text_def takeWhile_eq_all_conv)

lemma dec_of_chars: "set (dec_of n) \<subseteq> set ''0123456789''"
proof (induction n rule: dec_of.induct)
  case (1 n)
  have "hex_digit m \<in> set ''0123456789''" if "m < 10" for m
    using that less_16_cases [of m] by (auto simp: hex_digit_def)
  then show ?case using "1" by (subst dec_of.simps) auto
qed

lemma time_fits: "format_text 1024 (GetYMDHMS localtime ts) = GetYMDHMS localtime ts"
proof (rule format_text_whole [OF GetYMDHMS_fits])
  have "CHR 0x00 \<notin> set (dec_of n)" for n using dec_of_chars [of n] by auto
  then show "CHR 0x00 \<notin> set (GetYMDHMS localtime ts)"
    by (simp add: GetYMDHMS_def print_u_def print_02u_def Let_def)
qed

lemma LOG_frame [simp]:
  "calls (LOG os localtime func line msg w) = calls w @ [Sys_print (log_line localtime (tv_sec (clock w)) func line msg)]"
  "m_fd_to_data (LOG os localtime func line msg w) = m_fd_to_data w"
  "m_idtonode (LOG os localtime func line msg w) = m_idtonode w"
  by (simp_all add: LOG_def)

text \<open>The value a decimal text stands for.\<close>

definition dec_read :: "string \<Rightarrow> nat" where
  "dec_read s = foldl (\<lambda>v c. 10 * v + hex_value c) 0 s"

lemma dec_read_of: "dec_read (dec_of n) = n"
proof (induction n rule: dec_of.induct)
  case (1 n)
  show ?case
    using "1" by (subst dec_of.simps) (auto simp: dec_read_def hex_value_digit)
qed

lemma dec_of_inj: "dec_of m = dec_of n \<longleftrightarrow> m = n"
  by (metis dec_read_of)

lemma print_d_inj: "print_d i = print_d j \<longleftrightarrow> i = j"
proof
  have minus: "dec_of n \<noteq> CHR ''-'' # xs" for n xs
    using dec_of_chars [of n] by auto
  assume "print_d i = print_d j"
  then show "i = j"
    using minus minus [symmetric] by (auto simp: print_d_def dec_of_inj split: if_splits)
qed simp

text \<open>Two keys print alike only if they have the address, the port and the descriptor in common.\<close>

lemma key_text_inj:
  assumes "stFdKey_DebugString k = stFdKey_DebugString l" and "CHR '' '' \<notin> set (ip (ip_port k))" "CHR '' '' \<notin> set (ip (ip_port l))"
  shows "ip (ip_port k) = ip (ip_port l) \<and> port (ip_port k) = port (ip_port l) \<and> socket_fd k = socket_fd l"
proof -
  have sp: "CHR '' '' \<notin> set (dec_of n)" for n using dec_of_chars [of n] by auto
  let ?t = "\<lambda>k. dec_of (unat (port (ip_port k))) @ '' fd '' @ print_d (socket_fd k)"
  have "ip (ip_port k) @ CHR '' '' # ''port '' @ ?t k = ip (ip_port l) @ CHR '' '' # ''port '' @ ?t l"
    using assms(1) by (simp add: stFdKey_DebugString_def)
  from split_at_first [OF assms(2,3) this]
  have ip: "ip (ip_port k) = ip (ip_port l)" and rest: "?t k = ?t l" by simp_all
  have "dec_of (unat (port (ip_port k))) @ CHR '' '' # ''fd '' @ print_d (socket_fd k) =
      dec_of (unat (port (ip_port l))) @ CHR '' '' # ''fd '' @ print_d (socket_fd l)"
    using rest by simp
  from split_at_first [OF sp sp this]
  show ?thesis using ip by (simp add: dec_of_inj print_d_inj word_unat_eq_iff)
qed

text \<open>What \<^verbatim>\<open>Dump\<close> writes.\<close>

lemma Dump_entry_frame [simp]:
  "calls (Dump_entry os localtime e w) = calls w @ [Sys_print (log_line localtime (tv_sec (clock w)) ''Dump'' 232
     (stFdKey_DebugString (fst e) @ '' '' @ stFdData_DebugString (snd e)))]"
  "m_fd_to_data (Dump_entry os localtime e w) = m_fd_to_data w"
  by (simp_all add: Dump_entry_def)

lemma dump_fold:
  "\<exists>ts. length ts = length es \<and> m_fd_to_data (fold (Dump_entry os localtime) es w) = m_fd_to_data w \<and>
     calls (fold (Dump_entry os localtime) es w) = calls w @ map (\<lambda>(t, e). Sys_print (log_line localtime t ''Dump'' 232
       (stFdKey_DebugString (fst e) @ '' '' @ stFdData_DebugString (snd e)))) (zip ts es)"
proof (induction es arbitrary: w)
  case Nil
  show ?case by simp
next
  case (Cons e es)
  obtain ts where ts: "length ts = length es"
      "m_fd_to_data (fold (Dump_entry os localtime) es (Dump_entry os localtime e w)) = m_fd_to_data (Dump_entry os localtime e w)"
      "calls (fold (Dump_entry os localtime) es (Dump_entry os localtime e w)) = calls (Dump_entry os localtime e w) @
        map (\<lambda>(t, e). Sys_print (log_line localtime t ''Dump'' 232
          (stFdKey_DebugString (fst e) @ '' '' @ stFdData_DebugString (snd e)))) (zip ts es)"
    using Cons.IH [of "Dump_entry os localtime e w"] by blast
  then show ?case
    by (intro exI [of _ "tv_sec (clock w) # ts"]) (simp add: ts)
qed

subsection \<open>Properties\<close>

text \<open>
  \<^verbatim>\<open>Dump\<close> writes one line for each entry of the table, in the order of the keys, changes nothing
  else, and (addresses having no space in them) two lines that show the same key are of entries
  with the same address, port and descriptor.
\<close>

theorem dump_shows_table:
  assumes "\<forall>k \<in> fd_keys w. CHR '' '' \<notin> set (ip (ip_port k))"
  shows "(\<exists>ts. length ts = length (m_fd_to_data w) \<and>
      calls (CFdMgr_Dump os localtime w) = calls w @ map (\<lambda>(t, e). Sys_print (log_line localtime t ''Dump'' 232
        (stFdKey_DebugString (fst e) @ '' '' @ stFdData_DebugString (snd e)))) (zip ts (m_fd_to_data w))) \<and>
    m_fd_to_data (CFdMgr_Dump os localtime w) = m_fd_to_data w \<and>
    (\<forall>k \<in> fd_keys w. \<forall>l \<in> fd_keys w. stFdKey_DebugString k = stFdKey_DebugString l \<longrightarrow>
       ip (ip_port k) = ip (ip_port l) \<and> port (ip_port k) = port (ip_port l) \<and> socket_fd k = socket_fd l)"
  using dump_fold [of "m_fd_to_data w" os localtime w] key_text_inj assms unfolding CFdMgr_Dump_def by blast

definition example_listed :: world where
  "example_listed = (world_start \<lparr>tv_sec = 1, tv_usec = 0\<rparr>)\<lparr>m_fd_to_data := m_fd_to_data example_table\<rparr>"

theorem dump_shows_table_witness:
  "m_fd_to_data (CFdMgr_Dump (\<lambda>_ _. \<lparr>ret = 0, errno = 0, ret_bytes = [], ret_addr = \<lparr>sin_addr = 0, sin_port = 0\<rparr>,
     ret_events = [], ret_time = \<lparr>tv_sec = 1, tv_usec = 0\<rparr>\<rparr>) (\<lambda>_. example_tm) example_listed) = m_fd_to_data example_listed"
proof -
  have keys: "fd_keys example_listed = {fd_key 7, FdKey (IpPort ''10.0.0.1'' 80 PORT_TCP) 6}"
    using example_table_keys by (simp add: example_listed_def)
  have "\<forall>k \<in> fd_keys example_listed. CHR '' '' \<notin> set (ip (ip_port k))"
    unfolding keys by (simp add: fd_key_def stIpPort_new_def)
  from dump_shows_table [OF this] show ?thesis by blast
qed

end
