(* ===== verification/CloseConnect.thy ===== *)
theory CloseConnect
  imports Logging Client
begin

section \<open>The close-connect test programs\<close>

text \<open>
  Two small programs beside test1, which try what happens when one side closes. They use no part of
  the library, only blocking calls of the system; each has its own copy of \<^verbatim>\<open>format\<close>,
  \<^verbatim>\<open>GetYMDHMS\<close> and \<^verbatim>\<open>LOG\<close>. The conversion \<^verbatim>\<open>%m\<close> shows the error of the last call through the
  parameter \<open>strerror\<close>; \<open>shown\<close> is what \<^verbatim>\<open>%d\<close> makes of the structure passed in its place, which the
  language leaves undefined.
\<close>

definition test_log :: "os \<Rightarrow> (int \<Rightarrow> tm) \<Rightarrow> nat \<Rightarrow> string \<Rightarrow> world \<Rightarrow> world" where
  "test_log os localtime line msg w = LOG os localtime ''main'' line msg w"

definition LEN_1K :: nat where "LEN_1K = 1024"

text \<open>The characters \<^verbatim>\<open>%s\<close> shows of a buffer: up to the zero byte, and past the end without one.\<close>

definition c_string :: "u8 list \<Rightarrow> string res" where
  "c_string bs = (if 0 \<in> set bs then Inr (map (\<lambda>b. char_of (unat b)) (takeWhile (\<lambda>b. b \<noteq> 0) bs)) else Inl Out_Of_Bounds)"

subsection \<open>close-connect-client\<close>

definition servaddr :: sockaddr_in where
  "servaddr = \<lparr>sin_addr = 0, sin_port = htons 30000\<rparr>"

definition connect_msg :: "(int \<Rightarrow> string) \<Rightarrow> answer \<Rightarrow> string" where
  "connect_msg strerror a = ''connect = '' @ print_d (ret a) @ '' errno '' @ print_d (errno a) @ '' '' @ strerror (errno a)"

definition close_client :: "os \<Rightarrow> (int \<Rightarrow> tm) \<Rightarrow> (int \<Rightarrow> string) \<Rightarrow> world \<Rightarrow> world res" where
  "close_client os localtime strerror w =
     (let (a, w1) = sys os Sys_socket_blocking w;
          n = ret a
      in if n < 0 then Inr (test_log os localtime 62 (''socket = '' @ print_d n @ '' '' @ strerror (errno a)) w1)
      else
        let (b, w2) = sys os (Sys_connect n servaddr) w1;
            w3 = test_log os localtime 72 (connect_msg strerror b) w2;
            (c, w4) = sys os (Sys_send n (bytes_of ''12312321313'' @ [0])) w3;
            (d, w5) = sys os (Sys_recv n LEN_1K) w4
        in bind_res (write_bytes 0 (take (nat (ret d)) (ret_bytes d)) (replicate LEN_1K 0))
          (\<lambda>buf. let w6 = test_log os localtime 77 (''recv = '' @ print_d (ret d)) w5;
              (e, w7) = sys os (Sys_connect n servaddr) w6;
              w8 = test_log os localtime 79 (connect_msg strerror e) w7;
              w9 = snd (sys os (Sys_close n) w8)
            in Inr (snd (sys os (Sys_sleep 10) w9))))"

subsection \<open>close-connect-server\<close>

text \<open>\<^verbatim>\<open>LOG\<close> of this file, with its own \<^verbatim>\<open>format\<close> and \<^verbatim>\<open>GetYMDHMS\<close>.\<close>

definition server_log :: "os \<Rightarrow> (int \<Rightarrow> tm) \<Rightarrow> nat \<Rightarrow> string \<Rightarrow> world \<Rightarrow> world" where
  "server_log os localtime line msg w = LOG os localtime ''main'' line msg w"

text \<open>From the line that shows what was received to the end.\<close>

definition close_server_rest :: "os \<Rightarrow> (int \<Rightarrow> tm) \<Rightarrow> (int \<Rightarrow> string) \<Rightarrow> (sockaddr_in \<Rightarrow> int) \<Rightarrow> int \<Rightarrow> int \<Rightarrow>
    int \<Rightarrow> string \<Rightarrow> world \<Rightarrow> world" where
  "close_server_rest os localtime strerror shown n fd_client sret buf w7 =
     (let w8 = server_log os localtime 93 (''recv = '' @ print_d sret @ '' '' @ buf) w7;
          w9 = snd (sys os (Sys_sleep 10) w8);
          w10 = server_log os localtime 95 (''do close fd '' @ print_d fd_client) w9;
          w11 = snd (sys os (Sys_close fd_client) w10);
          w12 = server_log os localtime 97 ''do send'' w11;
          (f, w13) = sys os (Sys_send fd_client (take 6 (bytes_of ''12321321''))) w12;
          w14 = server_log os localtime 99 (''send = '' @ print_d (ret f) @ '' '' @ strerror (errno f)) w13;
          (g, w15) = sys os (Sys_accept n) w14;
          w16 = server_log os localtime 101 (''accept client fd '' @ print_d (shown (ret_addr g))) w15
      in snd (sys os (Sys_sleep 10) w16))"

definition close_server :: "os \<Rightarrow> (int \<Rightarrow> tm) \<Rightarrow> (int \<Rightarrow> string) \<Rightarrow> (sockaddr_in \<Rightarrow> int) \<Rightarrow> world \<Rightarrow> world res" where
  "close_server os localtime strerror shown w =
     (let (a, w1) = sys os Sys_socket_blocking w;
          n = ret a
      in if n < 0 then Inr (server_log os localtime 61 (''socket = '' @ print_d n @ '' '' @ strerror (errno a)) w1)
      else
        let w2 = snd (sys os (Sys_setsockopt n) w1);
            (b, w3) = sys os (Sys_bind n (htons 30000)) w2
        in if ret b = -1 then Inr (server_log os localtime 75 (''BIND err '' @ strerror (errno b)) w3)
        else
          let (c, w4) = sys os (Sys_listen n 10) w3
          in if ret c \<noteq> 0 then Inr (server_log os localtime 83 (''listen '' @ strerror (errno c)) w4)
          else
            let (d, w5) = sys os (Sys_accept n) w4;
                fd_client = ret d;
                w6 = server_log os localtime 90 (''accept client fd '' @ print_d (shown (ret_addr d))) w5;
                (e, w7) = sys os (Sys_recv fd_client LEN_1K) w6
            in bind_res (write_bytes 0 (take (nat (ret e)) (ret_bytes e)) (replicate LEN_1K 0))
              (\<lambda>buf. bind_res (c_string buf)
                (\<lambda>s. Inr (close_server_rest os localtime strerror shown n fd_client (ret e) s w7))))"

subsection \<open>The calls that are not output\<close>

fun is_print :: "syscall \<Rightarrow> bool" where
  "is_print (Sys_print s) = True"
| "is_print _ = False"

definition silent :: "syscall list \<Rightarrow> syscall list" where
  "silent cs = filter (\<lambda>c. \<not> is_print c) cs"

lemma silent_simps [simp]:
  "silent [] = []" "silent (cs @ ds) = silent cs @ silent ds"
  "silent (c # cs) = (if is_print c then silent cs else c # silent cs)"
  by (simp_all add: silent_def)

lemma silent_log [simp]: "silent (calls (test_log os localtime line msg w)) = silent (calls w)"
  by (simp add: test_log_def)

lemma silent_server_log [simp]: "silent (calls (server_log os localtime line msg w)) = silent (calls w)"
  by (simp add: server_log_def)

lemma received_1k:
  assumes "recv_documented os" and "a = os cs (Sys_recv n LEN_1K)"
  shows "ret a \<le> 1024" and "0 < ret a \<Longrightarrow> length (ret_bytes a) = nat (ret a)"
proof -
  have "ret a \<le> int 1024" using assms unfolding recv_documented_def LEN_1K_def by blast
  then show "ret a \<le> 1024" by simp
  show "0 < ret a \<Longrightarrow> length (ret_bytes a) = nat (ret a)" using assms unfolding recv_documented_def by blast
qed

lemma received_fits:
  assumes "recv_documented os" and "a = os cs (Sys_recv n LEN_1K)"
  shows "write_bytes 0 (take (nat (ret a)) (ret_bytes a)) (replicate LEN_1K 0) =
    Inr (take (nat (ret a)) (ret_bytes a) @ replicate (1024 - length (take (nat (ret a)) (ret_bytes a))) 0)"
proof -
  have "length (take (nat (ret a)) (ret_bytes a)) \<le> 1024" using received_1k(1) [OF assms] by simp
  then show ?thesis by (simp add: write_bytes_def LEN_1K_def)
qed


lemma c_string_cases: "c_string bs = Inl Out_Of_Bounds \<and> 0 \<notin> set bs \<or> (\<exists>s. c_string bs = Inr s \<and> 0 \<in> set bs)"
  by (simp add: c_string_def)

lemma whole_buffer:
  assumes "recv_documented os" and "a = os cs (Sys_recv n LEN_1K)"
  shows "0 \<notin> set (take (nat (ret a)) (ret_bytes a) @ replicate (1024 - length (take (nat (ret a)) (ret_bytes a))) 0) \<longleftrightarrow>
    ret a = 1024 \<and> 0 \<notin> set (ret_bytes a)"
proof (cases "0 < ret a")
  case True
  then show ?thesis using received_1k [OF assms] by auto
qed auto

lemma rest_calls:
  "silent (calls (close_server_rest os localtime strerror shown n fd_client sret buf w)) = silent (calls w) @
    [Sys_sleep 10, Sys_close fd_client, Sys_send fd_client (bytes_of ''123213''), Sys_accept n, Sys_sleep 10]"
  by (simp add: close_server_rest_def case_prod_beta Let_def bytes_of_def)

text \<open>A server that listens gets to the line that shows what it received.\<close>

lemma server_receives:
  assumes "recv_documented os" and "c1 = Sys_socket_blocking" and "n = ret (os (calls w) c1)"
    and "c2 = Sys_setsockopt n" and "c3 = Sys_bind n (htons 30000)" and "c4 = Sys_listen n 10" and "c5 = Sys_accept n"
    and "d = os (calls w @ [c1, c2, c3, c4]) c5"
    and "e = os (calls w @ [c1, c2, c3, c4, c5, Sys_print (log_line localtime (tv_sec (ret_time d)) ''main'' 90
      (''accept client fd '' @ print_d (shown (ret_addr d))))]) (Sys_recv (ret d) 1024)"
    and ok: "\<not> n < 0" "ret (os (calls w @ [c1, c2]) c3) \<noteq> -1" "ret (os (calls w @ [c1, c2, c3]) c4) = 0"
    and buf: "buf = take (nat (ret e)) (ret_bytes e) @ replicate (1024 - length (take (nat (ret e)) (ret_bytes e))) 0"
  shows "\<exists>w7. silent (calls w7) = silent (calls w) @ [c1, c2, c3, c4, c5, Sys_recv (ret d) 1024] \<and>
    close_server os localtime strerror shown w =
      bind_res (c_string buf) (\<lambda>s. Inr (close_server_rest os localtime strerror shown n (ret d) (ret e) s w7))"
proof -
  have e: "e = os (calls w @ [c1, c2, c3, c4, c5, Sys_print (log_line localtime (tv_sec (ret_time d)) ''main'' 90
      (''accept client fd '' @ print_d (shown (ret_addr d))))]) (Sys_recv (ret d) LEN_1K)"
    using assms(9) by (simp add: LEN_1K_def)
  note fits = received_fits [OF assms(1) e, folded buf]
  define w1 w2 w3 w4 w5 where "w1 = snd (sys os c1 w)" and "w2 = snd (sys os c2 w1)" and "w3 = snd (sys os c3 w2)"
    and "w4 = snd (sys os c4 w3)" and "w5 = snd (sys os c5 w4)"
  note ws = w1_def w2_def w3_def w4_def w5_def
  have cs: "calls w1 = calls w @ [c1]" "calls w2 = calls w @ [c1, c2]" "calls w3 = calls w @ [c1, c2, c3]"
      "calls w4 = calls w @ [c1, c2, c3, c4]" "calls w5 = calls w @ [c1, c2, c3, c4, c5]"
    by (simp_all add: ws)
  have step: "sys os c v = (os (calls v) c, snd (sys os c v))" for c and v :: world by (simp add: prod_eq_iff)
  obtain b where s1: "sys os Sys_socket_blocking w = (b, w1)" "ret b = n"
    using step [of c1 w] assms(2,3) by (simp add: w1_def)
  have s2: "snd (sys os (Sys_setsockopt n) w1) = w2" using assms(4) by (simp add: w2_def)
  obtain c where s3: "sys os (Sys_bind n (htons 30000)) w2 = (c, w3)" "ret c \<noteq> -1"
    using step [of c3 w2] assms(5) ok(2) cs(2) by (simp add: w3_def)
  obtain f where s4: "sys os (Sys_listen n 10) w3 = (f, w4)" "ret f = 0"
    using step [of c4 w3] assms(6) ok(3) cs(3) by (simp add: w4_def)
  have s5: "sys os (Sys_accept n) w4 = (d, w5)" using step [of c5 w4] assms(7,8) cs(4) by (simp add: w5_def)
  define w6 where "w6 = server_log os localtime 90 (''accept client fd '' @ print_d (shown (ret_addr d))) w5"
  define w7 where "w7 = snd (sys os (Sys_recv (ret d) LEN_1K) w6)"
  have w7: "silent (calls w7) = silent (calls w) @ [c1, c2, c3, c4, c5, Sys_recv (ret d) 1024]"
    using cs(5) assms(2,4-7) by (simp add: w7_def w6_def LEN_1K_def)
  have "clock w5 = ret_time d" using s5 by (auto simp: sys_def Let_def)
  then have "calls w6 = calls w @ [c1, c2, c3, c4, c5, Sys_print (log_line localtime (tv_sec (ret_time d)) ''main'' 90
      (''accept client fd '' @ print_d (shown (ret_addr d))))]"
    using cs(5) by (simp add: w6_def server_log_def)
  then have s7: "sys os (Sys_recv (ret d) LEN_1K) w6 = (e, w7)"
    using step [of "Sys_recv (ret d) LEN_1K" w6] e by (simp add: w7_def)
  have run: "close_server os localtime strerror shown w =
      bind_res (c_string buf) (\<lambda>s. Inr (close_server_rest os localtime strerror shown n (ret d) (ret e) s w7))"
    unfolding close_server_def Let_def s1 prod.case s2 s3(1) s4(1) s5 w6_def [symmetric] s7 fits
    using ok(1) s3(2) s4(2) by simp
  show ?thesis using w7 run by blast
qed

subsection \<open>Properties\<close>

text \<open>
  C39: The close-connect server makes its calls in a fixed order up to the first of \<^verbatim>\<open>socket\<close>, \<^verbatim>\<open>bind\<close>
  and \<^verbatim>\<open>listen\<close> that fails, and from there to the end whatever the other calls answer, so that it
  sends on the descriptor it has closed before; the one exception is a client that fills the buffer
  with 1024 bytes of which none is zero: printing the buffer then reads past its end.
\<close>

theorem close_server_run:
  assumes "recv_documented os" and "c1 = Sys_socket_blocking" and "n = ret (os (calls w) c1)"
    and "c2 = Sys_setsockopt n" and "c3 = Sys_bind n (htons 30000)" and "c4 = Sys_listen n 10" and "c5 = Sys_accept n"
    and "d = os (calls w @ [c1, c2, c3, c4]) c5"
    and "e = os (calls w @ [c1, c2, c3, c4, c5, Sys_print (log_line localtime (tv_sec (ret_time d)) ''main'' 90
      (''accept client fd '' @ print_d (shown (ret_addr d))))]) (Sys_recv (ret d) 1024)"
    and "m = (if n < 0 then 1 else if ret (os (calls w @ [c1, c2]) c3) = -1 then 3
      else if ret (os (calls w @ [c1, c2, c3]) c4) \<noteq> 0 then 4 else 11)"
  shows "if m = 11 \<and> ret e = 1024 \<and> 0 \<notin> set (ret_bytes e)
    then close_server os localtime strerror shown w = Inl Out_Of_Bounds
    else \<exists>w'. close_server os localtime strerror shown w = Inr w' \<and>
      silent (calls w') = silent (calls w) @ take m [c1, c2, c3, c4, c5, Sys_recv (ret d) 1024, Sys_sleep 10,
        Sys_close (ret d), Sys_send (ret d) (bytes_of ''123213''), c5, Sys_sleep 10]"
proof (cases "m = 11")
  case False
  then show ?thesis
    using assms(2-7,10) by (auto simp: close_server_def case_prod_beta Let_def)
next
  case True
  have e: "e = os (calls w @ [c1, c2, c3, c4, c5, Sys_print (log_line localtime (tv_sec (ret_time d)) ''main'' 90
      (''accept client fd '' @ print_d (shown (ret_addr d))))]) (Sys_recv (ret d) LEN_1K)"
    using assms(9) by (simp add: LEN_1K_def)
  let ?buf = "take (nat (ret e)) (ret_bytes e) @ replicate (1024 - length (take (nat (ret e)) (ret_bytes e))) 0"
  have ok: "\<not> n < 0" "ret (os (calls w @ [c1, c2]) c3) \<noteq> -1" "ret (os (calls w @ [c1, c2, c3]) c4) = 0"
    using True assms(10) by (simp_all split: if_splits)
  obtain w7 where w7: "silent (calls w7) = silent (calls w) @ [c1, c2, c3, c4, c5, Sys_recv (ret d) 1024]"
      "close_server os localtime strerror shown w =
        bind_res (c_string ?buf) (\<lambda>s. Inr (close_server_rest os localtime strerror shown n (ret d) (ret e) s w7))"
    using server_receives [where os = os and localtime = localtime and shown = shown, OF assms(1-9) ok refl] by blast
  show ?thesis
    using w7 c_string_cases [of ?buf] whole_buffer [OF assms(1) e] True
      rest_calls [of os localtime strerror shown n "ret d" "ret e" _ w7] assms(7)
    by auto
qed

definition flooded_os :: os where
  "flooded_os cs c = \<lparr>ret = (case c of Sys_socket_blocking \<Rightarrow> 3 | Sys_accept n \<Rightarrow> 5 | Sys_recv n len \<Rightarrow> int len | _ \<Rightarrow> 0),
     errno = 0, ret_bytes = (case c of Sys_recv n len \<Rightarrow> replicate len 65 | _ \<Rightarrow> []),
     ret_addr = \<lparr>sin_addr = 0, sin_port = 0\<rparr>, ret_events = [], ret_time = \<lparr>tv_sec = 1, tv_usec = 0\<rparr>\<rparr>"

theorem close_server_run_witness:
  "close_server flooded_os (\<lambda>_. example_tm) (\<lambda>_. ''Success'') (\<lambda>_. 2) (world_start \<lparr>tv_sec = 1, tv_usec = 0\<rparr>) = Inl Out_Of_Bounds"
proof -
  have doc: "recv_documented flooded_os" by (simp add: recv_documented_def flooded_os_def)
  have n: "3 = ret (flooded_os (calls (world_start \<lparr>tv_sec = 1, tv_usec = 0\<rparr>)) Sys_socket_blocking)"
    by (simp add: flooded_os_def)
  show ?thesis
    using close_server_run [where os = flooded_os and localtime = "\<lambda>_. example_tm" and shown = "\<lambda>_. 2"
        and strerror = "\<lambda>_. ''Success''", OF doc refl n refl refl refl refl refl refl refl]
    by (simp add: flooded_os_def)
qed

text \<open>
  The close-connect client, once it has its socket, makes its calls in a fixed order whatever
  they answer: it connects, sends the text with its final zero, reads once, connects again on the
  same descriptor and closes it.
\<close>

theorem close_client_run:
  assumes "recv_documented os" and "n = ret (os (calls w) Sys_socket_blocking)"
  shows "\<exists>w'. close_client os localtime strerror w = Inr w' \<and>
    silent (calls w') = silent (calls w) @ take (if n < 0 then 1 else 7) [Sys_socket_blocking, Sys_connect n servaddr,
      Sys_send n (bytes_of ''12312321313'' @ [0]), Sys_recv n 1024, Sys_connect n servaddr, Sys_close n, Sys_sleep 10]"
proof (cases "n < 0")
  case True
  then show ?thesis using assms(2) by (simp add: close_client_def case_prod_beta Let_def)
next
  case False
  then show ?thesis
    using assms(2) by (simp add: close_client_def case_prod_beta Let_def received_fits [OF assms(1)]) (simp add: LEN_1K_def)
qed

theorem close_client_run_witness:
  "\<exists>w'. close_client flooded_os (\<lambda>_. example_tm) (\<lambda>_. ''Success'') (world_start \<lparr>tv_sec = 1, tv_usec = 0\<rparr>) = Inr w'"
proof -
  have "recv_documented flooded_os" by (simp add: recv_documented_def flooded_os_def)
  from close_client_run [OF this refl, where w = "world_start \<lparr>tv_sec = 1, tv_usec = 0\<rparr>" and localtime = "\<lambda>_. example_tm" and strerror = "\<lambda>_. ''Success''"]
  show ?thesis by blast
qed

end
