(* ===== verification/Spec2Isabelle.thy ===== *)
theory Spec2Isabelle
  imports ContextSwitch Exchange Connect Inflight CloseConnect
begin

text \<open>
  A coroutine framework for epoll servers in C++, with two example programs.

  \<^bold>\<open>The program.\<close> \<^verbatim>\<open>lib/coroutine\<close> makes and switches machine contexts, in C and assembler.
  \<^verbatim>\<open>lib/eventmgr\<close> is the framework: the timer table (\<^verbatim>\<open>ExpireMgr.h\<close>), the coroutine table and its
  scheduler (\<^verbatim>\<open>CoroutineMgr\<close>), the descriptor table (\<^verbatim>\<open>FdMgr.h\<close>), descriptor handles and sockets
  (\<^verbatim>\<open>Fd.h\<close>), the event loop and the calls a coroutine may block in (\<^verbatim>\<open>EventMgr\<close>), with
  buffers, timers and enumerations in \<^verbatim>\<open>util.h\<close>. \<^verbatim>\<open>pb/head.h\<close> frames the packages. \<^verbatim>\<open>test2\<close> is a
  server that answers after ten seconds, \<^verbatim>\<open>test1\<close> one that asks \<^verbatim>\<open>test2\<close>; beside it lie two small
  programs that try out what happens when a side closes. The main stack runs, for
  ever, one turn of the event loop (\<^verbatim>\<open>RunOnce\<close>: resume a coroutine that is due, or wait for events
  and handle them) and one pass of the scheduler (\<^verbatim>\<open>ScheduleAll\<close>: run what is ready, destroy what
  has ended). A package from a client makes a coroutine, which calls the registered callback;
  when the callback waits, its coroutine gets a timer and the main stack goes on.

  \<^bold>\<open>Theories and sources.\<close>
  \<^item> \<open>Prelude\<close>: faults, results, C integer conversions. \<open>StdMap\<close>: \<^verbatim>\<open>std::map\<close> and \<^verbatim>\<open>std::set\<close> over
    a comparator, by the sequence of their entries, with the laws as locales.
  \<^item> \<open>ContextSwitch\<close>: \<^verbatim>\<open>coroutine.h\<close>, \<^verbatim>\<open>coroutine.c\<close>, \<^verbatim>\<open>switch.s\<close>, the last as a list of machine
    instructions. A switch saves and restores what it must, for any number of contexts.
  \<^item> \<open>Timer\<close>, \<open>MemData\<close>, \<open>Util\<close>: \<^verbatim>\<open>util.h\<close>, and the event masks of \<^verbatim>\<open>EventMgr\<close>.
  \<^item> \<open>ExpireMgr\<close>: the two timer tables implement a map from ids to deadlines, served in order.
    The locale \<open>timer_service\<close> is that contract, interpreted as \<open>expire\<close>.
  \<^item> \<open>CoroutineMgr\<close>: every operation keeps the invariant \<open>co_ok\<close>. The locale
    \<open>coroutine_runtime\<close> states what the scheduler needs of the coroutines it runs, and proves
    that a pass ends.
  \<^item> \<open>FdMgr\<close>: \<^verbatim>\<open>FdMgr.h\<close>. On which keys the comparator is an order, and what searches find.
  \<^item> \<open>World\<close>, \<open>EventMgr\<close>, \<open>Client\<close>: the whole state, the event loop, and the blocking calls
    \<^verbatim>\<open>tcpsend\<close>, \<^verbatim>\<open>tcpconnect\<close>, \<^verbatim>\<open>tcpsendrecv\<close>, \<^verbatim>\<open>wait_ms\<close> as code that waits (type \<open>co\<close>).
  \<^item> \<open>Runtime\<close>: the run of a coroutine from one switch to the next, \<^verbatim>\<open>Entry\<close> of
    \<^verbatim>\<open>CoroutineMgr.cpp\<close> included; interprets \<open>coroutine_runtime\<close> (\<open>runtime\<close>, \<open>live\<close>).
  \<^item> \<open>Turn\<close>: a round of the main loop, its step relation and invariant. \<open>Pass\<close>: a pass of the
    scheduler is the plain loop that serves each coroutine once.
  \<^item> \<open>RequestReply\<close>: one request from \<^verbatim>\<open>tcpsendrecv\<close> over the event loop to the reply. \<open>Inflight\<close>: many
    requests on one connection, as runs (\<open>conn_run\<close>) that implement a map from sequence numbers to
    coroutines and bytes, and what a connection that ends does to a waiting request. \<open>Connect\<close>:
    opening a connection, from \<^verbatim>\<open>tcpconnect\<close> over \<^verbatim>\<open>TcpConnect\<close> to its end.
  \<^item> \<open>Socket\<close>: \<^verbatim>\<open>Fd.h\<close>, \<^verbatim>\<open>Fd.cpp\<close>, shared handles with their counts. \<open>HeadPkg\<close>: \<^verbatim>\<open>head.h\<close>.
  \<^item> \<open>Server\<close>: \<^verbatim>\<open>main1.cpp\<close> and \<^verbatim>\<open>main2.cpp\<close>, and the results for the program \<^verbatim>\<open>test2\<close>; \<open>Relay\<close>:
    those for the callback of \<^verbatim>\<open>test1\<close>.
  \<^item> \<open>Rounds\<close>: what one round of either program's loop comes to, from the event or timer that starts it
    to the end of the pass: \<^verbatim>\<open>test2\<close> takes a request, and answers it when it is due, \<^verbatim>\<open>test1\<close> relays a
    reply. \<open>Exchange\<close>: \<^verbatim>\<open>test1\<close> forwards a request, \<^verbatim>\<open>test2\<close> serves one in three rounds, and an exchange
    through both programs completes; the round of each ends in a state that the next one starts
    from (\<open>resting\<close>, \<open>linked\<close>, \<open>awaits\<close>).
  \<^item> \<open>Logging\<close>: \<^verbatim>\<open>format\<close>, \<^verbatim>\<open>LOG\<close>, the \<^verbatim>\<open>DebugString\<close> functions, \<^verbatim>\<open>Dump\<close>, \<^verbatim>\<open>testmap\<close> and the
    timing loop \<^verbatim>\<open>test\<close>. \<open>CloseConnect\<close>:
    the programs \<^verbatim>\<open>close-connect-client.cpp\<close> and \<^verbatim>\<open>close-connect-server.cpp\<close>.

  \<^bold>\<open>State.\<close> The singletons are one record, extended component by component: \<open>exp_state\<close>,
  \<open>co_state\<close>, \<open>fd_state_rec\<close>, \<open>world\<close>. An operation of a component applies to every extension.
  Pointers to entries of a table are keys; \<open>control\<close> says whose stack the processor is on. The
  stacks of suspended coroutines are functions of the state they are resumed with.

  \<^bold>\<open>Parameters.\<close> \<open>os\<close> answers system calls, from the calls made before, in any way; \<open>recv_documented\<close>
  and \<open>send_documented\<close> are what the manual pages say of the sizes returned. \<open>code\<close> and
  \<open>procs\<close> are the callbacks of the user (the programs' own in \<open>Server\<close>), \<open>pb\<close> the
  generated message classes with the hypothesis \<open>pb_roundtrip\<close>, \<open>raw\<close> the memory a new table
  entry is made in, \<open>localtime\<close> and \<open>inet_addr\<close> the library's.

  \<^bold>\<open>Errors and termination.\<close> Error codes are the code's own; undefined behaviour is a \<open>fault\<close>. The
  pass of the scheduler and the loop of \<^verbatim>\<open>tcpsend\<close> are \<open>partial_function (option)\<close>: \<open>None\<close> is not
  returning. Both are shown to return, the first for all callbacks within the contract
  \<open>procs_ok\<close>, the second for a system that does not take more than it is offered; there is no
  fuel. The main loop is the closure \<open>main_reach\<close> of its rounds.

  \<^bold>\<open>Not modelled.\<close> The lines the library itself logs: what \<^verbatim>\<open>LOG\<close> and \<^verbatim>\<open>Dump\<close> write is modelled, and
  is part of the two close-connect programs, but the operations of the library leave their
  calls of it out, since output changes no state; so too the call of \<^verbatim>\<open>__GetStack__\<close> in
  \<^verbatim>\<open>CMonitorEpoll::Init\<close>. The network between the two programs, which is in the hypotheses on what
  each system delivers; the generated protobuf code; the build files; code in comments. The callbacks
  \<^verbatim>\<open>Check\<close> and \<^verbatim>\<open>Seq\<close> are, for the loop, functions of the bytes and the size, and a read past the end of
  a buffer by the generated parser (in \<^verbatim>\<open>Decode\<close>, when it is given a size that is too large) is not a
  fault. Time passes at the modelled system calls only. Of the handles that share a descriptor, the
  event loop keeps count of those of the table and of suspended \<^verbatim>\<open>tcpconnect\<close>s (\<open>connecting\<close>), \<open>Socket\<close>
  of all. The code is single-threaded; signals do not occur.
\<close>

end
